(* ===== verification/Prelude.thy ===== *)
theory Prelude
  imports Main
begin

text \<open>
  Shared vocabulary of the development: Go's \<open>error\<close> values and their texts, the Go
  string helpers the sources call (decimal and hexadecimal formatting, ASCII case folding,
  splitting at newlines, trimming of white space), and the generic lemmas on lists and
  finite maps that several components use.

  A Go \<open>string\<close> is a byte sequence, and so is a HOL \<open>string\<close> (a list of 8-bit
  characters).  A Go \<open>error\<close> is a value of the datatype below; \<open>nil\<close> is
  \<open>None\<close> or the right summand of a sum.
\<close>

named_theorems codec_simps "encoders and decoders of the wire messages"
named_theorems hub_defs "definitions of the hub's locked operations"
named_theorems step_defs "definitions of event handlers that are unfolded together"

section \<open>Lists\<close>

lemma map_filter_cong:
  "(\<And>x. x \<in> set xs \<Longrightarrow> f x = g x) \<Longrightarrow> List.map_filter f xs = List.map_filter g xs"
  by (induction xs) (auto simp: List.map_filter_def)

section \<open>Go errors\<close>

datatype go_error =
    NewError string
  | WrapError string go_error
  | LibError string
  | UnmarshalTypeError string string string string

text \<open>
  \<open>NewError t\<close> is \<open>errors.New(t)\<close> or \<open>fmt.Errorf\<close> without \<open>%w\<close>;
  \<open>WrapError p e\<close> is \<open>fmt.Errorf("p: %w", e)\<close>; \<open>LibError t\<close> is an error
  value a library returned; \<open>UnmarshalTypeError value struct field type\<close> is the error of
  \<open>encoding/json\<close> with these four fields.
\<close>

fun error_text :: "go_error \<Rightarrow> string" where
  "error_text (NewError t) = t"
| "error_text (WrapError p e) = p @ '': '' @ error_text e"
| "error_text (LibError t) = t"
| "error_text (UnmarshalTypeError v s f t) =
     (if s \<noteq> '''' \<or> f \<noteq> ''''
      then ''json: cannot unmarshal '' @ v @ '' into Go struct field '' @ s @ ''.'' @ f
             @ '' of type '' @ t
      else ''json: cannot unmarshal '' @ v @ '' into Go value of type '' @ t)"

section \<open>Formatting numbers\<close>

definition digit_char :: "nat \<Rightarrow> char" where
  "digit_char d = char_of (48 + d)"

fun dec_nat :: "nat \<Rightarrow> string" where
  "dec_nat n = (if n < 10 then [digit_char n] else dec_nat (n div 10) @ [digit_char (n mod 10)])"

declare dec_nat.simps [simp del]

definition dec_int :: "int \<Rightarrow> string" where
  "dec_int i = (if i < 0 then CHR ''-'' # dec_nat (nat (- i)) else dec_nat (nat i))"

definition digit_value :: "char \<Rightarrow> nat" where
  "digit_value c = of_char c - 48"

definition undec_nat :: "string \<Rightarrow> nat" where
  "undec_nat s = foldl (\<lambda>a c. 10 * a + digit_value c) 0 s"

lemma digit_value_digit_char [simp]: "d < 10 \<Longrightarrow> digit_value (digit_char d) = d"
  by (simp add: digit_value_def digit_char_def of_char_of take_bit_eq_mod)

lemma undec_nat_snoc [simp]: "undec_nat (s @ [c]) = 10 * undec_nat s + digit_value c"
  by (simp add: undec_nat_def)

lemma undec_dec_nat [simp]: "undec_nat (dec_nat n) = n"
proof (induction n rule: dec_nat.induct)
  case (1 n)
  show ?case
  proof (cases "n < 10")
    case True
    then show ?thesis by (subst dec_nat.simps) (simp add: undec_nat_def)
  next
    case False
    with "1.IH" have "undec_nat (dec_nat (n div 10)) = n div 10" by simp
    with False show ?thesis by (subst dec_nat.simps) simp
  qed
qed

lemma dec_nat_inject [simp]: "dec_nat m = dec_nat n \<longleftrightarrow> m = n"
  by (metis undec_dec_nat)

definition hex_digit :: "nat \<Rightarrow> char" where
  "hex_digit d = (if d < 10 then char_of (48 + d) else char_of (87 + d))"

definition hex2 :: "nat \<Rightarrow> string" where
  "hex2 b = [hex_digit (b div 16), hex_digit (b mod 16)]"

definition quote_char :: "char \<Rightarrow> string" where
  "quote_char c =
     (let n = of_char c :: nat
      in if n = 34 then [CHR 0x5C, c] else if n = 92 then [CHR 0x5C, c]
         else if n = 7 then CHR 0x5C # ''a'' else if n = 8 then CHR 0x5C # ''b''
         else if n = 9 then CHR 0x5C # ''t'' else if n = 10 then CHR 0x5C # ''n''
         else if n = 11 then CHR 0x5C # ''v'' else if n = 12 then CHR 0x5C # ''f''
         else if n = 13 then CHR 0x5C # ''r''
         else if n < 32 \<or> n = 127 then CHR 0x5C # ''x'' @ hex2 n
         else [c])"

text \<open>The verb \<open>%q\<close>, on text whose characters beyond ASCII are printable.\<close>

definition go_quote :: "string \<Rightarrow> string" where
  "go_quote s = [CHR 0x22] @ concat (map quote_char s) @ [CHR 0x22]"

section \<open>Case folding of ASCII letters\<close>

definition ascii_upper :: "char \<Rightarrow> char" where
  "ascii_upper c = (let n = of_char c in if 97 \<le> n \<and> n \<le> (122::nat) then char_of (n - 32) else c)"

definition ascii_equal_fold :: "string \<Rightarrow> string \<Rightarrow> bool" where
  "ascii_equal_fold s t \<longleftrightarrow> map ascii_upper s = map ascii_upper t"

lemma ascii_equal_fold_refl [simp]: "ascii_equal_fold s s"
  by (simp add: ascii_equal_fold_def)

section \<open>White space\<close>

text \<open>
  The UTF-8 encodings of the characters with the property \<open>White_Space\<close>, which
  \<open>strings.TrimSpace\<close> removes from both ends: the six ASCII ones, U+0085, U+00A0,
  U+1680, U+2000 to U+200A, U+2028, U+2029, U+202F, U+205F and U+3000.
\<close>

definition bytes :: "nat list \<Rightarrow> string" where
  "bytes ns = map char_of ns"

definition white_space :: "string list" where
  "white_space =
     map bytes ([[9], [10], [11], [12], [13], [32], [0xC2, 0x85], [0xC2, 0xA0], [0xE1, 0x9A, 0x80]]
       @ map (\<lambda>k. [0xE2, 0x80, 0x80 + k]) [0..<11]
       @ [[0xE2, 0x80, 0xA8], [0xE2, 0x80, 0xA9], [0xE2, 0x80, 0xAF], [0xE2, 0x81, 0x9F],
          [0xE3, 0x80, 0x80]])"

definition is_prefix :: "'a list \<Rightarrow> 'a list \<Rightarrow> bool" where
  "is_prefix p s \<longleftrightarrow> take (length p) s = p"

definition leading_space :: "string list \<Rightarrow> string \<Rightarrow> nat" where
  "leading_space ws s = (case List.find (\<lambda>w. is_prefix w s) ws of None \<Rightarrow> 0 | Some w \<Rightarrow> length w)"

fun trim_left :: "string list \<Rightarrow> string \<Rightarrow> string" where
  "trim_left ws [] = []"
| "trim_left ws (c # cs) =
     (case leading_space ws (c # cs) of
        0 \<Rightarrow> c # cs
      | Suc k \<Rightarrow> trim_left ws (drop k cs))"

definition trim_right :: "string list \<Rightarrow> string \<Rightarrow> string" where
  "trim_right ws s = rev (trim_left (map rev ws) (rev s))"

definition trim_space :: "string \<Rightarrow> string" where
  "trim_space s = trim_right white_space (trim_left white_space s)"

definition trimmed :: "string \<Rightarrow> bool" where
  "trimmed s \<longleftrightarrow> list_all (\<lambda>w. \<not> is_prefix w s \<and> \<not> is_prefix (rev w) (rev s)) white_space"

lemma white_space_nonempty: "[] \<notin> set white_space"
  by (auto simp: white_space_def bytes_def)

lemma leading_space_0:
  "[] \<notin> set ws \<Longrightarrow> leading_space ws s = 0 \<longleftrightarrow> (\<forall>w \<in> set ws. \<not> is_prefix w s)"
  by (auto simp: leading_space_def find_None_iff find_Some_iff split: option.splits)
    (metis nth_mem)

lemma leading_space_Nil [simp]: "leading_space ws [] = 0"
  by (auto simp: leading_space_def is_prefix_def find_Some_iff split: option.splits)

lemma trim_left_done: "leading_space ws s = 0 \<Longrightarrow> trim_left ws s = s"
  by (cases s) auto

lemma trim_left_trimmed: "leading_space ws (trim_left ws s) = 0"
  by (induction ws s rule: trim_left.induct) (auto split: nat.splits)

lemma trim_left_suffix: "\<exists>p. s = p @ trim_left ws s"
proof (induction ws s rule: trim_left.induct)
  case (1 ws)
  show ?case by simp
next
  case (2 ws c cs)
  show ?case
  proof (cases "leading_space ws (c # cs)")
    case 0
    then show ?thesis by simp
  next
    case (Suc k)
    then obtain p where "drop k cs = p @ trim_left ws (drop k cs)" using 2 by blast
    have "c # cs = c # take k cs @ drop k cs" by simp
    also have "\<dots> = (c # take k cs @ p) @ trim_left ws (drop k cs)"
      using \<open>drop k cs = p @ _\<close> by simp
    also have "\<dots> = (c # take k cs @ p) @ trim_left ws (c # cs)"
      using Suc by simp
    finally show ?thesis by blast
  qed
qed

lemma is_prefix_iff: "is_prefix w s \<longleftrightarrow> (\<exists>t. s = w @ t)"
proof
  assume "is_prefix w s"
  then have "s = w @ drop (length w) s" by (simp add: is_prefix_def) (metis append_take_drop_id)
  then show "\<exists>t. s = w @ t" by blast
qed (auto simp: is_prefix_def)

lemma is_prefix_append: "is_prefix w s \<Longrightarrow> is_prefix w (s @ t)"
  by (auto simp: is_prefix_iff)

text \<open>What \<open>strings.TrimSpace\<close> leaves has no white space at either end.\<close>

lemma trim_space_trimmed: "trimmed (trim_space s)"
proof -
  let ?l = "trim_left white_space s" and ?r = "trim_space s"
  have rv: "[] \<notin> set (map rev white_space)" using white_space_nonempty by auto
  have right: "\<not> is_prefix (rev w) (rev ?r)" if "w \<in> set white_space" for w
    using trim_left_trimmed[of "map rev white_space" "rev ?l"] that
    by (simp add: leading_space_0[OF rv] trim_space_def trim_right_def)
  obtain p where "rev ?l = p @ trim_left (map rev white_space) (rev ?l)"
    using trim_left_suffix by blast
  then have "?l = ?r @ rev p"
    by (simp add: trim_space_def trim_right_def) (metis rev_append rev_rev_ident)
  then have left: "\<not> is_prefix w ?r" if "w \<in> set white_space" for w
    using trim_left_trimmed[of white_space s] that is_prefix_append[of w ?r "rev p"]
    by (auto simp: leading_space_0[OF white_space_nonempty])
  from left right show ?thesis by (simp add: trimmed_def list_all_iff)
qed

lemma trim_space_infix: "\<exists>p q. s = p @ trim_space s @ q"
proof -
  obtain p where p: "s = p @ trim_left white_space s" using trim_left_suffix by blast
  obtain q where "rev (trim_left white_space s) = q @ trim_left (map rev white_space) (rev (trim_left white_space s))"
    using trim_left_suffix by blast
  then have "trim_left white_space s = trim_space s @ rev q"
    by (simp add: trim_space_def trim_right_def) (metis rev_append rev_rev_ident)
  with p show ?thesis by metis
qed

lemma trim_space_id: "trimmed s \<Longrightarrow> trim_space s = s"
proof -
  assume t: "trimmed s"
  have "trim_left white_space s = s"
    using t white_space_nonempty by (intro trim_left_done) (simp add: leading_space_0 trimmed_def list_all_iff)
  moreover have "trim_left (map rev white_space) (rev s) = rev s"
  proof (rule trim_left_done)
    have "[] \<notin> set (map rev white_space)" using white_space_nonempty by auto
    with t show "leading_space (map rev white_space) (rev s) = 0"
      by (simp add: leading_space_0 trimmed_def list_all_iff)
  qed
  ultimately show ?thesis by (simp add: trim_space_def trim_right_def)
qed

text \<open>A string whose first and last characters are visible ASCII has nothing to trim.\<close>

definition ascii_visible :: "char \<Rightarrow> bool" where
  "ascii_visible c \<longleftrightarrow> 32 < (of_char c :: nat) \<and> (of_char c :: nat) < 128"

lemma white_space_ends:
  "w \<in> set white_space \<Longrightarrow> w \<noteq> [] \<and> \<not> ascii_visible (hd w) \<and> \<not> ascii_visible (last w)"
  by (auto simp: white_space_def bytes_def ascii_visible_def of_char_of upt_conv_Cons)

lemma trimmed_ascii:
  assumes "s \<noteq> []" and "ascii_visible (hd s)" and "ascii_visible (last s)"
  shows "trimmed s"
proof -
  have "\<not> is_prefix w s \<and> \<not> is_prefix (rev w) (rev s)" if w: "w \<in> set white_space" for w
  proof
    show "\<not> is_prefix w s"
      using white_space_ends[OF w] assms(2) by (auto simp: is_prefix_iff)
    show "\<not> is_prefix (rev w) (rev s)"
    proof
      assume "is_prefix (rev w) (rev s)"
      then obtain t where "rev s = rev w @ t" by (auto simp: is_prefix_iff)
      then have "s = rev t @ w" by (metis rev_append rev_rev_ident)
      with white_space_ends[OF w] assms(3) show False by simp
    qed
  qed
  then show ?thesis by (simp add: trimmed_def list_all_iff)
qed

end
