(* ===== verification/Wire_Json.thy ===== *)
theory Wire_Json
  imports Prelude
begin

text \<open>
  The part of \<open>encoding/json\<close> that the program uses, on the level of JSON values: the
  text of a message is parsed before it reaches this model (a frame that is not JSON at all is
  a failed read), and object members keep their order and their duplicates.  A number is kept
  as its literal.  \<open>decode_struct\<close> is \<open>json.Unmarshal\<close> into a struct: members
  are matched exactly and, failing that, under Unicode case folding; unknown members are
  skipped; later duplicates overwrite; a member of the wrong type is skipped, decoding goes on
  and the first such error is returned at the end; \<open>null\<close> leaves its target alone.
\<close>

section \<open>JSON values\<close>

datatype json =
    JNull
  | JBool bool
  | JNum string
  | JStr string
  | JArr "json list"
  | JObj "(string \<times> json) list"

text \<open>The word for a value's type in an \<open>UnmarshalTypeError\<close>.\<close>

fun json_kind :: "json \<Rightarrow> string" where
  "json_kind JNull = ''null''"
| "json_kind (JBool b) = ''bool''"
| "json_kind (JNum n) = ''number''"
| "json_kind (JStr s) = ''string''"
| "json_kind (JArr vs) = ''array''"
| "json_kind (JObj ms) = ''object''"

section \<open>Matching member names\<close>

text \<open>
  \<open>foldName\<close> maps each character to the least one of its case-folding orbit.  For a field
  name in ASCII letters the only other characters that fold into it are the other case of the
  letter, U+017F (long s, bytes C5 BF) for \<open>S\<close> and U+212A (Kelvin sign, bytes E2 84 AA)
  for \<open>K\<close>.
\<close>

fun fold_name :: "string \<Rightarrow> string" where
  "fold_name [] = []"
| "fold_name (c # cs) =
     (if is_prefix (bytes [0xE2, 0x84, 0xAA]) (c # cs) then CHR ''K'' # fold_name (drop 2 cs)
      else if is_prefix (bytes [0xC5, 0xBF]) (c # cs) then CHR ''S'' # fold_name (drop 1 cs)
      else ascii_upper c # fold_name cs)"

definition find_field :: "string \<Rightarrow> (string \<times> 'f) list \<Rightarrow> (string \<times> 'f) option" where
  "find_field k fs =
     (case List.find (\<lambda>f. fst f = k) fs of
        Some f \<Rightarrow> Some f
      | None \<Rightarrow> List.find (\<lambda>f. fold_name (fst f) = fold_name k) fs)"

section \<open>Decoding into a struct\<close>

text \<open>
  A setter decodes a member into one field.  It is given the name of the struct and the
  field's path, which it needs for the text of a type error.
\<close>

type_synonym 'r setter = "string \<Rightarrow> string \<Rightarrow> json \<Rightarrow> 'r \<Rightarrow> go_error option \<times> 'r"

definition set_string :: "(string \<Rightarrow> 'r \<Rightarrow> 'r) \<Rightarrow> 'r setter" where
  "set_string upd st path v r =
     (case v of
        JStr s \<Rightarrow> (None, upd s r)
      | JNull \<Rightarrow> (None, r)
      | _ \<Rightarrow> (Some (UnmarshalTypeError (json_kind v) st path ''string''), r))"

definition set_bool :: "(bool \<Rightarrow> 'r \<Rightarrow> 'r) \<Rightarrow> 'r setter" where
  "set_bool upd st path v r =
     (case v of
        JBool b \<Rightarrow> (None, upd b r)
      | JNull \<Rightarrow> (None, r)
      | _ \<Rightarrow> (Some (UnmarshalTypeError (json_kind v) st path ''bool''), r))"

text \<open>A \<open>json.RawMessage\<close> takes any value as it is, \<open>null\<close> included.\<close>

definition set_raw :: "(json \<Rightarrow> 'r \<Rightarrow> 'r) \<Rightarrow> 'r setter" where
  "set_raw upd st path v r = (None, upd v r)"

definition first_error :: "go_error option \<Rightarrow> go_error option \<Rightarrow> go_error option" where
  "first_error e e' = (case e of None \<Rightarrow> e' | Some _ \<Rightarrow> e)"

text \<open>
  A slice is decoded element by element from zero values; \<open>null\<close> sets it to \<open>nil\<close>.
  (Decoding the same slice member twice in one object, where Go would reuse the elements of
  the first, is outside the model.)
\<close>

fun decode_elems ::
    "(json \<Rightarrow> 'e \<Rightarrow> go_error option \<times> 'e) \<Rightarrow> 'e \<Rightarrow> json list \<Rightarrow> go_error option \<times> 'e list" where
  "decode_elems dec z [] = (None, [])"
| "decode_elems dec z (v # vs) =
     (case dec v z of (e, x) \<Rightarrow>
        (case decode_elems dec z vs of (e', xs) \<Rightarrow> (first_error e e', x # xs)))"

definition set_slice ::
    "string \<Rightarrow> (string \<Rightarrow> string \<Rightarrow> json \<Rightarrow> 'e \<Rightarrow> go_error option \<times> 'e) \<Rightarrow> 'e \<Rightarrow>
     ('e list option \<Rightarrow> 'r \<Rightarrow> 'r) \<Rightarrow> 'r setter" where
  "set_slice ty dec z upd st path v r =
     (case v of
        JArr vs \<Rightarrow> (case decode_elems (dec st path) z vs of (e, xs) \<Rightarrow> (e, upd (Some xs) r))
      | JNull \<Rightarrow> (None, upd None r)
      | _ \<Rightarrow> (Some (UnmarshalTypeError (json_kind v) st path ty), r))"

definition join_path :: "string \<Rightarrow> string \<Rightarrow> string" where
  "join_path p f = (if p = '''' then f else p @ ''.'' @ f)"

fun decode_members ::
    "string \<Rightarrow> string \<Rightarrow> (string \<times> 'r setter) list \<Rightarrow> (string \<times> json) list \<Rightarrow>
     go_error option \<Rightarrow> 'r \<Rightarrow> go_error option \<times> 'r" where
  "decode_members st path fs [] e r = (e, r)"
| "decode_members st path fs ((k, v) # ms) e r =
     (case find_field k fs of
        None \<Rightarrow> decode_members st path fs ms e r
      | Some (f, put) \<Rightarrow>
          (case put st (join_path path f) v r of
             (e', r') \<Rightarrow> decode_members st path fs ms (first_error e e') r'))"

text \<open>
  \<open>pkg\<close> and \<open>st\<close> name the struct's type, \<open>ostr\<close> and \<open>path\<close> the enclosing
  struct and field (both empty at the top level).
\<close>

definition decode_nested ::
    "string \<Rightarrow> string \<Rightarrow> (string \<times> 'r setter) list \<Rightarrow> string \<Rightarrow> string \<Rightarrow> json \<Rightarrow> 'r \<Rightarrow>
     go_error option \<times> 'r" where
  "decode_nested pkg st fs ostr path v r =
     (case v of
        JObj ms \<Rightarrow> decode_members st path fs ms None r
      | JNull \<Rightarrow> (None, r)
      | _ \<Rightarrow> (Some (UnmarshalTypeError (json_kind v) ostr path (pkg @ ''.'' @ st)), r))"

definition decode_struct ::
    "string \<Rightarrow> string \<Rightarrow> (string \<times> 'r setter) list \<Rightarrow> json \<Rightarrow> 'r \<Rightarrow> go_error option \<times> 'r" where
  "decode_struct pkg st fs = decode_nested pkg st fs '''' ''''"

text \<open>\<open>err := json.Unmarshal(raw, \&m); if err != nil { return err }\<close>\<close>

definition checked :: "go_error option \<times> 'r \<Rightarrow> go_error + 'r" where
  "checked p = (case p of (None, r) \<Rightarrow> Inr r | (Some e, _) \<Rightarrow> Inl e)"

section \<open>Facts for evaluating decoders\<close>

lemma first_error_None [simp]: "first_error None e = e" "first_error e None = e"
  by (auto simp: first_error_def split: option.splits)

text \<open>On ASCII names, case folding is upper-casing.\<close>

lemma is_prefix_bytes:
  assumes "is_prefix (bytes (n # ns)) (c # cs)" and "(of_char c :: nat) < 128"
  shows "n mod 256 < 128"
proof -
  from assms(1) have "c = char_of n" by (simp add: is_prefix_def bytes_def)
  with assms(2) show ?thesis by simp
qed

lemma fold_name_ascii: "list_all (\<lambda>c. (of_char c :: nat) < 128) s \<Longrightarrow> fold_name s = map ascii_upper s"
proof (induction s)
  case Nil
  show ?case by simp
next
  case (Cons c cs)
  then have "\<not> is_prefix (bytes [0xE2, 0x84, 0xAA]) (c # cs)" "\<not> is_prefix (bytes [0xC5, 0xBF]) (c # cs)"
    using is_prefix_bytes[of "0xE2" "[0x84, 0xAA]" c cs] is_prefix_bytes[of "0xC5" "[0xBF]" c cs] by auto
  with Cons show ?case by simp
qed

declare fold_name.simps [simp del]

lemma find_field_Nil [simp]: "find_field k [] = None"
  by (simp add: find_field_def)

lemma find_field_exact [simp]: "find_field k ((k, s) # fs) = Some (k, s)"
  by (simp add: find_field_def)

lemma find_field_skip:
  assumes "k \<in> fst ` set fs" and "f \<noteq> k"
  shows "find_field k ((f, s) # fs) = find_field k fs"
proof -
  from assms(1) have "List.find (\<lambda>f. fst f = k) fs \<noteq> None"
    by (auto simp: find_None_iff)
  with assms(2) show ?thesis by (auto simp: find_field_def)
qed

lemma set_string_simps [simp]:
  "set_string u st p (JStr s) r = (None, u s r)"
  "set_string u st p JNull r = (None, r)"
  by (simp_all add: set_string_def)

lemma set_bool_simps [simp]:
  "set_bool u st p (JBool b) r = (None, u b r)"
  "set_bool u st p JNull r = (None, r)"
  by (simp_all add: set_bool_def)

lemma set_raw_simp [simp]: "set_raw u st p v r = (None, u v r)"
  by (simp add: set_raw_def)

lemma checked_simps [simp]:
  "checked (None, r) = Inr r"
  "checked (Some e, r) = Inl e"
  by (simp_all add: checked_def)

lemma checked_eq_Inr [simp]: "checked p = Inr r \<longleftrightarrow> p = (None, r)"
  by (cases p) (auto simp: checked_def split: option.splits)

lemma decode_struct_JObj [simp]:
  "decode_struct pkg st fs (JObj ms) r = decode_members st '''' fs ms None r"
  by (simp add: decode_struct_def decode_nested_def)

lemma decode_struct_JNull [simp]: "decode_struct pkg st fs JNull r = (None, r)"
  by (simp add: decode_struct_def decode_nested_def)

lemma decode_elems_roundtrip:
  assumes "\<And>x. x \<in> set xs \<Longrightarrow> dec (enc x) z = (None, x)"
  shows "decode_elems dec z (map enc xs) = (None, xs)"
  using assms by (induction xs) auto

end
