(* ===== verification/Http.thy ===== *)
theory Http
  imports Wire_Json
begin

text \<open>
  What the HTTP handlers of the auth service use of \<open>net/http\<close>: the \<open>Authorization\<close>
  header, the claims stored in the request context, the request body as \<open>json.Decoder\<close>
  sees it (a JSON value, or the error that reading it gives), and the response a handler
  writes.  A handler that dereferences a nil pointer panics instead of answering.
\<close>

definition StatusOK :: nat where "StatusOK = 200"
definition StatusBadRequest :: nat where "StatusBadRequest = 400"
definition StatusUnauthorized :: nat where "StatusUnauthorized = 401"
definition StatusInternalServerError :: nat where "StatusInternalServerError = 500"

lemmas status_defs = StatusOK_def StatusBadRequest_def StatusUnauthorized_def StatusInternalServerError_def

record 'c http_request =
  req_authorization :: string
  req_claims :: "'c option"
  req_body :: "go_error + json"

datatype http_outcome =
    Response (resp_status: nat) (resp_type: string) (resp_body: json)
  | NilPanic

text \<open>\<open>writeErr\<close> of \<open>internal/token/middleware.go\<close>.\<close>

definition writeErr :: "nat \<Rightarrow> string \<Rightarrow> string \<Rightarrow> http_outcome" where
  "writeErr status code msg =
     Response status ''application/json'' (JObj [(''code'', JStr code), (''message'', JStr msg)])"

end
