(* ===== verification/Token.thy ===== *)
theory Token
  imports Http
begin

text \<open>
  \<open>internal/token\<close>: issuing and verifying access tokens, and the HTTP middleware that
  demands one.  The JWT library is a parameter, a record of the three functions the code calls;
  what the code relies on is the contract \<open>jwt_contract\<close>, which the theorems name as a
  hypothesis.  Times are nanoseconds since the epoch, as \<open>time.Time\<close> has them; a
  \<open>NumericDate\<close> is in seconds.
\<close>

section \<open>Claims and the JWT library\<close>

definition RoleUser :: string where "RoleUser = ''user''"
definition RoleDrone :: string where "RoleDrone = ''drone''"
definition Issuer :: string where "Issuer = ''pocketpilot-auth''"

record claims =
  cl_role :: string
  cl_subject :: string
  cl_issued_at :: "int option"
  cl_expires_at :: "int option"
  cl_issuer :: string

datatype signing_method = SigningMethodHMAC string | OtherMethod string

definition SigningMethodHS256 :: signing_method where
  "SigningMethodHS256 = SigningMethodHMAC ''HS256''"

fun method_alg :: "signing_method \<Rightarrow> string" where
  "method_alg (SigningMethodHMAC a) = a"
| "method_alg (OtherMethod a) = a"

record jwt_token =
  tok_claims :: "claims option"
  tok_valid :: bool

type_synonym keyfunc = "signing_method \<Rightarrow> go_error + string"

text \<open>
  \<open>jwt_sign\<close> is \<open>NewWithClaims(m, c).SignedString(secret)\<close>; \<open>jwt_parse raw keyfunc
  issuer now\<close> is \<open>ParseWithClaims(raw, \&Claims{}, keyfunc, WithIssuer(issuer))\<close> at the time
  \<open>now\<close>; \<open>jwt_signed m c k raw\<close> says that \<open>raw\<close> carries the claims \<open>c\<close>
  with a signature by method \<open>m\<close> under key \<open>k\<close>.
\<close>

record jwt_lib =
  jwt_numeric_date :: "int \<Rightarrow> int"
  jwt_sign :: "signing_method \<Rightarrow> claims \<Rightarrow> string \<Rightarrow> go_error + string"
  jwt_parse :: "string \<Rightarrow> keyfunc \<Rightarrow> string \<Rightarrow> int \<Rightarrow> go_error + jwt_token"
  jwt_signed :: "signing_method \<Rightarrow> claims \<Rightarrow> string \<Rightarrow> string \<Rightarrow> bool"

definition second :: int where "second = 1000000000"

definition unexpired :: "claims \<Rightarrow> int \<Rightarrow> bool" where
  "unexpired c now = (case cl_expires_at c of None \<Rightarrow> True | Some e \<Rightarrow> now < e * second)"

text \<open>
  The documented behaviour of the library: a \<open>NumericDate\<close> is the time truncated to
  seconds; what was signed is a signed token; a token carries one set of claims; a signed
  token whose method the key function
  accepts with the signing key, with the demanded issuer and not expired, parses to its
  claims; and nothing else parses.
\<close>

definition jwt_contract :: "jwt_lib \<Rightarrow> bool" where
  "jwt_contract lib \<longleftrightarrow>
     (\<forall>t. jwt_numeric_date lib t = t div second) \<and>
     (\<forall>m c k raw. jwt_sign lib m c k = Inr raw \<longrightarrow> jwt_signed lib m c k raw) \<and>
     (\<forall>m c k m' c' k' raw. jwt_signed lib m c k raw \<and> jwt_signed lib m' c' k' raw \<longrightarrow> c' = c) \<and>
     (\<forall>m c k raw keyf now. jwt_signed lib m c k raw \<and> keyf m = Inr k \<and> unexpired c now \<longrightarrow>
        jwt_parse lib raw keyf (cl_issuer c) now = Inr \<lparr>tok_claims = Some c, tok_valid = True\<rparr>) \<and>
     (\<forall>raw keyf iss now t. jwt_parse lib raw keyf iss now = Inr t \<longrightarrow>
        (\<exists>m c k. keyf m = Inr k \<and> jwt_signed lib m c k raw \<and> tok_claims t = Some c \<and>
                 cl_issuer c = iss \<and> unexpired c now))"

section \<open>Issuing and verifying\<close>

record mint =
  m_secret :: string
  m_access_ttl :: int

definition NewIssuer :: "string \<Rightarrow> int \<Rightarrow> mint" where
  "NewIssuer secret ttl = \<lparr>m_secret = secret, m_access_ttl = ttl\<rparr>"

definition issued_claims :: "jwt_lib \<Rightarrow> mint \<Rightarrow> int \<Rightarrow> string \<Rightarrow> string \<Rightarrow> claims" where
  "issued_claims lib m now subject role =
     \<lparr>cl_role = role, cl_subject = subject,
      cl_issued_at = Some (jwt_numeric_date lib now),
      cl_expires_at = Some (jwt_numeric_date lib (now + m_access_ttl m)),
      cl_issuer = Issuer\<rparr>"

definition issue :: "jwt_lib \<Rightarrow> mint \<Rightarrow> int \<Rightarrow> string \<Rightarrow> string \<Rightarrow> go_error + string \<times> int" where
  "issue lib m now subject role =
     (case jwt_sign lib SigningMethodHS256 (issued_claims lib m now subject role) (m_secret m) of
        Inl e \<Rightarrow> Inl (WrapError ''sign'' e)
      | Inr s \<Rightarrow> Inr (s, now + m_access_ttl m))"

text \<open>A verifier is its secret; \<open>verify\<close> is its method, given that secret.\<close>

record verifier =
  v_secret :: string

definition NewVerifier :: "string \<Rightarrow> verifier" where
  "NewVerifier secret = \<lparr>v_secret = secret\<rparr>"

definition verifier_key :: "string \<Rightarrow> keyfunc" where
  "verifier_key secret m =
     (case m of
        SigningMethodHMAC _ \<Rightarrow> Inr secret
      | OtherMethod alg \<Rightarrow> Inl (NewError (''unexpected signing method: '' @ alg)))"

definition verify :: "jwt_lib \<Rightarrow> string \<Rightarrow> int \<Rightarrow> string \<Rightarrow> go_error + claims" where
  "verify lib secret now raw =
     (case jwt_parse lib raw (verifier_key secret) Issuer now of
        Inl e \<Rightarrow> Inl e
      | Inr parsed \<Rightarrow>
          (case tok_claims parsed of
             None \<Rightarrow> Inl (NewError ''invalid token'')
           | Some c \<Rightarrow> if tok_valid parsed then Inr c else Inl (NewError ''invalid token'')))"

section \<open>The middleware\<close>

definition bearer_prefix :: string where "bearer_prefix = ''Bearer ''"

definition bearer :: "'c http_request \<Rightarrow> string" where
  "bearer r =
     (let h = req_authorization r
      in if length bearer_prefix < length h \<and>
            ascii_equal_fold (take (length bearer_prefix) h) bearer_prefix
         then trim_space (drop (length bearer_prefix) h)
         else '''')"

definition ClaimsFrom :: "claims http_request \<Rightarrow> claims option" where
  "ClaimsFrom r = req_claims r"

definition RequireToken ::
    "jwt_lib \<Rightarrow> string \<Rightarrow> int \<Rightarrow> (claims http_request \<Rightarrow> http_outcome) \<Rightarrow> claims http_request \<Rightarrow> http_outcome" where
  "RequireToken lib secret now next_handler r =
     (let raw = bearer r
      in if raw = '''' then writeErr StatusUnauthorized ''missing_token'' ''Authorization: Bearer required''
         else (case verify lib secret now raw of
                 Inl e \<Rightarrow> writeErr StatusUnauthorized ''invalid_token'' (error_text e)
               | Inr c \<Rightarrow> next_handler (r\<lparr>req_claims := Some c\<rparr>)))"

section \<open>A table of tokens as a concrete JWT library\<close>

text \<open>Used by the witnesses only: the tokens that exist are the rows of a table.\<close>

definition table_jwt :: "(string \<times> signing_method \<times> claims \<times> string) list \<Rightarrow> jwt_lib" where
  "table_jwt tbl =
     \<lparr>jwt_numeric_date = (\<lambda>t. t div second),
      jwt_sign = (\<lambda>m c k. case List.find (\<lambda>e. snd e = (m, c, k)) tbl of
                            None \<Rightarrow> Inl (LibError ''cannot sign'')
                          | Some e \<Rightarrow> Inr (fst e)),
      jwt_parse = (\<lambda>raw keyf iss now. case map_of tbl raw of
                     None \<Rightarrow> Inl (LibError ''token is malformed'')
                   | Some (m, c, k) \<Rightarrow>
                       if keyf m = Inr k \<and> cl_issuer c = iss \<and> unexpired c now
                       then Inr \<lparr>tok_claims = Some c, tok_valid = True\<rparr>
                       else Inl (LibError ''token is invalid'')),
      jwt_signed = (\<lambda>m c k raw. map_of tbl raw = Some (m, c, k))\<rparr>"

lemma table_jwt_contract:
  assumes "distinct (map fst tbl)"
  shows "jwt_contract (table_jwt tbl)"
proof -
  have sound: "map_of tbl raw = Some (m, c, k)"
    if "jwt_sign (table_jwt tbl) m c k = Inr raw" for m c k raw
  proof -
    from that obtain e where e: "List.find (\<lambda>e. snd e = (m, c, k)) tbl = Some e" "raw = fst e"
      by (auto simp: table_jwt_def split: option.splits)
    then have "e \<in> set tbl" "snd e = (m, c, k)"
      by (auto simp: find_Some_iff)
    with e assms show ?thesis by (cases e) (auto intro: map_of_is_SomeI)
  qed
  show ?thesis
    unfolding jwt_contract_def
    using sound by (auto simp: table_jwt_def split: option.splits if_splits)
qed

section \<open>Facts about the contract\<close>

lemma jwt_contract_date: "jwt_contract lib \<Longrightarrow> jwt_numeric_date lib t = t div second"
  by (simp add: jwt_contract_def)

lemma jwt_contract_signed: "jwt_contract lib \<Longrightarrow> jwt_sign lib m c k = Inr raw \<Longrightarrow> jwt_signed lib m c k raw"
  by (simp add: jwt_contract_def)

lemma jwt_contract_unique:
  "jwt_contract lib \<Longrightarrow> jwt_signed lib m c k raw \<Longrightarrow> jwt_signed lib m' c' k' raw \<Longrightarrow> c' = c"
  unfolding jwt_contract_def by blast

lemma jwt_contract_parses:
  "jwt_contract lib \<Longrightarrow> jwt_signed lib m c k raw \<Longrightarrow> keyf m = Inr k \<Longrightarrow> unexpired c now \<Longrightarrow>
     jwt_parse lib raw keyf (cl_issuer c) now = Inr \<lparr>tok_claims = Some c, tok_valid = True\<rparr>"
  unfolding jwt_contract_def by blast

lemma jwt_contract_sound:
  assumes "jwt_contract lib" and "jwt_parse lib raw keyf iss now = Inr t"
  obtains m c k where "keyf m = Inr k" "jwt_signed lib m c k raw" "tok_claims t = Some c"
    "cl_issuer c = iss" "unexpired c now"
  using assms unfolding jwt_contract_def by blast

lemma verifier_key_Inr: "verifier_key secret m = Inr k \<longleftrightarrow> k = secret \<and> (\<exists>alg. m = SigningMethodHMAC alg)"
  by (auto simp: verifier_key_def split: signing_method.splits)

lemma verify_signed:
  assumes "jwt_contract lib" and "jwt_signed lib (SigningMethodHMAC alg) c secret raw"
    and "cl_issuer c = Issuer" and "unexpired c now"
  shows "verify lib secret now raw = Inr c"
  using jwt_contract_parses[OF assms(1,2) _ assms(4), of "verifier_key secret"] assms(3)
  by (simp add: verify_def verifier_key_def)

lemma verify_InrD:
  assumes "jwt_contract lib" and "verify lib secret now raw = Inr c"
  obtains alg where "jwt_signed lib (SigningMethodHMAC alg) c secret raw" "cl_issuer c = Issuer" "unexpired c now"
proof -
  from assms(2) obtain t where t: "jwt_parse lib raw (verifier_key secret) Issuer now = Inr t"
    and c: "tok_claims t = Some c"
    by (auto simp: verify_def split: sum.splits option.splits if_splits)
  from jwt_contract_sound[OF assms(1) t] c that show thesis
    by (auto simp: verifier_key_Inr)
qed

lemma issue_Inr:
  "issue lib m now subject role = Inr (raw, exp) \<longleftrightarrow>
     jwt_sign lib SigningMethodHS256 (issued_claims lib m now subject role) (m_secret m) = Inr raw \<and>
     exp = now + m_access_ttl m"
  by (auto simp: issue_def split: sum.splits)

text \<open>Verification of a freshly issued token, at any later time.\<close>

lemma bearer_of_token:
  assumes "trimmed tok" and "tok \<noteq> ''''" and "req_authorization r = ''Bearer '' @ tok"
  shows "bearer r = tok"
proof -
  have "ascii_equal_fold ''Bearer '' ''Bearer ''" by code_simp
  with assms show ?thesis by (simp add: bearer_def bearer_prefix_def trim_space_id)
qed

lemma issued_expiry:
  "jwt_contract lib \<Longrightarrow> issue lib m now subject role = Inr (raw, exp) \<Longrightarrow>
     cl_expires_at (issued_claims lib m now subject role) = Some (exp div second)"
  by (simp add: issue_Inr issued_claims_def jwt_contract_date)

lemma issue_signed:
  assumes "jwt_contract lib" and "issue lib m now subject role = Inr (raw, exp)"
  shows "jwt_signed lib (SigningMethodHMAC ''HS256'') (issued_claims lib m now subject role) (m_secret m) raw"
    and "unexpired (issued_claims lib m now subject role) later \<longleftrightarrow> later < exp div second * second"
  using assms jwt_contract_signed[OF assms(1)]
  by (auto simp: issue_Inr SigningMethodHS256_def unexpired_def issued_claims_def jwt_contract_date)

lemma verify_issued:
  assumes "jwt_contract lib" and "issue lib m now subject role = Inr (raw, exp)"
  shows "verify lib (m_secret m) later raw = Inr c \<longleftrightarrow>
           c = issued_claims lib m now subject role \<and> later < exp div second * second"
proof
  assume v: "verify lib (m_secret m) later raw = Inr c"
  from verify_InrD[OF assms(1) v] obtain alg
    where "jwt_signed lib (SigningMethodHMAC alg) c (m_secret m) raw" and un: "unexpired c later" .
  then have "c = issued_claims lib m now subject role"
    using jwt_contract_unique[OF assms(1)] issue_signed(1)[OF assms] by blast
  with un show "c = issued_claims lib m now subject role \<and> later < exp div second * second"
    using issue_signed(2)[OF assms] by simp
next
  assume "c = issued_claims lib m now subject role \<and> later < exp div second * second"
  then show "verify lib (m_secret m) later raw = Inr c"
    using verify_signed[OF assms(1) issue_signed(1)[OF assms]] issue_signed(2)[OF assms]
    by (simp add: issued_claims_def)
qed

section \<open>Properties\<close>

definition demo_claims :: claims where
  "demo_claims = \<lparr>cl_role = RoleUser, cl_subject = ''pilot1'', cl_issued_at = Some 100,
     cl_expires_at = Some 3700, cl_issuer = Issuer\<rparr>"

definition demo_jwt :: jwt_lib where
  "demo_jwt = table_jwt [(''tok'', SigningMethodHS256, demo_claims, ''key''),
                         (''evil'', OtherMethod ''none'', demo_claims, ''key''),
                         (''forever'', SigningMethodHS256, demo_claims\<lparr>cl_expires_at := None\<rparr>, ''key'')]"

definition demo_mint :: mint where
  "demo_mint = NewIssuer ''key'' (3600 * second)"

lemma demo_jwt_contract: "jwt_contract demo_jwt"
  unfolding demo_jwt_def by (rule table_jwt_contract) simp

lemma demo_issue: "issue demo_jwt demo_mint (100 * second) ''pilot1'' RoleUser = Inr (''tok'', 3700 * second)"
  by (simp add: issue_Inr issued_claims_def demo_jwt_def table_jwt_def demo_mint_def NewIssuer_def
      demo_claims_def second_def)

text \<open>
  C22: a token that \<open>Issue\<close> signed is accepted by every \<open>Verifier\<close> that holds the same
  secret until the second its lifetime ends, and yields the subject and role it was issued
  for; from that second on it is refused.
\<close>

theorem issued_token_verifies_until_expiry:
  assumes "jwt_contract lib" and "issue lib m now subject role = Inr (raw, exp)"
  shows "if later < exp div second * second
    then verify lib (m_secret m) later raw = Inr (issued_claims lib m now subject role)
      \<and> cl_subject (issued_claims lib m now subject role) = subject
      \<and> cl_role (issued_claims lib m now subject role) = role
    else \<exists>e. verify lib (m_secret m) later raw = Inl e"
  using verify_issued[OF assms, of later]
  by (cases "verify lib (m_secret m) later raw") (auto simp: issued_claims_def)

theorem issued_token_verifies_until_expiry_witness:
  "verify demo_jwt ''key'' (200 * second) ''tok''
     = Inr (issued_claims demo_jwt demo_mint (100 * second) ''pilot1'' RoleUser)"
  using issued_token_verifies_until_expiry[OF demo_jwt_contract demo_issue, of "200 * second"]
  by (simp add: demo_mint_def NewIssuer_def second_def)

text \<open>
  C21: \<open>Verify\<close> accepts nothing but tokens signed by an HMAC method under the verifier's own
  secret, issued by this system and not expired; in particular a token signed with any other
  method (such as \<open>none\<close>) or any other key is refused.
\<close>

theorem verify_accepts_only_own_tokens:
  assumes "jwt_contract lib" and "verify lib secret now raw = Inr c"
  shows "(\<exists>alg. jwt_signed lib (SigningMethodHMAC alg) c secret raw) \<and> cl_issuer c = Issuer \<and> unexpired c now"
  using verify_InrD[OF assms] by metis

theorem verify_accepts_only_own_tokens_witness:
  "verify demo_jwt ''key'' 0 ''tok'' = Inr demo_claims \<and> verify demo_jwt ''key'' 0 ''evil'' = Inl (LibError ''token is invalid'')
    \<and> cl_issuer demo_claims = Issuer"
proof -
  have "verify demo_jwt ''key'' 0 ''tok'' = Inr demo_claims"
    by (simp add: verify_def demo_jwt_def table_jwt_def verifier_key_def SigningMethodHS256_def
        demo_claims_def unexpired_def second_def)
  moreover have "verify demo_jwt ''key'' 0 ''evil'' = Inl (LibError ''token is invalid'')"
    by (simp add: verify_def demo_jwt_def table_jwt_def verifier_key_def)
  ultimately show ?thesis
    using verify_accepts_only_own_tokens[OF demo_jwt_contract] by blast
qed

text \<open>
  \<open>bearer\<close> yields a token only from a header that starts with \<open>Bearer\<close> and a
  blank, in any case; the token is what follows, without the white space at either end, and any
  token without white space at its ends is recovered from every such header.
\<close>

theorem bearer_extracts_token:
  assumes "bearer r = tok" and "tok \<noteq> ''''"
  shows "(\<exists>p l q. req_authorization r = p @ l @ tok @ q \<and> ascii_equal_fold p bearer_prefix) \<and> trimmed tok
    \<and> bearer (r\<lparr>req_authorization := ''bEARER '' @ tok\<rparr>) = tok"
proof -
  let ?h = "req_authorization r" and ?n = "length bearer_prefix"
  from assms have fold: "ascii_equal_fold (take ?n ?h) bearer_prefix" and tok: "tok = trim_space (drop ?n ?h)"
    by (auto simp: bearer_def Let_def split: if_splits)
  obtain l q where "drop ?n ?h = l @ tok @ q"
    using trim_space_infix[of "drop ?n ?h"] tok by blast
  then have "?h = take ?n ?h @ l @ tok @ q" by (metis append_take_drop_id)
  with fold have "\<exists>p l q. ?h = p @ l @ tok @ q \<and> ascii_equal_fold p bearer_prefix" by blast
  moreover have tr: "trimmed tok" using tok trim_space_trimmed by simp
  moreover have any_case: "ascii_equal_fold ''bEARER '' ''Bearer ''" by code_simp
  have "bearer (r\<lparr>req_authorization := ''bEARER '' @ tok\<rparr>) = tok"
    using assms(2) any_case by (simp add: bearer_def bearer_prefix_def trim_space_id[OF tr])
  ultimately show ?thesis by blast
qed

definition demo_request :: "claims http_request" where
  "demo_request = \<lparr>req_authorization = ''BEARER tok'', req_claims = None, req_body = Inl (LibError ''EOF'')\<rparr>"

lemma demo_bearer: "bearer demo_request = ''tok''"
proof -
  have "ascii_equal_fold ''BEARER '' ''Bearer ''" by code_simp
  moreover have "trim_space ''tok'' = ''tok''"
    by (intro trim_space_id trimmed_ascii) (simp_all add: ascii_visible_def)
  ultimately show ?thesis by (simp add: bearer_def demo_request_def bearer_prefix_def)
qed

theorem bearer_extracts_token_witness:
  "bearer demo_request = ''tok'' \<and> trimmed ''tok''
     \<and> bearer (demo_request\<lparr>req_authorization := ''bEARER tok''\<rparr>) = ''tok''"
  using bearer_extracts_token[OF demo_bearer] demo_bearer by simp

text \<open>
  \<open>RequireToken\<close> runs the protected handler only for a request whose bearer token
  verifies, and hands it exactly the verified claims, whatever the context held before; a
  request without a token is answered 401 \<open>missing_token\<close>, one whose token does not verify
  401 \<open>invalid_token\<close>, and the handler is not run.
\<close>

theorem require_token_gates:
  assumes "jwt_contract lib"
  shows "(\<exists>c alg. jwt_signed lib (SigningMethodHMAC alg) c secret (bearer r) \<and> cl_issuer c = Issuer \<and> unexpired c now
            \<and> RequireToken lib secret now handler r = handler (r\<lparr>req_claims := Some c\<rparr>)
            \<and> ClaimsFrom (r\<lparr>req_claims := Some c\<rparr>) = Some c)
    \<or> (bearer r = '''' \<and> RequireToken lib secret now handler r
            = writeErr 401 ''missing_token'' ''Authorization: Bearer required'')
    \<or> (\<exists>e. verify lib secret now (bearer r) = Inl e
            \<and> RequireToken lib secret now handler r = writeErr 401 ''invalid_token'' (error_text e))"
proof (cases "verify lib secret now (bearer r)")
  case (Inl e)
  then show ?thesis by (auto simp: RequireToken_def StatusUnauthorized_def Let_def)
next
  case (Inr c)
  with verify_InrD[OF assms] obtain alg where
    "jwt_signed lib (SigningMethodHMAC alg) c secret (bearer r)" "cl_issuer c = Issuer" "unexpired c now"
    by metis
  with Inr show ?thesis
    by (auto simp: RequireToken_def StatusUnauthorized_def Let_def ClaimsFrom_def)
qed

theorem require_token_gates_witness:
  "jwt_contract demo_jwt
    \<and> RequireToken demo_jwt ''key'' 0 (\<lambda>r. Response 200 '''' JNull) demo_request = Response 200 '''' JNull"
proof -
  have "verify demo_jwt ''key'' 0 ''tok'' = Inr demo_claims"
    by (simp add: verify_def demo_jwt_def table_jwt_def verifier_key_def SigningMethodHS256_def
        demo_claims_def unexpired_def second_def)
  with require_token_gates[OF demo_jwt_contract, of "''key''" demo_request 0 "\<lambda>r. Response 200 '''' JNull"]
  show ?thesis by (auto simp: demo_jwt_contract demo_bearer)
qed

text \<open>
  The verifier does not demand an expiry: a properly signed token that carries no
  \<open>exp\<close> claim is accepted at every time.
\<close>

theorem token_without_expiry_never_expires:
  assumes "jwt_contract lib" and "jwt_signed lib (SigningMethodHMAC alg) c secret raw"
    and "cl_issuer c = Issuer" and "cl_expires_at c = None"
  shows "verify lib secret now raw = Inr c"
  using assms by (intro verify_signed[OF assms(1,2)]) (simp_all add: unexpired_def)

theorem token_without_expiry_never_expires_witness:
  "verify demo_jwt ''key'' (10 ^ 30) ''forever'' = Inr (demo_claims\<lparr>cl_expires_at := None\<rparr>)"
  by (rule token_without_expiry_never_expires[OF demo_jwt_contract, where alg = "''HS256''"])
    (simp_all add: demo_jwt_def table_jwt_def SigningMethodHS256_def demo_claims_def)

end
