(* ===== verification/Messages.thy ===== *)
theory Messages
  imports Wire_Json
begin

text \<open>
  \<open>internal/signal/messages.go\<close>: the wire vocabulary, one record per message struct, its
  field table for decoding and its encoder.  A Go slice whose nil-ness shows on the wire is an
  option: \<open>None\<close> is \<open>nil\<close> and encodes to \<open>null\<close>.
\<close>

section \<open>Kinds\<close>

definition KindHello :: string where "KindHello = ''hello''"
definition KindSessionReq :: string where "KindSessionReq = ''session.req''"
definition KindSDP :: string where "KindSDP = ''sdp''"
definition KindICE :: string where "KindICE = ''ice''"
definition KindBye :: string where "KindBye = ''bye''"
definition KindPing :: string where "KindPing = ''ping''"
definition KindHelloOK :: string where "KindHelloOK = ''hello.ok''"
definition KindSessionAck :: string where "KindSessionAck = ''session.ack''"
definition KindPeerSDP :: string where "KindPeerSDP = ''peer.sdp''"
definition KindPeerICE :: string where "KindPeerICE = ''peer.ice''"
definition KindPeerGone :: string where "KindPeerGone = ''peer.gone''"
definition KindPong :: string where "KindPong = ''pong''"
definition KindErr :: string where "KindErr = ''err''"

lemmas kind_defs =
  KindHello_def KindSessionReq_def KindSDP_def KindICE_def KindBye_def KindPing_def
  KindHelloOK_def KindSessionAck_def KindPeerSDP_def KindPeerICE_def KindPeerGone_def
  KindPong_def KindErr_def

definition client_kinds :: "string list" where
  "client_kinds = [KindHello, KindSessionReq, KindSDP, KindICE, KindBye, KindPing]"

definition server_kinds :: "string list" where
  "server_kinds = [KindHelloOK, KindSessionAck, KindPeerSDP, KindPeerICE, KindPeerGone, KindPong, KindErr]"

section \<open>The envelope and the ICE server entry\<close>

record envelope =
  env_kind :: string

definition zero_envelope :: envelope where
  "zero_envelope = \<lparr>env_kind = ''''\<rparr>"

definition envelope_fields :: "(string \<times> envelope setter) list" where
  "envelope_fields = [(''kind'', set_string (\<lambda>s r. r\<lparr>env_kind := s\<rparr>))]"

definition unmarshal_envelope :: "json \<Rightarrow> go_error + envelope" where
  "unmarshal_envelope raw = checked (decode_struct ''signal'' ''Envelope'' envelope_fields raw zero_envelope)"

record ice_server =
  ice_urls :: "string list option"
  ice_username :: string
  ice_credential :: string

definition zero_ice_server :: ice_server where
  "zero_ice_server = \<lparr>ice_urls = None, ice_username = '''', ice_credential = ''''\<rparr>"

definition ice_server_fields :: "(string \<times> ice_server setter) list" where
  "ice_server_fields =
     [(''urls'', set_slice ''[]string'' (set_string (\<lambda>s _. s)) '''' (\<lambda>u r. r\<lparr>ice_urls := u\<rparr>)),
      (''username'', set_string (\<lambda>s r. r\<lparr>ice_username := s\<rparr>)),
      (''credential'', set_string (\<lambda>s r. r\<lparr>ice_credential := s\<rparr>))]"

definition encode_slice :: "('e \<Rightarrow> json) \<Rightarrow> 'e list option \<Rightarrow> json" where
  "encode_slice enc xs = (case xs of None \<Rightarrow> JNull | Some ys \<Rightarrow> JArr (map enc ys))"

text \<open>A member tagged \<open>omitempty\<close> is left out when it is the empty string.\<close>

definition omitempty :: "string \<Rightarrow> string \<Rightarrow> (string \<times> json) list" where
  "omitempty k s = (if s = '''' then [] else [(k, JStr s)])"

definition encode_ice_server :: "ice_server \<Rightarrow> json" where
  "encode_ice_server s =
     JObj ([(''urls'', encode_slice JStr (ice_urls s))]
           @ omitempty ''username'' (ice_username s)
           @ omitempty ''credential'' (ice_credential s))"

section \<open>Client to server\<close>

record hello_msg =
  hello_kind :: string
  hello_token :: string

definition zero_hello :: hello_msg where
  "zero_hello = \<lparr>hello_kind = '''', hello_token = ''''\<rparr>"

definition hello_fields :: "(string \<times> hello_msg setter) list" where
  "hello_fields =
     [(''kind'', set_string (\<lambda>s r. r\<lparr>hello_kind := s\<rparr>)),
      (''token'', set_string (\<lambda>s r. r\<lparr>hello_token := s\<rparr>))]"

definition decode_hello :: "json \<Rightarrow> go_error option \<times> hello_msg" where
  "decode_hello raw = decode_struct ''signal'' ''HelloMsg'' hello_fields raw zero_hello"

definition encode_hello :: "hello_msg \<Rightarrow> json" where
  "encode_hello m = JObj [(''kind'', JStr (hello_kind m)), (''token'', JStr (hello_token m))]"

record session_req_msg =
  sreq_kind :: string
  sreq_peer :: string

definition zero_session_req :: session_req_msg where
  "zero_session_req = \<lparr>sreq_kind = '''', sreq_peer = ''''\<rparr>"

definition session_req_fields :: "(string \<times> session_req_msg setter) list" where
  "session_req_fields =
     [(''kind'', set_string (\<lambda>s r. r\<lparr>sreq_kind := s\<rparr>)),
      (''peer'', set_string (\<lambda>s r. r\<lparr>sreq_peer := s\<rparr>))]"

definition decode_session_req :: "json \<Rightarrow> go_error option \<times> session_req_msg" where
  "decode_session_req raw =
     decode_struct ''signal'' ''SessionReqMsg'' session_req_fields raw zero_session_req"

definition encode_session_req :: "session_req_msg \<Rightarrow> json" where
  "encode_session_req m = JObj [(''kind'', JStr (sreq_kind m)), (''peer'', JStr (sreq_peer m))]"

text \<open>\<open>SDPMsg\<close> and \<open>PeerSDPMsg\<close> have the same fields; so have the two ICE messages.\<close>

record sdp_msg =
  sdp_kind :: string
  sdp_session :: string
  sdp_role :: string
  sdp_sdp :: string

definition zero_sdp :: sdp_msg where
  "zero_sdp = \<lparr>sdp_kind = '''', sdp_session = '''', sdp_role = '''', sdp_sdp = ''''\<rparr>"

definition sdp_fields :: "(string \<times> sdp_msg setter) list" where
  "sdp_fields =
     [(''kind'', set_string (\<lambda>s r. r\<lparr>sdp_kind := s\<rparr>)),
      (''session'', set_string (\<lambda>s r. r\<lparr>sdp_session := s\<rparr>)),
      (''role'', set_string (\<lambda>s r. r\<lparr>sdp_role := s\<rparr>)),
      (''sdp'', set_string (\<lambda>s r. r\<lparr>sdp_sdp := s\<rparr>))]"

definition decode_sdp :: "json \<Rightarrow> go_error option \<times> sdp_msg" where
  "decode_sdp raw = decode_struct ''signal'' ''SDPMsg'' sdp_fields raw zero_sdp"

definition encode_sdp :: "sdp_msg \<Rightarrow> json" where
  "encode_sdp m =
     JObj [(''kind'', JStr (sdp_kind m)), (''session'', JStr (sdp_session m)),
           (''role'', JStr (sdp_role m)), (''sdp'', JStr (sdp_sdp m))]"

text \<open>A missing \<open>cand\<close> is a nil \<open>RawMessage\<close>, which encodes to \<open>null\<close>.\<close>

record ice_msg =
  icem_kind :: string
  icem_session :: string
  icem_cand :: json

definition zero_ice :: ice_msg where
  "zero_ice = \<lparr>icem_kind = '''', icem_session = '''', icem_cand = JNull\<rparr>"

definition ice_fields :: "(string \<times> ice_msg setter) list" where
  "ice_fields =
     [(''kind'', set_string (\<lambda>s r. r\<lparr>icem_kind := s\<rparr>)),
      (''session'', set_string (\<lambda>s r. r\<lparr>icem_session := s\<rparr>)),
      (''cand'', set_raw (\<lambda>v r. r\<lparr>icem_cand := v\<rparr>))]"

definition decode_ice :: "json \<Rightarrow> go_error option \<times> ice_msg" where
  "decode_ice raw = decode_struct ''signal'' ''ICEMsg'' ice_fields raw zero_ice"

definition encode_ice :: "ice_msg \<Rightarrow> json" where
  "encode_ice m =
     JObj [(''kind'', JStr (icem_kind m)), (''session'', JStr (icem_session m)),
           (''cand'', icem_cand m)]"

record bye_msg =
  bye_kind :: string
  bye_session :: string
  bye_reason :: string

definition zero_bye :: bye_msg where
  "zero_bye = \<lparr>bye_kind = '''', bye_session = '''', bye_reason = ''''\<rparr>"

definition bye_fields :: "(string \<times> bye_msg setter) list" where
  "bye_fields =
     [(''kind'', set_string (\<lambda>s r. r\<lparr>bye_kind := s\<rparr>)),
      (''session'', set_string (\<lambda>s r. r\<lparr>bye_session := s\<rparr>)),
      (''reason'', set_string (\<lambda>s r. r\<lparr>bye_reason := s\<rparr>))]"

definition decode_bye :: "json \<Rightarrow> go_error option \<times> bye_msg" where
  "decode_bye raw = decode_struct ''signal'' ''ByeMsg'' bye_fields raw zero_bye"

definition encode_bye :: "bye_msg \<Rightarrow> json" where
  "encode_bye m =
     JObj ([(''kind'', JStr (bye_kind m)), (''session'', JStr (bye_session m))]
           @ omitempty ''reason'' (bye_reason m))"

section \<open>Server to client\<close>

record hello_ok_msg =
  hok_kind :: string
  hok_self :: string

definition zero_hello_ok :: hello_ok_msg where
  "zero_hello_ok = \<lparr>hok_kind = '''', hok_self = ''''\<rparr>"

definition hello_ok_fields :: "(string \<times> hello_ok_msg setter) list" where
  "hello_ok_fields =
     [(''kind'', set_string (\<lambda>s r. r\<lparr>hok_kind := s\<rparr>)),
      (''self'', set_string (\<lambda>s r. r\<lparr>hok_self := s\<rparr>))]"

definition decode_hello_ok :: "json \<Rightarrow> go_error option \<times> hello_ok_msg" where
  "decode_hello_ok raw = decode_struct ''signal'' ''HelloOKMsg'' hello_ok_fields raw zero_hello_ok"

definition encode_hello_ok :: "hello_ok_msg \<Rightarrow> json" where
  "encode_hello_ok m = JObj [(''kind'', JStr (hok_kind m)), (''self'', JStr (hok_self m))]"

record session_ack_msg =
  ack_kind :: string
  ack_session :: string
  ack_peer :: string
  ack_ice_servers :: "ice_server list option"
  ack_initiator :: bool

definition zero_session_ack :: session_ack_msg where
  "zero_session_ack =
     \<lparr>ack_kind = '''', ack_session = '''', ack_peer = '''', ack_ice_servers = None,
      ack_initiator = False\<rparr>"

definition session_ack_fields :: "(string \<times> session_ack_msg setter) list" where
  "session_ack_fields =
     [(''kind'', set_string (\<lambda>s r. r\<lparr>ack_kind := s\<rparr>)),
      (''session'', set_string (\<lambda>s r. r\<lparr>ack_session := s\<rparr>)),
      (''peer'', set_string (\<lambda>s r. r\<lparr>ack_peer := s\<rparr>)),
      (''ice_servers'',
         set_slice ''[]signal.IceServer'' (decode_nested ''signal'' ''IceServer'' ice_server_fields)
           zero_ice_server (\<lambda>x r. r\<lparr>ack_ice_servers := x\<rparr>)),
      (''initiator'', set_bool (\<lambda>b r. r\<lparr>ack_initiator := b\<rparr>))]"

definition decode_session_ack :: "json \<Rightarrow> go_error option \<times> session_ack_msg" where
  "decode_session_ack raw =
     decode_struct ''signal'' ''SessionAckMsg'' session_ack_fields raw zero_session_ack"

definition encode_session_ack :: "session_ack_msg \<Rightarrow> json" where
  "encode_session_ack m =
     JObj [(''kind'', JStr (ack_kind m)), (''session'', JStr (ack_session m)),
           (''peer'', JStr (ack_peer m)),
           (''ice_servers'', encode_slice encode_ice_server (ack_ice_servers m)),
           (''initiator'', JBool (ack_initiator m))]"

definition decode_peer_sdp :: "json \<Rightarrow> go_error option \<times> sdp_msg" where
  "decode_peer_sdp raw = decode_struct ''signal'' ''PeerSDPMsg'' sdp_fields raw zero_sdp"

definition decode_peer_ice :: "json \<Rightarrow> go_error option \<times> ice_msg" where
  "decode_peer_ice raw = decode_struct ''signal'' ''PeerICEMsg'' ice_fields raw zero_ice"

record peer_gone_msg =
  gone_kind :: string
  gone_session :: string
  gone_reason :: string

definition zero_peer_gone :: peer_gone_msg where
  "zero_peer_gone = \<lparr>gone_kind = '''', gone_session = '''', gone_reason = ''''\<rparr>"

definition peer_gone_fields :: "(string \<times> peer_gone_msg setter) list" where
  "peer_gone_fields =
     [(''kind'', set_string (\<lambda>s r. r\<lparr>gone_kind := s\<rparr>)),
      (''session'', set_string (\<lambda>s r. r\<lparr>gone_session := s\<rparr>)),
      (''reason'', set_string (\<lambda>s r. r\<lparr>gone_reason := s\<rparr>))]"

definition decode_peer_gone :: "json \<Rightarrow> go_error option \<times> peer_gone_msg" where
  "decode_peer_gone raw = decode_struct ''signal'' ''PeerGoneMsg'' peer_gone_fields raw zero_peer_gone"

definition encode_peer_gone :: "peer_gone_msg \<Rightarrow> json" where
  "encode_peer_gone m =
     JObj [(''kind'', JStr (gone_kind m)), (''session'', JStr (gone_session m)),
           (''reason'', JStr (gone_reason m))]"

record err_msg =
  err_kind :: string
  err_code :: string
  err_message :: string

definition zero_err :: err_msg where
  "zero_err = \<lparr>err_kind = '''', err_code = '''', err_message = ''''\<rparr>"

definition err_fields :: "(string \<times> err_msg setter) list" where
  "err_fields =
     [(''kind'', set_string (\<lambda>s r. r\<lparr>err_kind := s\<rparr>)),
      (''code'', set_string (\<lambda>s r. r\<lparr>err_code := s\<rparr>)),
      (''message'', set_string (\<lambda>s r. r\<lparr>err_message := s\<rparr>))]"

definition decode_err :: "json \<Rightarrow> go_error option \<times> err_msg" where
  "decode_err raw = decode_struct ''signal'' ''ErrMsg'' err_fields raw zero_err"

definition encode_err :: "err_msg \<Rightarrow> json" where
  "encode_err m =
     JObj [(''kind'', JStr (err_kind m)), (''code'', JStr (err_code m)),
           (''message'', JStr (err_message m))]"

section \<open>What the server puts on a send queue\<close>

text \<open>
  The channel \<open>send\<close> carries \<open>any\<close>; these are the values the code puts on it.  A
  pong is sent as a \<open>map[string]string\<close>, not as a struct.
\<close>

datatype out_msg =
    HelloOK hello_ok_msg
  | SessionAck session_ack_msg
  | PeerSDP sdp_msg
  | PeerICE ice_msg
  | PeerGone peer_gone_msg
  | StringMap "(string \<times> string) list"
  | ErrReply err_msg

fun encode_out :: "out_msg \<Rightarrow> json" where
  "encode_out (HelloOK m) = encode_hello_ok m"
| "encode_out (SessionAck m) = encode_session_ack m"
| "encode_out (PeerSDP m) = encode_sdp m"
| "encode_out (PeerICE m) = encode_ice m"
| "encode_out (PeerGone m) = encode_peer_gone m"
| "encode_out (StringMap kvs) = JObj (map (\<lambda>(k, v). (k, JStr v)) kvs)"
| "encode_out (ErrReply m) = encode_err m"

section \<open>Decoders undo encoders\<close>

lemmas message_codec_defs [codec_simps] =
  decode_hello_def encode_hello_def hello_fields_def zero_hello_def
  decode_session_req_def encode_session_req_def session_req_fields_def zero_session_req_def
  decode_sdp_def encode_sdp_def sdp_fields_def zero_sdp_def decode_peer_sdp_def
  decode_ice_def encode_ice_def ice_fields_def zero_ice_def decode_peer_ice_def
  decode_bye_def encode_bye_def bye_fields_def zero_bye_def omitempty_def
  decode_hello_ok_def encode_hello_ok_def hello_ok_fields_def zero_hello_ok_def
  decode_session_ack_def encode_session_ack_def session_ack_fields_def zero_session_ack_def
  decode_peer_gone_def encode_peer_gone_def peer_gone_fields_def zero_peer_gone_def
  decode_err_def encode_err_def err_fields_def zero_err_def find_field_skip

lemmas envelope_codec_defs [codec_simps] =
  unmarshal_envelope_def envelope_fields_def zero_envelope_def

lemma decode_encode_ice_server [simp]:
  "decode_nested ''signal'' ''IceServer'' ice_server_fields st p (encode_ice_server s) zero_ice_server
     = (None, s)"
proof -
  have urls: "decode_elems (set_string (\<lambda>s _. s) t q) '''' (map JStr us) = (None, us)" for t q us
    by (rule decode_elems_roundtrip) simp
  show ?thesis
    by (cases s)
      (auto simp: decode_nested_def encode_ice_server_def ice_server_fields_def zero_ice_server_def
        set_slice_def encode_slice_def omitempty_def find_field_skip urls split: option.splits)
qed

lemma set_slice_encode_ice_servers [simp]:
  "set_slice ty (decode_nested ''signal'' ''IceServer'' ice_server_fields) zero_ice_server u st p
     (encode_slice encode_ice_server xs) r = (None, u xs r)"
proof (cases xs)
  case None
  then show ?thesis by (simp add: set_slice_def encode_slice_def)
next
  case (Some ys)
  have "decode_elems (decode_nested ''signal'' ''IceServer'' ice_server_fields st p) zero_ice_server
      (map encode_ice_server ys) = (None, ys)"
    by (rule decode_elems_roundtrip) simp
  with Some show ?thesis by (simp add: set_slice_def encode_slice_def)
qed

lemma client_roundtrips:
  "decode_hello (encode_hello h) = (None, h)"
  "decode_session_req (encode_session_req q) = (None, q)"
  "decode_sdp (encode_sdp d) = (None, d)"
  "decode_ice (encode_ice i) = (None, i)"
  "decode_bye (encode_bye b) = (None, b)"
  by (simp_all add: codec_simps)

lemma server_roundtrips:
  "decode_hello_ok (encode_hello_ok k) = (None, k)"
  "decode_session_ack (encode_session_ack a) = (None, a)"
  "decode_peer_sdp (encode_sdp d) = (None, d)"
  "decode_peer_ice (encode_ice i) = (None, i)"
  "decode_peer_gone (encode_peer_gone g) = (None, g)"
  "decode_err (encode_err e) = (None, e)"
  by (simp_all add: codec_simps)

section \<open>Reading the kind of an encoded message\<close>

lemma map_ascii_upper_names:
  "map ascii_upper ''kind'' = ''KIND''" "map ascii_upper ''token'' = ''TOKEN''"
  "map ascii_upper ''peer'' = ''PEER''" "map ascii_upper ''session'' = ''SESSION''"
  "map ascii_upper ''role'' = ''ROLE''" "map ascii_upper ''sdp'' = ''SDP''"
  "map ascii_upper ''cand'' = ''CAND''" "map ascii_upper ''reason'' = ''REASON''"
  "map ascii_upper ''self'' = ''SELF''" "map ascii_upper ''ice_servers'' = ''ICE_SERVERS''"
  "map ascii_upper ''initiator'' = ''INITIATOR''" "map ascii_upper ''code'' = ''CODE''"
  "map ascii_upper ''message'' = ''MESSAGE''"
  by code_simp+

lemma fold_member_names:
  "fold_name ''kind'' = ''KIND''" "fold_name ''token'' = ''TOKEN''" "fold_name ''peer'' = ''PEER''"
  "fold_name ''session'' = ''SESSION''" "fold_name ''role'' = ''ROLE''" "fold_name ''sdp'' = ''SDP''"
  "fold_name ''cand'' = ''CAND''" "fold_name ''reason'' = ''REASON''" "fold_name ''self'' = ''SELF''"
  "fold_name ''ice_servers'' = ''ICE_SERVERS''" "fold_name ''initiator'' = ''INITIATOR''"
  "fold_name ''code'' = ''CODE''" "fold_name ''message'' = ''MESSAGE''"
  by (subst fold_name_ascii, simp, fact map_ascii_upper_names)+

lemma find_kind_only:
  "fold_name k \<noteq> ''KIND'' \<Longrightarrow> find_field k [(''kind'', f)] = None"
  using fold_member_names(1) by (auto simp: find_field_def)

lemma unmarshal_envelope_kind:
  assumes "list_all (\<lambda>(k, v). fold_name k \<noteq> ''KIND'') ms"
  shows "unmarshal_envelope (JObj ((''kind'', JStr s) # ms)) = Inr \<lparr>env_kind = s\<rparr>"
proof -
  have "decode_members st p [(''kind'', f)] ms e r = (e, r)" for st p f e and r :: envelope
    using assms by (induction ms) (auto simp: find_kind_only)
  then show ?thesis by (simp add: unmarshal_envelope_def envelope_fields_def zero_envelope_def)
qed

lemma envelope_of_client:
  "unmarshal_envelope (encode_hello h) = Inr \<lparr>env_kind = hello_kind h\<rparr>"
  "unmarshal_envelope (encode_session_req q) = Inr \<lparr>env_kind = sreq_kind q\<rparr>"
  "unmarshal_envelope (encode_sdp d) = Inr \<lparr>env_kind = sdp_kind d\<rparr>"
  "unmarshal_envelope (encode_ice i) = Inr \<lparr>env_kind = icem_kind i\<rparr>"
  "unmarshal_envelope (encode_bye b) = Inr \<lparr>env_kind = bye_kind b\<rparr>"
  by (simp_all add: encode_hello_def encode_session_req_def encode_sdp_def encode_ice_def encode_bye_def
      omitempty_def unmarshal_envelope_kind fold_member_names)

lemma envelope_of_server:
  "unmarshal_envelope (encode_hello_ok k) = Inr \<lparr>env_kind = hok_kind k\<rparr>"
  "unmarshal_envelope (encode_session_ack a) = Inr \<lparr>env_kind = ack_kind a\<rparr>"
  "unmarshal_envelope (encode_peer_gone g) = Inr \<lparr>env_kind = gone_kind g\<rparr>"
  "unmarshal_envelope (encode_err e) = Inr \<lparr>env_kind = err_kind e\<rparr>"
  by (simp_all add: encode_hello_ok_def encode_session_ack_def encode_peer_gone_def encode_err_def
      unmarshal_envelope_kind fold_member_names)

section \<open>Properties\<close>

text \<open>
  Every message survives the wire: decoding what the encoder of a struct wrote gives the
  struct back without an error, for the five client messages and the six server messages, with
  any strings, candidates and ICE servers, omitted empty members included.
\<close>

theorem messages_roundtrip:
  "decode_hello (encode_hello h) = (None, h)
    \<and> decode_session_req (encode_session_req q) = (None, q)
    \<and> decode_sdp (encode_sdp d) = (None, d) \<and> decode_peer_sdp (encode_sdp d) = (None, d)
    \<and> decode_ice (encode_ice i) = (None, i) \<and> decode_peer_ice (encode_ice i) = (None, i)
    \<and> decode_bye (encode_bye b) = (None, b)
    \<and> decode_hello_ok (encode_hello_ok k) = (None, k)
    \<and> decode_session_ack (encode_session_ack a) = (None, a)
    \<and> decode_peer_gone (encode_peer_gone g) = (None, g)
    \<and> decode_err (encode_err e) = (None, e)"
  by (simp add: client_roundtrips server_roundtrips)

text \<open>
  The dispatch on \<open>kind\<close> is unambiguous: the thirteen kinds are pairwise different, and
  the envelope of an encoded message, which is decoded from the same bytes, shows the kind the
  sender put in, whatever the other members hold.
\<close>

theorem kinds_are_unambiguous:
  "distinct (client_kinds @ server_kinds)
    \<and> unmarshal_envelope (encode_hello h) = Inr \<lparr>env_kind = hello_kind h\<rparr>
    \<and> unmarshal_envelope (encode_session_req q) = Inr \<lparr>env_kind = sreq_kind q\<rparr>
    \<and> unmarshal_envelope (encode_sdp d) = Inr \<lparr>env_kind = sdp_kind d\<rparr>
    \<and> unmarshal_envelope (encode_ice i) = Inr \<lparr>env_kind = icem_kind i\<rparr>
    \<and> unmarshal_envelope (encode_bye b) = Inr \<lparr>env_kind = bye_kind b\<rparr>
    \<and> unmarshal_envelope (encode_session_ack a) = Inr \<lparr>env_kind = ack_kind a\<rparr>
    \<and> unmarshal_envelope (encode_peer_gone g) = Inr \<lparr>env_kind = gone_kind g\<rparr>"
  unfolding client_kinds_def server_kinds_def kind_defs
  by (simp add: envelope_of_client envelope_of_server)

end
