(* ===== verification/Interfaces.thy ===== *)
theory Interfaces
  imports Messages
begin

text \<open>
  The interfaces between the components, one locale each: the operations a client calls and
  the laws its provider promises.  The lemmas proved inside a locale are what a client may
  rely on; the theory of the providing component interprets the locale on its own
  definitions.
\<close>

section \<open>A router of sessions\<close>

text \<open>
  What the dispatcher of a peer needs of the hub.  \<open>members h sid\<close> is the observer: the
  initiator and the target of an open session.
\<close>

locale session_router =
  fixes online :: "'h \<Rightarrow> string \<Rightarrow> 'p option"
    and members :: "'h \<Rightarrow> string \<Rightarrow> (string \<times> string) option"
    and route :: "string \<Rightarrow> string \<Rightarrow> 'h \<Rightarrow> go_error + 'p"
    and opens :: "string \<Rightarrow> string \<Rightarrow> string \<Rightarrow> 'h \<Rightarrow> go_error + (string \<times> 'p \<times> 'h)"
    and closes :: "string \<Rightarrow> string \<Rightarrow> string \<Rightarrow> 'h \<Rightarrow> 'h \<times> ('p \<times> out_msg) list"
    and e_unknown e_offline e_stranger :: go_error
  assumes route_unknown: "members h sid = None \<Longrightarrow> route sid self h = Inl e_unknown"
    and route_initiator: "members h sid = Some (a, b) \<Longrightarrow>
          route sid a h = (case online h b of None \<Rightarrow> Inl e_offline | Some p \<Rightarrow> Inr p)"
    and route_target: "members h sid = Some (a, b) \<Longrightarrow> a \<noteq> b \<Longrightarrow>
          route sid b h = (case online h a of None \<Rightarrow> Inl e_offline | Some p \<Rightarrow> Inr p)"
    and route_stranger: "members h sid = Some (a, b) \<Longrightarrow> self \<noteq> a \<Longrightarrow> self \<noteq> b \<Longrightarrow>
          route sid self h = Inl e_stranger"
    and opens_offline: "online h t = None \<Longrightarrow> opens u i t h = Inl e_offline"
    and opens_online: "online h t = Some p \<Longrightarrow>
          \<exists>h'. opens u i t h = Inr (''s_'' @ u, p, h') \<and> online h' = online h \<and>
               members h' = (members h)(''s_'' @ u \<mapsto> (i, t))"
    and closes_members: "members (fst (closes sid by_id r h)) = (members h)(sid := None)"
    and closes_online: "online (fst (closes sid by_id r h)) = online h"
begin

lemma route_Inr_iff:
  "route sid self h = Inr p \<longleftrightarrow>
     (\<exists>a b. members h sid = Some (a, b) \<and>
            (self = a \<and> online h b = Some p \<or> self = b \<and> self \<noteq> a \<and> online h a = Some p))"
proof (cases "members h sid")
  case None
  then show ?thesis by (simp add: route_unknown)
next
  case (Some ab)
  obtain a b where ab: "members h sid = Some (a, b)" using Some by (cases ab) auto
  consider "self = a" | "self = b" "self \<noteq> a" | "self \<noteq> a" "self \<noteq> b" by blast
  then show ?thesis
  proof cases
    case 1
    then show ?thesis using ab route_initiator[OF ab] by (auto split: option.splits)
  next
    case 2
    then show ?thesis using ab route_target[OF ab] by (auto split: option.splits)
  next
    case 3
    then show ?thesis using ab route_stranger[OF ab] by auto
  qed
qed

text \<open>A session that was just opened routes both ways between two distinct peers.\<close>

lemma opened_routes:
  assumes "opens u i t h = Inr (sid, p, h')" and "online h i = Some q" and "i \<noteq> t"
  shows "route sid i h' = Inr p \<and> route sid t h' = Inr q \<and> online h t = Some p"
proof -
  have "online h t \<noteq> None"
    using opens_offline[of h t u i] assms(1) by auto
  then obtain p' where p': "online h t = Some p'" by auto
  with assms(1) obtain "p' = p" and "sid = ''s_'' @ u" and on: "online h' = online h"
    and mem: "members h' = (members h)(''s_'' @ u \<mapsto> (i, t))"
    using opens_online[OF p', of u i] by auto
  then have "members h' sid = Some (i, t)" by simp
  with assms(2,3) p' \<open>p' = p\<close> on show ?thesis
    by (auto simp: route_Inr_iff)
qed

text \<open>After a close the session routes nowhere, and other sessions are as before.\<close>

lemma closed_unroutable: "route sid self (fst (closes sid by_id r h)) = Inl e_unknown"
  by (simp add: route_unknown closes_members)

lemma closed_frame:
  assumes "sid' \<noteq> sid"
  shows "route sid' self (fst (closes sid by_id r h)) = Inr p \<longleftrightarrow> route sid' self h = Inr p"
  using assms by (simp add: route_Inr_iff closes_members closes_online)

text \<open>Routing is symmetric.\<close>

lemma route_symmetric:
  assumes "route sid self h = Inr p" and "online h self = Some q"
    and "online h other = Some p" and inj: "\<And>a b. online h a = Some p \<Longrightarrow> online h b = Some p \<Longrightarrow> a = b"
  shows "route sid other h = Inr q"
  using assms(1-3) inj by (auto simp: route_Inr_iff)

end

section \<open>A bounded queue that closes when it overflows\<close>

text \<open>
  What the senders and the write loop of a peer need of its send channel: \<open>push\<close> never
  blocks, and the only way it can lose a message is by closing the queue's owner.
\<close>

locale bounded_queue =
  fixes push :: "'m \<Rightarrow> 'q \<Rightarrow> 'q"
    and pop :: "'q \<Rightarrow> ('m \<times> 'q) option"
    and items :: "'q \<Rightarrow> 'm list"
    and dead :: "'q \<Rightarrow> bool"
    and cap :: nat
  assumes push_room: "length (items q) < cap \<Longrightarrow> items (push m q) = items q @ [m]"
    and push_room_dead: "length (items q) < cap \<Longrightarrow> dead (push m q) = dead q"
    and push_full: "cap \<le> length (items q) \<Longrightarrow> items (push m q) = items q"
    and push_full_dead: "cap \<le> length (items q) \<Longrightarrow> dead (push m q)"
    and pop_empty: "items q = [] \<Longrightarrow> pop q = None"
    and pop_items: "items q = m # ms \<Longrightarrow> \<exists>q'. pop q = Some (m, q') \<and> items q' = ms \<and> dead q' = dead q"
begin

text \<open>A run of pushes (\<open>Some m\<close>) and pops (\<open>None\<close>): what was popped, and the queue left.\<close>

fun run :: "'m option list \<Rightarrow> 'q \<Rightarrow> 'm list \<times> 'q" where
  "run [] q = ([], q)"
| "run (Some m # ops) q = run ops (push m q)"
| "run (None # ops) q =
     (case pop q of
        None \<Rightarrow> run ops q
      | Some (m, q') \<Rightarrow> (case run ops q' of (out, q'') \<Rightarrow> (m # out, q'')))"

definition pushed :: "'m option list \<Rightarrow> 'm list" where
  "pushed ops = List.map_filter id ops"

lemma push_cap: "length (items q) \<le> cap \<Longrightarrow> length (items (push m q)) \<le> cap"
  by (cases "length (items q) < cap") (auto simp: push_room push_full)

lemma push_dead: "dead q \<Longrightarrow> dead (push m q)"
  by (cases "length (items q) < cap") (auto simp: push_room_dead push_full_dead)

lemma run_dead: "dead q \<Longrightarrow> dead (snd (run ops q))"
proof (induction ops q rule: run.induct)
  case (3 ops q)
  then show ?case
    using pop_empty[of q] pop_items[of q] by (cases "items q") (auto split: prod.splits)
qed (auto simp: push_dead)

lemma run_cap: "length (items q) \<le> cap \<Longrightarrow> length (items (snd (run ops q))) \<le> cap"
proof (induction ops q rule: run.induct)
  case (3 ops q)
  then show ?case
    using pop_empty[of q] pop_items[of q] by (cases "items q") (auto split: prod.splits)
qed (auto simp: push_cap)

text \<open>If the owner is still alive at the end, nothing was lost and nothing was reordered.\<close>

lemma run_fifo:
  "\<not> dead (snd (run ops q)) \<Longrightarrow>
     fst (run ops q) @ items (snd (run ops q)) = items q @ pushed ops"
proof (induction ops q rule: run.induct)
  case (1 q)
  then show ?case by (simp add: pushed_def List.map_filter_def)
next
  case (2 m ops q)
  have "\<not> dead (push m q)"
    using "2.prems" run_dead[of "push m q" ops] by auto
  then have "length (items q) < cap"
    using push_full_dead[of q m] by (meson not_le)
  with 2 show ?case by (simp add: pushed_def List.map_filter_def push_room)
next
  case (3 ops q)
  then show ?case
    using pop_empty[of q] pop_items[of q]
    by (cases "items q") (auto simp: pushed_def List.map_filter_def split: prod.splits)
qed

end

section \<open>A store of accounts\<close>

text \<open>
  What the login handler needs of the user table: \<open>find_user\<close> is the observer,
  \<open>accepts\<close> decides a password against an account.
\<close>

locale account_store =
  fixes find_user :: "'s \<Rightarrow> string \<Rightarrow> 'u option"
    and add_user :: "string \<Rightarrow> string \<Rightarrow> string \<Rightarrow> 's \<Rightarrow> go_error + ('s \<times> 'u)"
    and auth :: "string \<Rightarrow> string \<Rightarrow> 's \<Rightarrow> go_error + 'u"
    and accepts :: "'u \<Rightarrow> string \<Rightarrow> bool"
    and e_invalid :: go_error
  assumes add_new: "add_user n p r s = Inr (s', u) \<Longrightarrow> find_user s n = None \<and> find_user s' = (find_user s)(n \<mapsto> u)"
    and auth_found: "find_user s n = Some u \<Longrightarrow> auth n p s = (if accepts u p then Inr u else Inl e_invalid)"
    and auth_missing: "find_user s n = None \<Longrightarrow> auth n p s = Inl e_invalid"
begin

text \<open>Adding an account changes the outcome of no other login, and never replaces an account.\<close>

lemma add_frame: "add_user n p r s = Inr (s', u) \<Longrightarrow> n' \<noteq> n \<Longrightarrow> auth n' p' s' = auth n' p' s"
  using add_new[of n p r s s' u]
  by (cases "find_user s n'") (auto simp: auth_found auth_missing)

lemma add_keeps: "add_user n p r s = Inr (s', u) \<Longrightarrow> find_user s n' = Some v \<Longrightarrow> find_user s' n' = Some v"
  using add_new[of n p r s s' u] by auto

lemma add_auth: "add_user n p r s = Inr (s', u) \<Longrightarrow> auth n p' s' = (if accepts u p' then Inr u else Inl e_invalid)"
  using add_new[of n p r s s' u] by (simp add: auth_found)

lemma auth_error: "auth n p s = Inl e \<Longrightarrow> e = e_invalid"
  by (cases "find_user s n") (auto simp: auth_found auth_missing split: if_splits)

end

section \<open>A source of packets with one exchangeable sink\<close>

text \<open>
  What the relay needs of its bridge: \<open>install\<close> sets the sink, \<open>receive\<close> takes one datagram
  and says which call it gives rise to; \<open>ok\<close> is the provider's invariant.
\<close>

locale packet_source =
  fixes install :: "'cb option \<Rightarrow> 's \<Rightarrow> 's"
    and receive :: "'d \<Rightarrow> 's \<Rightarrow> 's \<times> ('cb \<times> 'p) option"
    and sink :: "'s \<Rightarrow> 'cb option"
    and payload :: "'d \<Rightarrow> 'p"
    and ok :: "'s \<Rightarrow> bool"
  assumes sink_install: "sink (install f s) = f"
    and ok_install: "ok s \<Longrightarrow> ok (install f s)"
    and sink_receive: "ok s \<Longrightarrow> sink (fst (receive d s)) = sink s"
    and ok_receive: "ok s \<Longrightarrow> ok (fst (receive d s))"
    and out_receive: "ok s \<Longrightarrow> snd (receive d s) = map_option (\<lambda>cb. (cb, payload d)) (sink s)"
begin

text \<open>Datagrams (\<open>Inl\<close>) and changes of the sink (\<open>Inr\<close>), in the order they take effect.\<close>

fun feed :: "('d + 'cb option) list \<Rightarrow> 's \<Rightarrow> 's \<times> ('cb \<times> 'p) list" where
  "feed [] s = (s, [])"
| "feed (Inr f # es) s = feed es (install f s)"
| "feed (Inl d # es) s =
     (case receive d s of (s', out) \<Rightarrow>
        case feed es s' of (s'', outs) \<Rightarrow> (s'', (case out of None \<Rightarrow> outs | Some c \<Rightarrow> c # outs)))"

text \<open>What should come out: every datagram goes to the sink last installed before it.\<close>

fun expected :: "'cb option \<Rightarrow> ('d + 'cb option) list \<Rightarrow> ('cb \<times> 'p) list" where
  "expected cur [] = []"
| "expected cur (Inr f # es) = expected f es"
| "expected cur (Inl d # es) =
     (case cur of None \<Rightarrow> expected cur es | Some cb \<Rightarrow> (cb, payload d) # expected cur es)"

lemma feed_expected: "ok s \<Longrightarrow> snd (feed es s) = expected (sink s) es"
proof (induction es s rule: feed.induct)
  case (3 d es s)
  obtain s' out where r: "receive d s = (s', out)" by (cases "receive d s")
  with "3.prems" have "ok s'" "sink s' = sink s" "out = map_option (\<lambda>cb. (cb, payload d)) (sink s)"
    using ok_receive[of s d] sink_receive[of s d] out_receive[of s d] by auto
  with "3.IH"[OF r[symmetric]] r show ?case
    by (cases "feed es s'") (auto split: option.splits)
qed (auto simp: sink_install ok_install)

lemma expected_append_install:
  "expected cur (es @ Inr f # fs) = expected cur es @ expected f fs"
  by (induction cur es rule: expected.induct) (auto split: option.splits)

lemma expected_attached: "expected (Some cb) (map Inl ds) = map (\<lambda>d. (cb, payload d)) ds"
  by (induction ds) auto

lemma expected_detached: "expected None (map Inl ds) = []"
  by (induction ds) auto

text \<open>Detached means silent, attached means complete and in order, whatever went before.\<close>

lemma detach_silences: "ok s \<Longrightarrow> snd (feed (es @ Inr None # map Inl ds) s) = snd (feed es s)"
  by (simp add: feed_expected expected_append_install expected_detached)

lemma attach_delivers:
  "ok s \<Longrightarrow> snd (feed (es @ Inr (Some cb) # map Inl ds) s) = snd (feed es s) @ map (\<lambda>d. (cb, payload d)) ds"
  by (simp add: feed_expected expected_append_install expected_attached)

end

end
