(* ===== verification/Auth.thy ===== *)
theory Auth
  imports Token Interfaces
begin

text \<open>
  \<open>internal/auth\<close>: the in-memory user table and the login and identity handlers of
  \<open>cmd/auth\<close>.  bcrypt is a parameter: generating a hash takes the salt it would draw as an
  argument and may fail, comparing is a predicate.  The table's lock makes each access one
  step.
\<close>

section \<open>The user table\<close>

record user =
  u_id :: string
  u_username :: string
  u_password_hash :: string
  u_role :: string

type_synonym memory_store = "string \<rightharpoonup> user"

record bcrypt_lib =
  bc_generate :: "string \<Rightarrow> string \<Rightarrow> go_error + string"
  bc_compare :: "string \<Rightarrow> string \<Rightarrow> bool"

text \<open>The documented link between the two: a generated hash accepts the password it is of.\<close>

definition bcrypt_contract :: "bcrypt_lib \<Rightarrow> bool" where
  "bcrypt_contract bc \<longleftrightarrow> (\<forall>salt pw h. bc_generate bc salt pw = Inr h \<longrightarrow> bc_compare bc h pw)"

definition NewMemoryStore :: memory_store where
  "NewMemoryStore = Map.empty"

definition ErrInvalidCredentials :: go_error where
  "ErrInvalidCredentials = NewError ''invalid credentials''"

definition add_user ::
    "bcrypt_lib \<Rightarrow> string \<Rightarrow> string \<Rightarrow> string \<Rightarrow> string \<Rightarrow> memory_store \<Rightarrow> go_error + memory_store \<times> user" where
  "add_user bc salt username password role users =
     (case bc_generate bc salt password of
        Inl e \<Rightarrow> Inl e
      | Inr h \<Rightarrow>
          let u = \<lparr>u_id = username, u_username = username, u_password_hash = h, u_role = role\<rparr>
          in (case users username of
                Some _ \<Rightarrow> Inl (NewError ''user exists'')
              | None \<Rightarrow> Inr (users(username \<mapsto> u), u)))"

definition authenticate :: "bcrypt_lib \<Rightarrow> string \<Rightarrow> string \<Rightarrow> memory_store \<Rightarrow> go_error + user" where
  "authenticate bc username password users =
     (case users username of
        None \<Rightarrow> Inl ErrInvalidCredentials
      | Some u \<Rightarrow> if bc_compare bc (u_password_hash u) password then Inr u else Inl ErrInvalidCredentials)"

text \<open>\<open>SeedDev\<close>: the table after it, and its error; the first account stays if the second fails.\<close>

definition SeedDev :: "bcrypt_lib \<Rightarrow> string \<Rightarrow> string \<Rightarrow> memory_store \<Rightarrow> memory_store \<times> go_error option" where
  "SeedDev bc salt1 salt2 users =
     (case add_user bc salt1 ''pilot1'' ''pilot1-dev'' RoleUser users of
        Inl e \<Rightarrow> (users, Some e)
      | Inr (users1, _) \<Rightarrow>
          (case add_user bc salt2 ''drone-42'' ''drone-42-dev'' RoleDrone users1 of
             Inl e \<Rightarrow> (users1, Some e)
           | Inr (users2, _) \<Rightarrow> (users2, None)))"

interpretation mem_store: account_store "\<lambda>s. s" "add_user bc salt" "authenticate bc"
  "\<lambda>u. bc_compare bc (u_password_hash u)" ErrInvalidCredentials for bc salt
  by unfold_locales
    (auto simp: add_user_def authenticate_def Let_def split: sum.splits option.splits if_splits)

text \<open>Every account is filed under its username, which is also its id.\<close>

definition store_inv :: "memory_store \<Rightarrow> bool" where
  "store_inv users \<longleftrightarrow> (\<forall>n u. users n = Some u \<longrightarrow> u_username u = n \<and> u_id u = n)"

lemma store_inv_add: "store_inv users \<Longrightarrow> add_user bc salt n p r users = Inr (users', u) \<Longrightarrow> store_inv users'"
  by (auto simp: store_inv_def add_user_def Let_def split: sum.splits option.splits if_splits)

lemma add_user_Inr:
  "add_user bc salt n p r users = Inr (users', u) \<Longrightarrow>
     u_id u = n \<and> u_role u = r \<and> bc_generate bc salt p = Inr (u_password_hash u)"
  by (auto simp: add_user_def Let_def split: sum.splits option.splits)

section \<open>The handlers\<close>

text \<open>A handler holds the user table and the mint; its methods are given the two.\<close>

record http_handler =
  hh_store :: memory_store
  hh_issuer :: mint

definition NewHTTPHandler :: "memory_store \<Rightarrow> mint \<Rightarrow> http_handler" where
  "NewHTTPHandler store issuer = \<lparr>hh_store = store, hh_issuer = issuer\<rparr>"

text \<open>The package's own \<open>writeErr\<close>.\<close>

definition auth_writeErr :: "nat \<Rightarrow> string \<Rightarrow> string \<Rightarrow> http_outcome" where
  "auth_writeErr status code msg =
     Response status ''application/json'' (JObj [(''code'', JStr code), (''message'', JStr msg)])"

lemma auth_writeErr_eq [simp]: "auth_writeErr = writeErr"
  by (simp add: fun_eq_iff auth_writeErr_def writeErr_def)

record login_request =
  lr_username :: string
  lr_password :: string

definition login_request_fields :: "(string \<times> login_request setter) list" where
  "login_request_fields =
     [(''username'', set_string (\<lambda>s r. r\<lparr>lr_username := s\<rparr>)),
      (''password'', set_string (\<lambda>s r. r\<lparr>lr_password := s\<rparr>))]"

definition decode_login_request :: "json \<Rightarrow> go_error option \<times> login_request" where
  "decode_login_request v =
     decode_struct ''auth'' ''loginRequest'' login_request_fields v \<lparr>lr_username = '''', lr_password = ''''\<rparr>"

record login_response =
  lo_access_token :: string
  lo_expires_at :: int
  lo_subject :: string
  lo_role :: string

definition encode_login_response :: "login_response \<Rightarrow> json" where
  "encode_login_response r =
     JObj [(''access_token'', JStr (lo_access_token r)), (''expires_at'', JNum (dec_int (lo_expires_at r))),
           (''sub'', JStr (lo_subject r)), (''role'', JStr (lo_role r))]"

definition unix_seconds :: "int \<Rightarrow> int" where
  "unix_seconds t = t div second"

definition Login ::
    "bcrypt_lib \<Rightarrow> jwt_lib \<Rightarrow> mint \<Rightarrow> int \<Rightarrow> memory_store \<Rightarrow> 'c http_request \<Rightarrow> http_outcome" where
  "Login bc lib issuer now users r =
     (case req_body r of
        Inl e \<Rightarrow> auth_writeErr StatusBadRequest ''bad_request'' (error_text e)
      | Inr body \<Rightarrow>
          (case checked (decode_login_request body) of
             Inl e \<Rightarrow> auth_writeErr StatusBadRequest ''bad_request'' (error_text e)
           | Inr req \<Rightarrow>
               (case authenticate bc (lr_username req) (lr_password req) users of
                  Inl e \<Rightarrow> auth_writeErr StatusUnauthorized ''invalid_credentials'' ''username or password incorrect''
                | Inr u \<Rightarrow>
                    (case issue lib issuer now (u_id u) (u_role u) of
                       Inl e \<Rightarrow> auth_writeErr StatusInternalServerError ''issue_failed'' (error_text e)
                     | Inr (tok, exp) \<Rightarrow>
                         Response StatusOK ''application/json''
                           (encode_login_response
                              \<lparr>lo_access_token = tok, lo_expires_at = unix_seconds exp,
                               lo_subject = u_id u, lo_role = u_role u\<rparr>)))))"

text \<open>The keys of a Go map are encoded in sorted order: \<open>exp\<close>, \<open>role\<close>, \<open>sub\<close>.\<close>

definition Me :: "claims http_request \<Rightarrow> http_outcome" where
  "Me r =
     (case ClaimsFrom r of
        None \<Rightarrow> auth_writeErr StatusUnauthorized ''no_claims'' ''no claims in context''
      | Some c \<Rightarrow>
          (case cl_expires_at c of
             None \<Rightarrow> NilPanic
           | Some e \<Rightarrow>
               Response StatusOK ''application/json''
                 (JObj [(''exp'', JNum (dec_int e)), (''role'', JStr (cl_role c)), (''sub'', JStr (cl_subject c))])))"

section \<open>Facts about the handlers\<close>

definition login_body :: "string \<Rightarrow> string \<Rightarrow> json" where
  "login_body n p = JObj [(''password'', JStr p), (''username'', JStr n)]"

lemma decode_login_body [simp]:
  "decode_login_request (login_body n p) = (None, \<lparr>lr_username = n, lr_password = p\<rparr>)"
  by (simp add: decode_login_request_def login_request_fields_def login_body_def find_field_skip)

lemma Login_body:
  "req_body r = Inr (login_body n p) \<Longrightarrow>
     Login bc lib m now users r =
       (case authenticate bc n p users of
          Inl e \<Rightarrow> writeErr 401 ''invalid_credentials'' ''username or password incorrect''
        | Inr u \<Rightarrow>
            (case issue lib m now (u_id u) (u_role u) of
               Inl e \<Rightarrow> writeErr 500 ''issue_failed'' (error_text e)
             | Inr (tok, exp) \<Rightarrow>
                 Response 200 ''application/json''
                   (encode_login_response
                      \<lparr>lo_access_token = tok, lo_expires_at = unix_seconds exp,
                       lo_subject = u_id u, lo_role = u_role u\<rparr>)))"
  by (simp add: Login_def status_defs split: sum.splits)

section \<open>Properties\<close>

text \<open>A hash is the salt's length in unary, a mark, and the password.\<close>

definition demo_bcrypt :: bcrypt_lib where
  "demo_bcrypt =
     \<lparr>bc_generate = (\<lambda>salt pw. if length pw \<le> 72 then Inr (map (\<lambda>_. CHR ''s'') salt @ CHR ''$'' # pw)
                             else Inl (LibError ''bcrypt: password length exceeds 72 bytes'')),
      bc_compare = (\<lambda>h pw. tl (dropWhile (\<lambda>c. c = CHR ''s'') h) = pw)\<rparr>"

lemma demo_bcrypt_contract: "bcrypt_contract demo_bcrypt"
  by (auto simp: bcrypt_contract_def demo_bcrypt_def dropWhile_append split: if_splits)

definition demo_user :: user where
  "demo_user = \<lparr>u_id = ''pilot1'', u_username = ''pilot1'', u_password_hash = ''s$pilot1-dev'', u_role = RoleUser\<rparr>"

lemma demo_add: "add_user demo_bcrypt ''s'' ''pilot1'' ''pilot1-dev'' RoleUser Map.empty
    = Inr ([''pilot1'' \<mapsto> demo_user], demo_user)"
  by (simp add: add_user_def demo_bcrypt_def demo_user_def Let_def)

text \<open>
  An account that was added can log in with its password: the answer is 200 with a token,
  its expiry in Unix seconds, and the account's name and role, and the verifier with the same
  secret takes that token for this name and role until that very second.
\<close>

theorem added_account_logs_in:
  assumes "jwt_contract lib" and "bcrypt_contract bc"
    and "add_user bc salt n p role users = Inr (users', u)"
    and "issue lib m now n role = Inr (tok, exp)"
    and "req_body r = Inr (login_body n p)"
  shows "Login bc lib m now users' r =
      Response 200 ''application/json''
        (encode_login_response \<lparr>lo_access_token = tok, lo_expires_at = unix_seconds exp, lo_subject = n, lo_role = role\<rparr>)
    \<and> (\<forall>later. verify lib (m_secret m) later tok = Inr (issued_claims lib m now n role)
                \<longleftrightarrow> later < unix_seconds exp * second)
    \<and> cl_subject (issued_claims lib m now n role) = n \<and> cl_role (issued_claims lib m now n role) = role"
proof -
  have u: "u_id u = n" "u_role u = role" "bc_compare bc (u_password_hash u) p"
    using add_user_Inr[OF assms(3)] assms(2) by (auto simp: bcrypt_contract_def)
  have "authenticate bc n p users' = Inr u"
    using mem_store.add_auth[OF assms(3)] u(3) by simp
  moreover have "verify lib (m_secret m) later tok = Inr (issued_claims lib m now n role)
      \<longleftrightarrow> later < unix_seconds exp * second" for later
    using verify_issued[OF assms(1,4)] by (simp add: unix_seconds_def)
  ultimately show ?thesis
    using u assms(4) by (simp add: Login_body[OF assms(5)] issued_claims_def)
qed

definition demo_login :: "claims http_request" where
  "demo_login = \<lparr>req_authorization = '''', req_claims = None, req_body = Inr (login_body ''pilot1'' ''pilot1-dev'')\<rparr>"

theorem added_account_logs_in_witness:
  "Login demo_bcrypt demo_jwt demo_mint (100 * second) [''pilot1'' \<mapsto> demo_user] demo_login
     = Response 200 ''application/json''
         (encode_login_response \<lparr>lo_access_token = ''tok'', lo_expires_at = 3700, lo_subject = ''pilot1'', lo_role = RoleUser\<rparr>)"
  using added_account_logs_in[OF demo_jwt_contract demo_bcrypt_contract demo_add demo_issue, of demo_login]
  by (simp add: demo_login_def unix_seconds_def second_def)



text \<open>
  Adding an account never replaces one: it succeeds only for a free name, keeps the
  table's invariant and every account there, and no login under another name changes.
\<close>

theorem add_user_keeps_accounts:
  assumes "store_inv users" and "add_user bc salt n p role users = Inr (users', u)"
  shows "users n = None \<and> store_inv users' \<and> users \<subseteq>\<^sub>m users' \<and> users' n = Some u
    \<and> (\<forall>n' p'. n' \<noteq> n \<longrightarrow> authenticate bc n' p' users' = authenticate bc n' p' users)"
  using mem_store.add_new[OF assms(2)] store_inv_add[OF assms] mem_store.add_frame[OF assms(2)]
  by (auto simp: map_le_def)

theorem add_user_keeps_accounts_witness:
  "store_inv Map.empty \<and> store_inv [''pilot1'' \<mapsto> demo_user]"
proof -
  have e: "store_inv Map.empty" by (simp add: store_inv_def)
  show ?thesis using e add_user_keeps_accounts[OF e demo_add] by simp
qed



end
