(* ===== verification/Hub.thy ===== *)
theory Hub
  imports Interfaces
begin

text \<open>
  \<open>internal/signal/hub.go\<close>: the registry of connected peers and the table of sessions.
  Each operation here is the region its Go method runs under \<open>h.mu\<close>, so it is one atomic
  step; the \<open>Send\<close> calls made after the lock is released are returned as a list of
  (peer, message) pairs, in order.  A \<open>*Peer\<close> is a value of the type variable
  \<open>'p\<close>.  Go's iteration order over \<open>h.sessions\<close> is unspecified, so
  \<open>Unregister\<close> takes it as an argument; the identifier \<open>uuid.NewString()\<close>
  returns is an argument of \<open>OpenSession\<close>.
\<close>

section \<open>State\<close>

type_synonym peer_id = string
type_synonym session_id = string

record session =
  s_id :: session_id
  s_initiator :: peer_id
  s_target :: peer_id

record 'p hub =
  hub_ice :: "ice_server list option"
  hub_peers :: "peer_id \<rightharpoonup> 'p"
  hub_sessions :: "session_id \<rightharpoonup> session"

definition ErrPeerAlreadyConnected :: go_error where
  "ErrPeerAlreadyConnected = NewError ''peer already connected''"

definition ErrTargetUnknown :: go_error where
  "ErrTargetUnknown = NewError ''target peer not connected''"

definition ErrSessionUnknown :: go_error where
  "ErrSessionUnknown = NewError ''session not found''"

definition ErrNotMember :: go_error where
  "ErrNotMember = NewError ''peer not in session''"

lemmas hub_error_defs = ErrPeerAlreadyConnected_def ErrTargetUnknown_def ErrSessionUnknown_def ErrNotMember_def

section \<open>Operations\<close>

definition new_hub :: "ice_server list option \<Rightarrow> 'p hub" where
  "new_hub ice =
     (let ice' = (case ice of None \<Rightarrow> Some [] | Some xs \<Rightarrow> Some xs)
      in \<lparr>hub_ice = ice', hub_peers = Map.empty, hub_sessions = Map.empty\<rparr>)"

definition IceServers :: "'p hub \<Rightarrow> ice_server list option" where
  "IceServers h = hub_ice h"

text \<open>\<open>register pid p\<close>: \<open>pid\<close> is \<open>p.ID\<close>.\<close>

definition register :: "peer_id \<Rightarrow> 'p \<Rightarrow> 'p hub \<Rightarrow> go_error + 'p hub" where
  "register pid p h =
     (case hub_peers h pid of
        Some _ \<Rightarrow> Inl ErrPeerAlreadyConnected
      | None \<Rightarrow> Inr (h\<lparr>hub_peers := (hub_peers h)(pid \<mapsto> p)\<rparr>))"

text \<open>The loop over \<open>h.sessions\<close>, which deletes entries and collects notices as it goes.\<close>

fun unregister_loop ::
    "peer_id \<Rightarrow> (peer_id \<rightharpoonup> 'p) \<Rightarrow> session_id list \<Rightarrow> (session_id \<rightharpoonup> session) \<Rightarrow>
     ('p \<times> session_id) list \<Rightarrow> (session_id \<rightharpoonup> session) \<times> ('p \<times> session_id) list" where
  "unregister_loop pid ps [] ss notify = (ss, notify)"
| "unregister_loop pid ps (sid # sids) ss notify =
     (case ss sid of
        None \<Rightarrow> unregister_loop pid ps sids ss notify
      | Some s \<Rightarrow>
          if s_initiator s \<noteq> pid \<and> s_target s \<noteq> pid
          then unregister_loop pid ps sids ss notify
          else
            (let other = (if s_initiator s = pid then s_target s else s_initiator s);
                 notify' = (case ps other of Some p \<Rightarrow> notify @ [(p, sid)] | None \<Rightarrow> notify)
             in unregister_loop pid ps sids (ss(sid := None)) notify'))"

definition unregister_locked ::
    "session_id list \<Rightarrow> peer_id \<Rightarrow> 'p hub \<Rightarrow> 'p hub \<times> ('p \<times> session_id) list" where
  "unregister_locked order pid h =
     (let ps = (hub_peers h)(pid := None)
      in case unregister_loop pid ps order (hub_sessions h) [] of
           (ss, notify) \<Rightarrow> (h\<lparr>hub_peers := ps, hub_sessions := ss\<rparr>, notify))"

definition gone_msg :: "session_id \<Rightarrow> string \<Rightarrow> out_msg" where
  "gone_msg sid reason =
     PeerGone \<lparr>gone_kind = KindPeerGone, gone_session = sid, gone_reason = reason\<rparr>"

definition unregister ::
    "session_id list \<Rightarrow> peer_id \<Rightarrow> 'p hub \<Rightarrow> 'p hub \<times> ('p \<times> out_msg) list" where
  "unregister order pid h =
     (case unregister_locked order pid h of
        (h', notify) \<Rightarrow> (h', map (\<lambda>(p, sid). (p, gone_msg sid ''peer_disconnected'')) notify))"

definition open_session ::
    "string \<Rightarrow> peer_id \<Rightarrow> peer_id \<Rightarrow> 'p hub \<Rightarrow> go_error + (session_id \<times> 'p \<times> 'p hub)" where
  "open_session uuid initiator target h =
     (case hub_peers h target of
        None \<Rightarrow> Inl ErrTargetUnknown
      | Some targetPeer \<Rightarrow>
          let sid = ''s_'' @ uuid;
              s = \<lparr>s_id = sid, s_initiator = initiator, s_target = target\<rparr>
          in Inr (sid, targetPeer, h\<lparr>hub_sessions := (hub_sessions h)(sid \<mapsto> s)\<rparr>))"

definition other_peer :: "session_id \<Rightarrow> peer_id \<Rightarrow> 'p hub \<Rightarrow> go_error + 'p" where
  "other_peer sid self h =
     (case hub_sessions h sid of
        None \<Rightarrow> Inl ErrSessionUnknown
      | Some s \<Rightarrow>
          let look = (\<lambda>other. case hub_peers h other of None \<Rightarrow> Inl ErrTargetUnknown | Some p \<Rightarrow> Inr p)
          in if self = s_initiator s then look (s_target s)
             else if self = s_target s then look (s_initiator s)
             else Inl ErrNotMember)"

definition close_session ::
    "session_id \<Rightarrow> peer_id \<Rightarrow> string \<Rightarrow> 'p hub \<Rightarrow> 'p hub \<times> ('p \<times> out_msg) list" where
  "close_session sid by_id reason h =
     (case hub_sessions h sid of
        None \<Rightarrow> (h, [])
      | Some s \<Rightarrow>
          let h' = h\<lparr>hub_sessions := (hub_sessions h)(sid := None)\<rparr>;
              tell = (\<lambda>other. case hub_peers h other of
                                None \<Rightarrow> []
                              | Some p \<Rightarrow> [(p, gone_msg sid reason)])
          in if by_id = s_initiator s then (h', tell (s_target s))
             else if by_id = s_target s then (h', tell (s_initiator s))
             else (h', []))"

declare register_def [hub_defs] unregister_locked_def [hub_defs] unregister_def [hub_defs]
  open_session_def [hub_defs] other_peer_def [hub_defs] close_session_def [hub_defs]

section \<open>What the loop of Unregister computes\<close>

definition touches :: "peer_id \<Rightarrow> session \<Rightarrow> bool" where
  "touches pid s \<longleftrightarrow> s_initiator s = pid \<or> s_target s = pid"

definition counterpart :: "peer_id \<Rightarrow> session \<Rightarrow> peer_id" where
  "counterpart pid s = (if s_initiator s = pid then s_target s else s_initiator s)"

definition drop_sessions :: "peer_id \<Rightarrow> (session_id \<rightharpoonup> session) \<Rightarrow> (session_id \<rightharpoonup> session)" where
  "drop_sessions pid ss sid = (case ss sid of Some s \<Rightarrow> if touches pid s then None else Some s | None \<Rightarrow> None)"

definition notice_for ::
    "peer_id \<Rightarrow> (peer_id \<rightharpoonup> 'p) \<Rightarrow> (session_id \<rightharpoonup> session) \<Rightarrow> session_id \<Rightarrow> ('p \<times> session_id) option" where
  "notice_for pid ps ss sid =
     (case ss sid of
        Some s \<Rightarrow> if touches pid s then map_option (\<lambda>p. (p, sid)) (ps (counterpart pid s)) else None
      | None \<Rightarrow> None)"

definition enumerates :: "session_id list \<Rightarrow> (session_id \<rightharpoonup> session) \<Rightarrow> bool" where
  "enumerates order ss \<longleftrightarrow> distinct order \<and> set order = dom ss"

text \<open>One round of the loop, whatever branch it takes.\<close>

lemma unregister_loop_Cons:
  "unregister_loop pid ps (sid # sids) ss notify =
     unregister_loop pid ps sids (ss(sid := drop_sessions pid ss sid))
       (notify @ (case notice_for pid ps ss sid of None \<Rightarrow> [] | Some x \<Rightarrow> [x]))"
proof (cases "ss sid")
  case None
  then have "ss(sid := None) = ss" by (simp add: fun_upd_idem)
  with None show ?thesis by (simp add: drop_sessions_def notice_for_def)
next
  case (Some s)
  show ?thesis
  proof (cases "touches pid s")
    case True
    with Some show ?thesis
      by (cases "ps (counterpart pid s)")
        (auto simp: drop_sessions_def notice_for_def touches_def counterpart_def Let_def)
  next
    case False
    from Some have "ss(sid \<mapsto> s) = ss" by (simp add: fun_upd_idem)
    with False Some show ?thesis
      by (simp add: drop_sessions_def notice_for_def touches_def)
  qed
qed

lemma drop_sessions_upd [simp]:
  "drop_sessions pid (ss(k := drop_sessions pid ss k)) sid = drop_sessions pid ss sid"
  by (simp add: drop_sessions_def split: option.splits)

lemma unregister_loop_sessions:
  "fst (unregister_loop pid ps order ss notify)
     = (\<lambda>sid. if sid \<in> set order then drop_sessions pid ss sid else ss sid)"
proof (induction order arbitrary: ss notify)
  case Nil
  show ?case by simp
next
  case (Cons k order)
  show ?case
    unfolding unregister_loop_Cons Cons.IH by (simp add: fun_eq_iff)
qed

lemma notice_for_upd: "sid \<noteq> k \<Longrightarrow> notice_for pid ps (ss(k := x)) sid = notice_for pid ps ss sid"
  by (simp add: notice_for_def)

lemma unregister_loop_notices:
  "distinct order \<Longrightarrow>
     snd (unregister_loop pid ps order ss notify) = notify @ List.map_filter (notice_for pid ps ss) order"
proof (induction order arbitrary: ss notify)
  case Nil
  show ?case by (simp add: List.map_filter_def)
next
  case (Cons k order)
  from Cons.prems have "List.map_filter (notice_for pid ps (ss(k := drop_sessions pid ss k))) order
      = List.map_filter (notice_for pid ps ss) order"
    by (intro map_filter_cong notice_for_upd) auto
  with Cons show ?case
    unfolding unregister_loop_Cons by (simp add: List.map_filter_def split: option.splits)
qed

lemma unregister_locked_eq:
  assumes "enumerates order (hub_sessions h)"
  shows "unregister_locked order pid h =
    (h\<lparr>hub_peers := (hub_peers h)(pid := None), hub_sessions := drop_sessions pid (hub_sessions h)\<rparr>,
     List.map_filter (notice_for pid ((hub_peers h)(pid := None)) (hub_sessions h)) order)"
proof -
  let ?r = "unregister_loop pid ((hub_peers h)(pid := None)) order (hub_sessions h) []"
  have "fst ?r = drop_sessions pid (hub_sessions h)"
    using assms by (auto simp: unregister_loop_sessions enumerates_def drop_sessions_def fun_eq_iff
        split: option.splits)
  moreover have "snd ?r = List.map_filter (notice_for pid ((hub_peers h)(pid := None)) (hub_sessions h)) order"
    using assms by (simp add: unregister_loop_notices enumerates_def)
  ultimately show ?thesis
    by (cases ?r) (simp add: unregister_locked_def Let_def)
qed

section \<open>The hub as a session router\<close>

definition hub_members :: "'p hub \<Rightarrow> session_id \<Rightarrow> (peer_id \<times> peer_id) option" where
  "hub_members h sid = map_option (\<lambda>s. (s_initiator s, s_target s)) (hub_sessions h sid)"

lemma hub_members_upd [simp]:
  "hub_members (h\<lparr>hub_sessions := (hub_sessions h)(sid \<mapsto> s)\<rparr>)
     = (hub_members h)(sid \<mapsto> (s_initiator s, s_target s))"
  "hub_members (h\<lparr>hub_sessions := (hub_sessions h)(sid := None)\<rparr>) = (hub_members h)(sid := None)"
  by (auto simp: hub_members_def fun_eq_iff)

lemma close_session_hub:
  "fst (close_session sid by_id r h) = h\<lparr>hub_sessions := (hub_sessions h)(sid := None)\<rparr>"
proof (cases "hub_sessions h sid")
  case None
  then have "(hub_sessions h)(sid := None) = hub_sessions h" by (simp add: fun_upd_idem)
  with None show ?thesis by (simp add: close_session_def)
next
  case (Some s)
  then show ?thesis by (simp add: close_session_def Let_def)
qed

interpretation hub_router: session_router hub_peers hub_members other_peer open_session close_session
  ErrSessionUnknown ErrTargetUnknown ErrNotMember
proof unfold_locales
  fix h :: "'p hub" and sid self a b t u i r by_id :: string and p :: 'p
  show "hub_members h sid = None \<Longrightarrow> other_peer sid self h = Inl ErrSessionUnknown"
    by (simp add: hub_members_def other_peer_def)
  show "hub_members h sid = Some (a, b) \<Longrightarrow>
      other_peer sid a h = (case hub_peers h b of None \<Rightarrow> Inl ErrTargetUnknown | Some p \<Rightarrow> Inr p)"
    by (auto simp: hub_members_def other_peer_def)
  show "hub_members h sid = Some (a, b) \<Longrightarrow> a \<noteq> b \<Longrightarrow>
      other_peer sid b h = (case hub_peers h a of None \<Rightarrow> Inl ErrTargetUnknown | Some p \<Rightarrow> Inr p)"
    by (auto simp: hub_members_def other_peer_def)
  show "hub_members h sid = Some (a, b) \<Longrightarrow> self \<noteq> a \<Longrightarrow> self \<noteq> b \<Longrightarrow>
      other_peer sid self h = Inl ErrNotMember"
    by (auto simp: hub_members_def other_peer_def)
  show "hub_peers h t = None \<Longrightarrow> open_session u i t h = Inl ErrTargetUnknown"
    by (simp add: open_session_def)
  show "hub_peers h t = Some p \<Longrightarrow>
      \<exists>h'. open_session u i t h = Inr (''s_'' @ u, p, h') \<and> hub_peers h' = hub_peers h \<and>
           hub_members h' = (hub_members h)(''s_'' @ u \<mapsto> (i, t))"
    by (simp add: open_session_def Let_def)
  show "hub_members (fst (close_session sid by_id r h)) = (hub_members h)(sid := None)"
    by (simp add: close_session_hub)
  show "hub_peers (fst (close_session sid by_id r h)) = hub_peers h"
    by (simp add: close_session_hub)
qed

section \<open>The invariant of the hub\<close>

text \<open>Sessions are filed under their own id, and both ends of every session are connected.\<close>

definition hub_inv :: "'p hub \<Rightarrow> bool" where
  "hub_inv h \<longleftrightarrow>
     finite (dom (hub_sessions h)) \<and>
     (\<forall>sid s. hub_sessions h sid = Some s \<longrightarrow>
        s_id s = sid \<and> hub_peers h (s_initiator s) \<noteq> None \<and> hub_peers h (s_target s) \<noteq> None)"

lemma hub_inv_new: "hub_inv (new_hub ice)"
  by (simp add: hub_inv_def new_hub_def Let_def)

lemma hub_inv_register: "hub_inv h \<Longrightarrow> register pid p h = Inr h' \<Longrightarrow> hub_inv h'"
  by (auto simp: hub_inv_def register_def split: option.splits)

lemma hub_inv_open:
  "hub_inv h \<Longrightarrow> hub_peers h i \<noteq> None \<Longrightarrow> open_session u i t h = Inr (sid, p, h') \<Longrightarrow> hub_inv h'"
  by (auto simp: hub_inv_def open_session_def Let_def split: option.splits if_splits)

lemma hub_inv_close: "hub_inv h \<Longrightarrow> hub_inv (fst (close_session sid by_id r h))"
  by (auto simp: hub_inv_def close_session_hub split: if_splits)

lemma drop_sessions_Some [simp]:
  "drop_sessions pid ss sid = Some s \<longleftrightarrow> ss sid = Some s \<and> \<not> touches pid s"
  by (auto simp: drop_sessions_def split: option.splits)

lemma dom_drop_sessions: "dom (drop_sessions pid ss) \<subseteq> dom ss"
  by (auto simp: drop_sessions_def split: option.splits if_splits)

lemma hub_inv_unregister:
  assumes "hub_inv h" and "enumerates order (hub_sessions h)"
  shows "hub_inv (fst (unregister order pid h))"
  using assms(1) finite_subset[OF dom_drop_sessions]
  by (auto simp: hub_inv_def unregister_def unregister_locked_eq[OF assms(2)] touches_def domIff)

section \<open>The abstract rendezvous and the refinement\<close>

text \<open>
  What the hub promises, without pointers, queues or maps: who is online, and which sessions
  link whom.
\<close>

record rendezvous =
  rv_online :: "peer_id set"
  rv_links :: "(session_id \<times> peer_id \<times> peer_id) set"

definition rv_join :: "peer_id \<Rightarrow> rendezvous \<Rightarrow> rendezvous option" where
  "rv_join pid r = (if pid \<in> rv_online r then None else Some (r\<lparr>rv_online := insert pid (rv_online r)\<rparr>))"

definition rv_leave :: "peer_id \<Rightarrow> rendezvous \<Rightarrow> rendezvous" where
  "rv_leave pid r =
     \<lparr>rv_online = rv_online r - {pid}, rv_links = {(sid, a, b) \<in> rv_links r. a \<noteq> pid \<and> b \<noteq> pid}\<rparr>"

definition rv_link :: "session_id \<Rightarrow> peer_id \<Rightarrow> peer_id \<Rightarrow> rendezvous \<Rightarrow> rendezvous option" where
  "rv_link sid a b r =
     (if b \<in> rv_online r
      then Some (r\<lparr>rv_links := insert (sid, a, b) {l \<in> rv_links r. fst l \<noteq> sid}\<rparr>)
      else None)"

definition rv_unlink :: "session_id \<Rightarrow> rendezvous \<Rightarrow> rendezvous" where
  "rv_unlink sid r = r\<lparr>rv_links := {l \<in> rv_links r. fst l \<noteq> sid}\<rparr>"

definition abs_hub :: "'p hub \<Rightarrow> rendezvous" where
  "abs_hub h =
     \<lparr>rv_online = dom (hub_peers h),
      rv_links = {(sid, a, b). hub_members h sid = Some (a, b)}\<rparr>"

text \<open>The abstract result of an operation that may fail.\<close>

definition abs_result :: "go_error + 'p hub \<Rightarrow> rendezvous option" where
  "abs_result x = (case x of Inl _ \<Rightarrow> None | Inr h \<Rightarrow> Some (abs_hub h))"

lemma abs_register: "abs_result (register pid p h) = rv_join pid (abs_hub h)"
  by (auto simp: abs_result_def register_def abs_hub_def rv_join_def hub_members_def split: option.splits)

lemma abs_hub_insert:
  "abs_hub (h\<lparr>hub_sessions := (hub_sessions h)(sid \<mapsto> s)\<rparr>)
     = (abs_hub h)\<lparr>rv_links := insert (sid, s_initiator s, s_target s) {l \<in> rv_links (abs_hub h). fst l \<noteq> sid}\<rparr>"
  by (auto simp: abs_hub_def split: if_splits)

lemma abs_open:
  "abs_result (map_sum id (\<lambda>(sid, p, h'). h') (open_session u i t h)) = rv_link (''s_'' @ u) i t (abs_hub h)"
proof (cases "hub_peers h t")
  case None
  then show ?thesis by (simp add: open_session_def abs_result_def rv_link_def abs_hub_def domIff)
next
  case (Some p)
  then have "t \<in> rv_online (abs_hub h)" by (simp add: abs_hub_def domIff)
  with Some show ?thesis
    by (simp add: open_session_def abs_result_def rv_link_def Let_def abs_hub_insert del: append.simps)
qed

lemma hub_members_unregister:
  assumes "enumerates order (hub_sessions h)"
  shows "hub_members (fst (unregister order pid h)) sid = Some (a, b) \<longleftrightarrow>
           hub_members h sid = Some (a, b) \<and> a \<noteq> pid \<and> b \<noteq> pid"
  by (auto simp: hub_members_def unregister_def unregister_locked_eq[OF assms] touches_def)

lemma hub_peers_unregister:
  "hub_peers (fst (unregister order pid h)) = (hub_peers h)(pid := None)"
  by (simp add: unregister_def unregister_locked_def Let_def split: prod.splits)

lemma abs_unregister:
  assumes "enumerates order (hub_sessions h)"
  shows "abs_hub (fst (unregister order pid h)) = rv_leave pid (abs_hub h)"
  by (auto simp: hub_members_unregister[OF assms] hub_peers_unregister abs_hub_def rv_leave_def)

lemma abs_close: "abs_hub (fst (close_session sid by_id r h)) = rv_unlink sid (abs_hub h)"
  by (auto simp: close_session_hub abs_hub_def rv_unlink_def split: if_splits)

section \<open>The notices of Unregister\<close>

lemma gone_msg_inject [simp]: "gone_msg a r = gone_msg b r' \<longleftrightarrow> a = b \<and> r = r'"
  by (auto simp: gone_msg_def)

lemma notice_for_Some:
  "notice_for pid ps ss sid = Some (p, k) \<longleftrightarrow>
     k = sid \<and> (\<exists>s. ss sid = Some s \<and> touches pid s \<and> ps (counterpart pid s) = Some p)"
  by (auto simp: notice_for_def split: option.splits if_splits)

lemma set_map_filter_eq: "set (List.map_filter f xs) = {y. \<exists>x \<in> set xs. f x = Some y}"
  by (induction xs) (auto simp: List.map_filter_def split: option.splits)

lemma distinct_notices:
  "distinct order \<Longrightarrow> distinct (map snd (List.map_filter (notice_for pid ps ss) order))"
proof (induction order)
  case Nil
  show ?case by (simp add: List.map_filter_def)
next
  case (Cons k order)
  have "k \<notin> snd ` set (List.map_filter (notice_for pid ps ss) order)"
    using Cons.prems by (auto simp: set_map_filter_eq notice_for_Some)
  with Cons show ?case
    by (auto simp: List.map_filter_simps notice_for_Some split: option.splits)
qed

lemma set_notices:
  "set (List.map_filter (notice_for pid ps ss) order) =
     {(p, sid). sid \<in> set order \<and> (\<exists>s. ss sid = Some s \<and> touches pid s \<and> ps (counterpart pid s) = Some p)}"
  by (auto simp: set_map_filter_eq notice_for_Some)

lemma set_unregister_notices:
  assumes "enumerates order (hub_sessions h)"
  shows "set (snd (unregister order pid h)) =
    {(p, gone_msg sid ''peer_disconnected'') | p sid s. hub_sessions h sid = Some s \<and> touches pid s \<and>
       counterpart pid s \<noteq> pid \<and> hub_peers h (counterpart pid s) = Some p}"
proof -
  have "set (snd (unregister order pid h)) =
      (\<lambda>(p, sid). (p, gone_msg sid ''peer_disconnected'')) `
        {(p, sid). sid \<in> dom (hub_sessions h) \<and> (\<exists>s. hub_sessions h sid = Some s \<and> touches pid s \<and>
           ((hub_peers h)(pid := None)) (counterpart pid s) = Some p)}"
    using assms by (simp add: unregister_def unregister_locked_eq[OF assms] set_notices enumerates_def)
  also have "\<dots> = {(p, gone_msg sid ''peer_disconnected'') | p sid s. hub_sessions h sid = Some s \<and>
      touches pid s \<and> counterpart pid s \<noteq> pid \<and> hub_peers h (counterpart pid s) = Some p}"
    by (auto simp: image_iff fun_upd_apply split: if_splits)
  finally show ?thesis .
qed

section \<open>Properties of the hub\<close>

text \<open>
  C8: every operation of the hub refines the abstract rendezvous: registering adds one online
  peer or fails exactly when the name is taken; unregistering, in whatever order Go walks the
  session map, removes the peer and exactly the sessions it is an end of; opening a session
  links initiator and target or fails exactly when the target is offline; closing removes
  exactly that session.
\<close>

theorem hub_refines_rendezvous:
  assumes "enumerates order (hub_sessions h)"
  shows "abs_result (register pid p h) = rv_join pid (abs_hub h)
    \<and> abs_hub (fst (unregister order pid h)) = rv_leave pid (abs_hub h)
    \<and> abs_result (map_sum id (\<lambda>(sid, q, h'). h') (open_session u i t h)) = rv_link (''s_'' @ u) i t (abs_hub h)
    \<and> abs_hub (fst (close_session sid by_id r h)) = rv_unlink sid (abs_hub h)"
  by (intro conjI abs_register abs_unregister[OF assms] abs_open abs_close)

text \<open>A hub with two peers and one session between them, for the witnesses.\<close>

definition demo_hub :: "nat hub" where
  "demo_hub = \<lparr>hub_ice = Some [], hub_peers = [''a'' \<mapsto> 1, ''b'' \<mapsto> 2],
     hub_sessions = [''s_1'' \<mapsto> \<lparr>s_id = ''s_1'', s_initiator = ''a'', s_target = ''b''\<rparr>]\<rparr>"

lemma enumerates_demo: "enumerates [''s_1''] (hub_sessions demo_hub)"
  by (auto simp: enumerates_def demo_hub_def)

theorem hub_refines_rendezvous_witness:
  "enumerates [''s_1''] (hub_sessions demo_hub)
    \<and> abs_hub (fst (unregister [''s_1''] ''a'' demo_hub)) = rv_leave ''a'' (abs_hub demo_hub)"
  using enumerates_demo hub_refines_rendezvous[OF enumerates_demo, of "''a''"] by simp

text \<open>
  C23: when a peer leaves, the other end of each of its sessions is told once: the messages
  sent are exactly one \<open>peer.gone\<close> with reason \<open>peer_disconnected\<close> per removed
  session whose other end is a different, connected peer.
\<close>

theorem unregister_notifies_counterparts:
  assumes "enumerates order (hub_sessions h)"
  shows "set (snd (unregister order pid h)) =
      {(p, gone_msg sid ''peer_disconnected'') | p sid s. hub_sessions h sid = Some s \<and> touches pid s \<and>
         counterpart pid s \<noteq> pid \<and> hub_peers h (counterpart pid s) = Some p}
    \<and> distinct (map snd (snd (unregister order pid h)))"
proof
  show "distinct (map snd (snd (unregister order pid h)))"
  proof -
    let ?ns = "List.map_filter (notice_for pid ((hub_peers h)(pid := None)) (hub_sessions h)) order"
    have "map snd (snd (unregister order pid h)) = map (\<lambda>sid. gone_msg sid ''peer_disconnected'') (map snd ?ns)"
      by (simp add: unregister_def unregister_locked_eq[OF assms] split_beta)
    moreover have "distinct (map snd ?ns)"
      using assms by (intro distinct_notices) (simp add: enumerates_def)
    ultimately show ?thesis by (simp add: distinct_map inj_on_def)
  qed
qed (rule set_unregister_notices[OF assms])

theorem unregister_notifies_counterparts_witness:
  "enumerates [''s_1''] (hub_sessions demo_hub)
    \<and> set (snd (unregister [''s_1''] ''a'' demo_hub)) = {(2, gone_msg ''s_1'' ''peer_disconnected'')}"
proof -
  have "set (snd (unregister [''s_1''] ''a'' demo_hub)) =
    {(p, gone_msg sid ''peer_disconnected'') | p sid s. hub_sessions demo_hub sid = Some s \<and> touches ''a'' s \<and>
       counterpart ''a'' s \<noteq> ''a'' \<and> hub_peers demo_hub (counterpart ''a'' s) = Some p}"
    using unregister_notifies_counterparts[OF enumerates_demo] by blast
  also have "\<dots> = {(2, gone_msg ''s_1'' ''peer_disconnected'')}"
    by (auto simp: demo_hub_def touches_def counterpart_def split: if_splits)
  finally show ?thesis using enumerates_demo by blast
qed

text \<open>
  After \<open>OpenSession\<close> between two distinct connected peers, \<open>OtherPeer\<close> takes
  each of them to the other, and every other session still routes as it did.
\<close>

theorem open_session_routes_both_ways:
  assumes "open_session u i t h = Inr (sid, p, h')" and "hub_peers h i = Some q" and "i \<noteq> t"
  shows "other_peer sid i h' = Inr p \<and> other_peer sid t h' = Inr q \<and> hub_peers h t = Some p"
  by (rule hub_router.opened_routes[OF assms])

theorem open_session_routes_both_ways_witness:
  "case open_session ''9'' ''b'' ''a'' demo_hub of
     Inl e \<Rightarrow> False
   | Inr (sid, p, h') \<Rightarrow> p = 1 \<and> other_peer sid ''b'' h' = Inr 1 \<and> other_peer sid ''a'' h' = Inr 2"
proof -
  obtain h' where o: "open_session ''9'' ''b'' ''a'' demo_hub = Inr (''s_9'', 1, h')"
    by (simp add: open_session_def demo_hub_def Let_def)
  have "hub_peers demo_hub ''b'' = Some 2" by (simp add: demo_hub_def)
  from open_session_routes_both_ways[OF o this] o show ?thesis by simp
qed

text \<open>
  C39: \<open>CloseSession\<close> deletes the session before it checks who asks.  A caller who is not
  a member tears it down for both members and neither is told: the session routes nowhere
  afterwards, and no \<open>peer.gone\<close> is sent.
\<close>

theorem close_session_by_stranger_is_silent:
  assumes "hub_sessions h sid = Some s" and "\<not> touches stranger s"
  shows "snd (close_session sid stranger r h) = []
    \<and> hub_sessions (fst (close_session sid stranger r h)) sid = None
    \<and> (\<forall>self. other_peer sid self (fst (close_session sid stranger r h)) = Inl ErrSessionUnknown)"
proof (intro conjI allI)
  show "snd (close_session sid stranger r h) = []"
    using assms by (auto simp: close_session_def touches_def Let_def)
  show "hub_sessions (fst (close_session sid stranger r h)) sid = None"
    by (simp add: close_session_hub)
  show "other_peer sid self (fst (close_session sid stranger r h)) = Inl ErrSessionUnknown" for self
    by (rule hub_router.closed_unroutable)
qed

theorem close_session_by_stranger_is_silent_witness:
  "other_peer ''s_1'' ''a'' demo_hub = Inr 2
    \<and> other_peer ''s_1'' ''mallory'' demo_hub = Inl ErrNotMember
    \<and> snd (close_session ''s_1'' ''mallory'' ''x'' demo_hub) = []
    \<and> other_peer ''s_1'' ''a'' (fst (close_session ''s_1'' ''mallory'' ''x'' demo_hub)) = Inl ErrSessionUnknown"
proof -
  let ?s = "\<lparr>s_id = ''s_1'', s_initiator = ''a'', s_target = ''b''\<rparr>"
  have s: "hub_sessions demo_hub ''s_1'' = Some ?s" "\<not> touches ''mallory'' ?s"
    by (simp_all add: demo_hub_def touches_def)
  show ?thesis
    using close_session_by_stranger_is_silent[OF s] by (simp add: other_peer_def demo_hub_def)
qed

end
