(* ===== verification/Peer.thy ===== *)
theory Peer
  imports Hub
begin

text \<open>
  \<open>internal/signal/peer.go\<close>: a connected client with its bounded send channel, the
  dispatcher of client messages, one round of the read loop and one of the write loop.
  \<open>closeCh\<close> is the flag \<open>p_closed\<close>; \<open>sync.Once\<close> makes closing it idempotent.
  The dispatcher is given the identifier \<open>uuid.NewString()\<close> would return; it returns the
  hub after the one locked operation it performs, the \<open>Send\<close> calls it makes in order, and
  its error.
\<close>

section \<open>Peers and their send queue\<close>

definition sendQueueSize :: nat where
  "sendQueueSize = 32"

record peer =
  p_id :: peer_id
  p_role :: string
  p_send :: "out_msg list"
  p_closed :: bool

definition newPeer :: "peer_id \<Rightarrow> string \<Rightarrow> peer" where
  "newPeer pid role = \<lparr>p_id = pid, p_role = role, p_send = [], p_closed = False\<rparr>"

definition close_peer :: "peer \<Rightarrow> peer" where
  "close_peer p = p\<lparr>p_closed := True\<rparr>"

text \<open>The \<open>select\<close> with a \<open>default\<close>: queue the message, or close the peer if the channel is full.\<close>

definition send_msg :: "out_msg \<Rightarrow> peer \<Rightarrow> peer" where
  "send_msg m p = (if length (p_send p) < sendQueueSize then p\<lparr>p_send := p_send p @ [m]\<rparr> else close_peer p)"

definition recv_msg :: "peer \<Rightarrow> (out_msg \<times> peer) option" where
  "recv_msg p = (case p_send p of [] \<Rightarrow> None | m # ms \<Rightarrow> Some (m, p\<lparr>p_send := ms\<rparr>))"

interpretation send_queue: bounded_queue send_msg recv_msg p_send p_closed sendQueueSize
  by unfold_locales (auto simp: send_msg_def recv_msg_def close_peer_def)

lemma send_msg_id [simp]: "p_id (send_msg m p) = p_id p" "p_role (send_msg m p) = p_role p"
  by (simp_all add: send_msg_def close_peer_def)

lemma close_peer_idem [simp]: "close_peer (close_peer p) = close_peer p"
  by (simp add: close_peer_def)

section \<open>The dispatcher\<close>

type_synonym 'p dispatch_result = "'p hub \<times> ('p \<times> out_msg) list \<times> go_error option"

definition session_ack ::
    "session_id \<Rightarrow> peer_id \<Rightarrow> ice_server list option \<Rightarrow> bool \<Rightarrow> out_msg" where
  "session_ack sid other ice init =
     SessionAck \<lparr>ack_kind = KindSessionAck, ack_session = sid, ack_peer = other,
                 ack_ice_servers = ice, ack_initiator = init\<rparr>"

definition err_reply :: "string \<Rightarrow> go_error \<Rightarrow> out_msg" where
  "err_reply code e = ErrReply \<lparr>err_kind = KindErr, err_code = code, err_message = error_text e\<rparr>"

definition pong_msg :: out_msg where
  "pong_msg = StringMap [(''kind'', KindPong)]"

definition dispatch_session_req ::
    "string \<Rightarrow> 'p \<Rightarrow> peer_id \<Rightarrow> 'p hub \<Rightarrow> json \<Rightarrow> 'p dispatch_result" where
  "dispatch_session_req uuid self pid hub raw =
     (case checked (decode_session_req raw) of
        Inl e \<Rightarrow> (hub, [], Some e)
      | Inr m \<Rightarrow>
          (case open_session uuid pid (sreq_peer m) hub of
             Inl e \<Rightarrow> (hub, [], Some e)
           | Inr (sid, target, hub') \<Rightarrow>
               (hub', [(self, session_ack sid (sreq_peer m) (IceServers hub') True),
                       (target, session_ack sid pid (IceServers hub') False)], None)))"

definition dispatch_sdp :: "peer_id \<Rightarrow> 'p hub \<Rightarrow> json \<Rightarrow> 'p dispatch_result" where
  "dispatch_sdp pid hub raw =
     (case checked (decode_sdp raw) of
        Inl e \<Rightarrow> (hub, [], Some e)
      | Inr m \<Rightarrow>
          (case other_peer (sdp_session m) pid hub of
             Inl e \<Rightarrow> (hub, [], Some e)
           | Inr other \<Rightarrow>
               (hub, [(other, PeerSDP \<lparr>sdp_kind = KindPeerSDP, sdp_session = sdp_session m,
                                       sdp_role = sdp_role m, sdp_sdp = sdp_sdp m\<rparr>)], None)))"

definition dispatch_ice :: "peer_id \<Rightarrow> 'p hub \<Rightarrow> json \<Rightarrow> 'p dispatch_result" where
  "dispatch_ice pid hub raw =
     (case checked (decode_ice raw) of
        Inl e \<Rightarrow> (hub, [], Some e)
      | Inr m \<Rightarrow>
          (case other_peer (icem_session m) pid hub of
             Inl e \<Rightarrow> (hub, [], Some e)
           | Inr other \<Rightarrow>
               (hub, [(other, PeerICE \<lparr>icem_kind = KindPeerICE, icem_session = icem_session m,
                                       icem_cand = icem_cand m\<rparr>)], None)))"

definition dispatch_bye :: "peer_id \<Rightarrow> 'p hub \<Rightarrow> json \<Rightarrow> 'p dispatch_result" where
  "dispatch_bye pid hub raw =
     (case checked (decode_bye raw) of
        Inl e \<Rightarrow> (hub, [], Some e)
      | Inr m \<Rightarrow>
          (case close_session (bye_session m) pid (bye_reason m) hub of
             (hub', sends) \<Rightarrow> (hub', sends, None)))"

definition dispatch ::
    "string \<Rightarrow> 'p \<Rightarrow> peer_id \<Rightarrow> 'p hub \<Rightarrow> string \<Rightarrow> json \<Rightarrow> 'p dispatch_result" where
  "dispatch uuid self pid hub kind raw =
     (if kind = KindPing then (hub, [(self, pong_msg)], None)
      else if kind = KindSessionReq then dispatch_session_req uuid self pid hub raw
      else if kind = KindSDP then dispatch_sdp pid hub raw
      else if kind = KindICE then dispatch_ice pid hub raw
      else if kind = KindBye then dispatch_bye pid hub raw
      else if kind = KindHello then (hub, [], Some (NewError ''hello already processed''))
      else (hub, [], Some (NewError (''unknown kind: '' @ kind))))"

lemmas dispatch_defs =
  dispatch_def dispatch_session_req_def dispatch_sdp_def dispatch_ice_def dispatch_bye_def

section \<open>The read loop\<close>

text \<open>
  One round of \<open>readLoop\<close>.  \<open>None\<close> is the end of the loop (\<open>wsjson.Read\<close>
  failed); otherwise the hub afterwards and the sends of this round, in order.
\<close>

definition read_round ::
    "string \<Rightarrow> 'p \<Rightarrow> peer_id \<Rightarrow> 'p hub \<Rightarrow> go_error + json \<Rightarrow> ('p hub \<times> ('p \<times> out_msg) list) option" where
  "read_round uuid self pid hub msg =
     (case msg of
        Inl e \<Rightarrow> None
      | Inr raw \<Rightarrow>
          (case unmarshal_envelope raw of
             Inl e \<Rightarrow> Some (hub, [(self, err_reply ''bad_json'' e)])
           | Inr env \<Rightarrow>
               (case dispatch uuid self pid hub (env_kind env) raw of
                  (hub', sends, None) \<Rightarrow> Some (hub', sends)
                | (hub', sends, Some e) \<Rightarrow> Some (hub', sends @ [(self, err_reply ''dispatch'' e)]))))"

section \<open>The write loop\<close>

text \<open>
  The events one \<open>select\<close> of \<open>writeLoop\<close> may take: the context is done, the close
  channel is closed, a message is ready and its write succeeds or fails, or the ping ticker
  fired and the ping succeeds or fails.  The result is \<open>None\<close> when the event is not ready,
  else the peer, what went onto the connection, and whether the loop goes on.
\<close>

datatype frame = DataFrame json | PingFrame

datatype write_event = CtxDone | CloseSeen | WriteOk | WriteFail | PingOk | PingFail

fun write_round :: "write_event \<Rightarrow> peer \<Rightarrow> (peer \<times> frame list \<times> bool) option" where
  "write_round CtxDone p = Some (p, [], False)"
| "write_round CloseSeen p = (if p_closed p then Some (p, [], False) else None)"
| "write_round WriteOk p =
     (case recv_msg p of None \<Rightarrow> None | Some (m, p') \<Rightarrow> Some (p', [DataFrame (encode_out m)], True))"
| "write_round WriteFail p =
     (case recv_msg p of None \<Rightarrow> None | Some (m, p') \<Rightarrow> Some (close_peer p', [], False))"
| "write_round PingOk p = Some (p, [PingFrame], True)"
| "write_round PingFail p = Some (close_peer p, [], False)"

section \<open>What a dispatch does to the hub\<close>

lemma open_session_peers: "open_session uuid i t h = Inr (sid, p, h') \<Longrightarrow> hub_peers h' = hub_peers h"
  by (auto simp: open_session_def Let_def split: option.splits)

lemma dispatch_hub_cases:
  assumes "dispatch uuid self pid hub kind raw = (hub', sends, e)"
  shows "hub' = hub
    \<or> (\<exists>t sid p. open_session uuid pid t hub = Inr (sid, p, hub'))
    \<or> (\<exists>sid r. hub' = fst (close_session sid pid r hub))"
proof -
  consider "kind = KindSessionReq" | "kind = KindBye" | "kind \<noteq> KindSessionReq" "kind \<noteq> KindBye"
    by blast
  then show ?thesis
  proof cases
    case 1
    then show ?thesis
      using assms by (auto simp: dispatch_def kind_defs dispatch_session_req_def split: sum.splits prod.splits)
  next
    case 2
    then show ?thesis
      using assms
      by (auto simp: dispatch_def kind_defs dispatch_bye_def split: sum.splits prod.splits) (metis fst_conv)
  next
    case 3
    then show ?thesis
      using assms by (auto simp: dispatch_def dispatch_sdp_def dispatch_ice_def split: sum.splits if_splits)
  qed
qed

lemma dispatch_hub:
  assumes "dispatch uuid self pid hub kind raw = (hub', sends, e)"
  shows "hub_peers hub' = hub_peers hub \<and> (hub_inv hub \<longrightarrow> hub_peers hub pid \<noteq> None \<longrightarrow> hub_inv hub')"
  using dispatch_hub_cases[OF assms]
proof (elim disjE exE)
  assume "hub' = hub"
  then show ?thesis by simp
next
  fix t sid p
  assume o: "open_session uuid pid t hub = Inr (sid, p, hub')"
  show ?thesis using open_session_peers[OF o] hub_inv_open[OF _ _ o] by simp
next
  fix sid r
  assume c: "hub' = fst (close_session sid pid r hub)"
  show ?thesis unfolding c by (simp add: close_session_hub hub_inv_close[unfolded close_session_hub])
qed

lemma read_round_hub:
  assumes "read_round uuid self pid hub msg = Some (hub', sends)"
  shows "hub_peers hub' = hub_peers hub \<and> (hub_inv hub \<longrightarrow> hub_peers hub pid \<noteq> None \<longrightarrow> hub_inv hub')"
proof -
  from assms consider "hub' = hub"
    | kind raw sends' e where "dispatch uuid self pid hub kind raw = (hub', sends', e)"
    by (auto simp: read_round_def split: sum.splits prod.splits option.splits)
  then show ?thesis
  proof cases
    case 1
    then show ?thesis by simp
  next
    case 2
    then show ?thesis by (rule dispatch_hub)
  qed
qed

section \<open>Rounds on well-formed messages\<close>

lemma read_round_kind:
  assumes "unmarshal_envelope raw = Inr \<lparr>env_kind = k\<rparr>"
  shows "read_round uuid self pid hub (Inr raw) =
    (case dispatch uuid self pid hub k raw of
       (hub', sends, None) \<Rightarrow> Some (hub', sends)
     | (hub', sends, Some e) \<Rightarrow> Some (hub', sends @ [(self, err_reply ''dispatch'' e)]))"
  using assms by (simp add: read_round_def)

lemma dispatch_kinds [simp]:
  "dispatch uuid self pid hub KindPing raw = (hub, [(self, pong_msg)], None)"
  "dispatch uuid self pid hub KindSessionReq raw = dispatch_session_req uuid self pid hub raw"
  "dispatch uuid self pid hub KindSDP raw = dispatch_sdp pid hub raw"
  "dispatch uuid self pid hub KindICE raw = dispatch_ice pid hub raw"
  "dispatch uuid self pid hub KindBye raw = dispatch_bye pid hub raw"
  by (simp_all add: dispatch_def kind_defs)

lemma dispatch_sdp_encoded:
  "dispatch_sdp pid hub (encode_sdp d) =
     (case other_peer (sdp_session d) pid hub of
        Inl e \<Rightarrow> (hub, [], Some e)
      | Inr q \<Rightarrow> (hub, [(q, PeerSDP (d\<lparr>sdp_kind := KindPeerSDP\<rparr>))], None))"
  by (simp add: dispatch_sdp_def client_roundtrips split: sum.splits)

lemma dispatch_ice_encoded:
  "dispatch_ice pid hub (encode_ice i) =
     (case other_peer (icem_session i) pid hub of
        Inl e \<Rightarrow> (hub, [], Some e)
      | Inr q \<Rightarrow> (hub, [(q, PeerICE (i\<lparr>icem_kind := KindPeerICE\<rparr>))], None))"
  by (simp add: dispatch_ice_def client_roundtrips split: sum.splits)

lemma dispatch_bye_encoded:
  "dispatch_bye pid hub (encode_bye b) =
     (fst (close_session (bye_session b) pid (bye_reason b) hub),
      snd (close_session (bye_session b) pid (bye_reason b) hub), None)"
  by (simp add: dispatch_bye_def client_roundtrips split_beta)

lemma dispatch_session_req_encoded:
  "dispatch_session_req uuid self pid hub (encode_session_req q) =
     (case open_session uuid pid (sreq_peer q) hub of
        Inl e \<Rightarrow> (hub, [], Some e)
      | Inr (sid, target, hub') \<Rightarrow>
          (hub', [(self, session_ack sid (sreq_peer q) (IceServers hub') True),
                  (target, session_ack sid pid (IceServers hub') False)], None))"
  by (simp add: dispatch_session_req_def client_roundtrips)

section \<open>Properties\<close>

text \<open>
  Nothing a client sees is lost or reordered while it is connected: over any sequence of
  \<open>Send\<close> calls and of messages taken by the write loop, if the peer was not closed then what
  was taken followed by what is still queued is the initial queue followed by everything sent,
  in order; the queue never holds more than 32 messages.
\<close>

theorem send_queue_is_lossless_while_open:
  assumes "length (p_send p) \<le> 32" and "\<not> p_closed (snd (send_queue.run ops p))"
  shows "fst (send_queue.run ops p) @ p_send (snd (send_queue.run ops p)) = p_send p @ send_queue.pushed ops
    \<and> length (p_send (snd (send_queue.run ops p))) \<le> 32"
  using send_queue.run_fifo[OF assms(2)] send_queue.run_cap[of p ops] assms(1) by (simp add: sendQueueSize_def)

theorem send_queue_is_lossless_while_open_witness:
  "fst (send_queue.run [Some pong_msg, Some (gone_msg ''s'' ''r''), None] (newPeer ''a'' ''user'')) = [pong_msg]
    \<and> p_send (snd (send_queue.run [Some pong_msg, Some (gone_msg ''s'' ''r''), None] (newPeer ''a'' ''user'')))
        = [gone_msg ''s'' ''r'']"
proof -
  let ?ops = "[Some pong_msg, Some (gone_msg ''s'' ''r''), None]" and ?p = "newPeer ''a'' ''user''"
  have r: "send_queue.run ?ops ?p = ([pong_msg], ?p\<lparr>p_send := [gone_msg ''s'' ''r'']\<rparr>)"
    by (simp add: send_msg_def recv_msg_def newPeer_def sendQueueSize_def)
  have "length (p_send ?p) \<le> 32" "\<not> p_closed (snd (send_queue.run ?ops ?p))"
    unfolding r by (simp_all add: newPeer_def)
  from send_queue_is_lossless_while_open[OF this] show ?thesis unfolding r by simp
qed

text \<open>
  A peer whose queue is full is closed by the next \<open>Send\<close>, which drops the message and
  does not wait; closing is idempotent, and a closed peer stays closed whatever is sent.
\<close>

theorem full_queue_closes_the_peer:
  assumes "length (p_send p) = 32"
  shows "send_msg m p = close_peer p \<and> p_closed (send_msg m p) \<and> p_send (send_msg m p) = p_send p
    \<and> close_peer (send_msg m p) = send_msg m p \<and> p_closed (snd (send_queue.run ops (send_msg m p)))"
proof -
  have "send_msg m p = close_peer p" using assms by (simp add: send_msg_def sendQueueSize_def)
  moreover have "p_closed (snd (send_queue.run ops (close_peer p)))"
    by (rule send_queue.run_dead) (simp add: close_peer_def)
  ultimately show ?thesis by (simp add: close_peer_def)
qed

theorem full_queue_closes_the_peer_witness:
  "p_closed (send_msg pong_msg (newPeer ''a'' ''user''\<lparr>p_send := replicate 32 pong_msg\<rparr>))"
  using full_queue_closes_the_peer[of "newPeer ''a'' ''user''\<lparr>p_send := replicate 32 pong_msg\<rparr>"]
  by (simp add: close_peer_def)

text \<open>
  \<open>sdp\<close> and \<open>ice\<close> messages are relayed verbatim: the one message that results goes
  to the other member of the session, decodes to the same session, role, SDP text and candidate
  as the sender wrote, and the hub does not change.
\<close>

theorem sdp_and_ice_are_relayed_verbatim:
  assumes "other_peer (sdp_session d) pid hub = Inr q" and "sdp_kind d = KindSDP"
    and "other_peer (icem_session i) pid hub = Inr q'" and "icem_kind i = KindICE"
  shows "read_round uuid self pid hub (Inr (encode_sdp d)) = Some (hub, [(q, PeerSDP (d\<lparr>sdp_kind := KindPeerSDP\<rparr>))])
    \<and> decode_peer_sdp (encode_out (PeerSDP (d\<lparr>sdp_kind := KindPeerSDP\<rparr>))) = (None, d\<lparr>sdp_kind := KindPeerSDP\<rparr>)
    \<and> read_round uuid self pid hub (Inr (encode_ice i)) = Some (hub, [(q', PeerICE (i\<lparr>icem_kind := KindPeerICE\<rparr>))])
    \<and> decode_peer_ice (encode_out (PeerICE (i\<lparr>icem_kind := KindPeerICE\<rparr>))) = (None, i\<lparr>icem_kind := KindPeerICE\<rparr>)"
  using assms
  by (simp add: read_round_kind[OF envelope_of_client(3)] read_round_kind[OF envelope_of_client(4)]
      dispatch_sdp_encoded dispatch_ice_encoded server_roundtrips)

theorem sdp_and_ice_are_relayed_verbatim_witness:
  "read_round ''u'' 1 ''a'' demo_hub
      (Inr (encode_sdp \<lparr>sdp_kind = KindSDP, sdp_session = ''s_1'', sdp_role = ''offer'', sdp_sdp = ''v=0''\<rparr>))
    = Some (demo_hub, [(2, PeerSDP \<lparr>sdp_kind = KindPeerSDP, sdp_session = ''s_1'', sdp_role = ''offer'', sdp_sdp = ''v=0''\<rparr>)])"
proof -
  have o: "other_peer ''s_1'' ''a'' demo_hub = Inr 2" by (simp add: other_peer_def demo_hub_def)
  show ?thesis
    using sdp_and_ice_are_relayed_verbatim[where hub = demo_hub and pid = "''a''"
        and i = "\<lparr>icem_kind = KindICE, icem_session = ''s_1'', icem_cand = JNull\<rparr>"
        and d = "\<lparr>sdp_kind = KindSDP, sdp_session = ''s_1'', sdp_role = ''offer'', sdp_sdp = ''v=0''\<rparr>"]
    by (simp add: o)
qed

text \<open>
  C27: \<open>session.req\<close> pairs the requester with a connected target: both get a
  \<open>session.ack\<close> with the same session id and the hub's ICE servers, each naming the other,
  and only the requester's says \<open>initiator\<close>; if the target is not connected the requester
  gets the error and nothing changes.
\<close>

theorem session_request_acknowledges_both:
  assumes "sreq_kind m = KindSessionReq"
  shows "read_round uuid self pid hub (Inr (encode_session_req m)) =
    (case hub_peers hub (sreq_peer m) of
       Some q \<Rightarrow>
         Some (hub\<lparr>hub_sessions := (hub_sessions hub)(''s_'' @ uuid \<mapsto>
                  \<lparr>s_id = ''s_'' @ uuid, s_initiator = pid, s_target = sreq_peer m\<rparr>)\<rparr>,
               [(self, session_ack (''s_'' @ uuid) (sreq_peer m) (hub_ice hub) True),
                (q, session_ack (''s_'' @ uuid) pid (hub_ice hub) False)])
     | None \<Rightarrow> Some (hub, [(self, err_reply ''dispatch'' ErrTargetUnknown)]))"
  using assms
  by (simp add: read_round_kind[OF envelope_of_client(2)] dispatch_session_req_encoded open_session_def
      Let_def IceServers_def split: option.splits)

theorem session_request_acknowledges_both_witness:
  "read_round ''u'' 1 ''a'' demo_hub (Inr (encode_session_req \<lparr>sreq_kind = KindSessionReq, sreq_peer = ''zz''\<rparr>))
     = Some (demo_hub, [(1, err_reply ''dispatch'' ErrTargetUnknown)])"
  using session_request_acknowledges_both[of "\<lparr>sreq_kind = KindSessionReq, sreq_peer = ''zz''\<rparr>" "''u''" 1 "''a''" demo_hub]
  by (simp add: demo_hub_def)

text \<open>
  C28: every JSON value a client sends keeps its read loop going, and a message that cannot be
  handled changes nothing: either the dispatcher handled it, or the hub is as before and the one
  message that results is an \<open>err\<close> with code \<open>bad_json\<close> or \<open>dispatch\<close> back to the
  sender.
\<close>

theorem bad_messages_change_nothing:
  "\<exists>hub' sends. read_round uuid self pid hub (Inr raw) = Some (hub', sends)
    \<and> ((\<exists>env. unmarshal_envelope raw = Inr env \<and> dispatch uuid self pid hub (env_kind env) raw = (hub', sends, None))
      \<or> (hub' = hub \<and> (\<exists>code e. (code = ''bad_json'' \<or> code = ''dispatch'') \<and> sends = [(self, err_reply code e)])))"
proof (cases "unmarshal_envelope raw")
  case (Inl e)
  then show ?thesis by (auto simp: read_round_def)
next
  case (Inr env)
  obtain hub' sends err where d: "dispatch uuid self pid hub (env_kind env) raw = (hub', sends, err)"
    by (metis prod_cases3)
  have "hub' = hub \<and> sends = []" if "err = Some e" for e
    using d that
    by (auto simp: dispatch_defs split: if_splits sum.splits prod.splits)
  with Inr d show ?thesis by (cases err) (auto simp: read_round_def)
qed

text \<open>The session a relayed or closing message is about.\<close>

fun msg_session :: "out_msg \<Rightarrow> session_id option" where
  "msg_session (PeerSDP m) = Some (sdp_session m)"
| "msg_session (PeerICE m) = Some (icem_session m)"
| "msg_session (PeerGone m) = Some (gone_session m)"
| "msg_session (SessionAck m) = None"
| "msg_session (HelloOK m) = None"
| "msg_session (StringMap m) = None"
| "msg_session (ErrReply m) = None"

lemma other_peer_member:
  assumes "other_peer sid pid hub = Inr q"
  shows "\<exists>s. hub_sessions hub sid = Some s \<and> touches pid s \<and> hub_peers hub (counterpart pid s) = Some q"
  using assms
  by (auto simp: other_peer_def touches_def counterpart_def Let_def split: option.splits if_splits)

lemma close_session_sends:
  assumes "(q, m) \<in> set (snd (close_session sid pid r hub))"
  shows "m = gone_msg sid r \<and>
    (\<exists>s. hub_sessions hub sid = Some s \<and> touches pid s \<and> hub_peers hub (counterpart pid s) = Some q)"
  using assms
  by (auto simp: close_session_def touches_def counterpart_def Let_def split: option.splits if_splits)

text \<open>
  C11: a client can reach only the peers it shares a session with: whatever it sends, a
  message that goes to anyone but itself is either relayed within a session it is a member of,
  to that session's other member, or the \<open>session.ack\<close> of a session it has just opened, to
  the peer it named.
\<close>

theorem dispatch_reaches_only_session_members:
  assumes "dispatch uuid self pid hub kind raw = (hub', sends, e)" and "(q, m) \<in> set sends" and "q \<noteq> self"
  shows "(\<exists>sid s. msg_session m = Some sid \<and> hub_sessions hub sid = Some s \<and> touches pid s
            \<and> hub_peers hub (counterpart pid s) = Some q)
    \<or> (\<exists>sid t. m = session_ack sid pid (hub_ice hub) False \<and> hub_peers hub t = Some q
            \<and> hub_sessions hub' sid = Some \<lparr>s_id = sid, s_initiator = pid, s_target = t\<rparr>)"
proof -
  consider "kind = KindSessionReq" | "kind = KindSDP" | "kind = KindICE" | "kind = KindBye"
    | "kind \<notin> {KindSessionReq, KindSDP, KindICE, KindBye}" by blast
  then show ?thesis
  proof cases
    case 1
    with assms show ?thesis
      by (auto simp: dispatch_session_req_def open_session_def Let_def IceServers_def
          split: sum.splits option.splits)
  next
    case 2
    with assms obtain sid where o: "other_peer sid pid hub = Inr q" and "msg_session m = Some sid"
      by (auto simp: dispatch_sdp_def split: sum.splits)
    then show ?thesis using other_peer_member[OF o] by auto
  next
    case 3
    with assms obtain sid where o: "other_peer sid pid hub = Inr q" and "msg_session m = Some sid"
      by (auto simp: dispatch_ice_def split: sum.splits)
    then show ?thesis using other_peer_member[OF o] by auto
  next
    case 4
    with assms obtain sid r where "(q, m) \<in> set (snd (close_session sid pid r hub))"
      by (auto simp: dispatch_bye_def split_beta split: sum.splits)
    from close_session_sends[OF this] show ?thesis by (auto simp: gone_msg_def)
  next
    case 5
    with assms show ?thesis by (auto simp: dispatch_def split: if_splits)
  qed
qed

theorem dispatch_reaches_only_session_members_witness:
  "\<exists>sid s. msg_session (gone_msg ''s_1'' '''') = Some sid \<and> hub_sessions demo_hub sid = Some s \<and> touches ''a'' s
     \<and> hub_peers demo_hub (counterpart ''a'' s) = Some 2"
proof -
  let ?b = "\<lparr>bye_kind = KindBye, bye_session = ''s_1'', bye_reason = ''''\<rparr>"
  have d: "dispatch ''u'' 1 ''a'' demo_hub KindBye (encode_bye ?b)
      = (fst (close_session ''s_1'' ''a'' '''' demo_hub), [(2, gone_msg ''s_1'' '''')], None)"
    by (simp add: dispatch_bye_encoded close_session_def demo_hub_def Let_def)
  show ?thesis
    using dispatch_reaches_only_session_members[OF d, of 2 "gone_msg ''s_1'' ''''"]
    by (simp add: gone_msg_def session_ack_def)
qed

text \<open>
  \<open>bye\<close> is never refused.  For any sender and any session id, known or not, the read
  loop answers no error, the session is gone afterwards, and at most the session's other member
  hears of it; there is no membership check and no \<open>session not found\<close>.
\<close>

theorem bye_is_never_refused:
  assumes "bye_kind b = KindBye"
  shows "\<exists>hub' sends. read_round uuid self pid hub (Inr (encode_bye b)) = Some (hub', sends)
    \<and> hub_sessions hub' = (hub_sessions hub)(bye_session b := None)
    \<and> snd ` set sends \<subseteq> {gone_msg (bye_session b) (bye_reason b)} \<and> length sends \<le> 1"
proof -
  let ?c = "close_session (bye_session b) pid (bye_reason b) hub"
  have "read_round uuid self pid hub (Inr (encode_bye b)) = Some (fst ?c, snd ?c)"
    using assms by (simp add: read_round_kind[OF envelope_of_client(5)] dispatch_bye_encoded)
  moreover have "snd ` set (snd ?c) \<subseteq> {gone_msg (bye_session b) (bye_reason b)}"
    using close_session_sends by fastforce
  moreover have "length (snd ?c) \<le> 1"
    by (simp add: close_session_def Let_def split: option.splits)
  ultimately show ?thesis by (simp add: close_session_hub)
qed

theorem bye_is_never_refused_witness:
  "\<exists>hub' sends. read_round ''u'' 7 ''mallory'' demo_hub
      (Inr (encode_bye \<lparr>bye_kind = KindBye, bye_session = ''s_1'', bye_reason = ''''\<rparr>)) = Some (hub', sends)
    \<and> hub_sessions demo_hub ''s_1'' \<noteq> None \<and> hub_sessions hub' ''s_1'' = None"
  using bye_is_never_refused[of "\<lparr>bye_kind = KindBye, bye_session = ''s_1'', bye_reason = ''''\<rparr>" "''u''" 7 "''mallory''" demo_hub]
  by (auto simp: demo_hub_def)

end
