(* ===== verification/Server.thy ===== *)
theory Server
  imports "HOL-Library.Sublist" Peer Token
begin

text \<open>
  \<open>internal/signal/ws.go\<close> and \<open>Peer.run\<close>: the life of a WebSocket connection, and
  the whole signaling server as a transition system.  A step is one atomic action of one
  goroutine: accepting a hello and registering, one \<open>Send\<close>, one round of a read loop up to
  the end of its locked region, one round of a write loop, unregistering.  The \<open>Send\<close> calls
  a goroutine still has to make are its \<open>c_todo\<close>; other goroutines' steps may come between
  any two of them.
\<close>

section \<open>Accepting a connection\<close>

text \<open>The handler; its hub is the one at start-up, the hub in service is part of the server's state.\<close>

record ws_handler =
  wh_hub :: "nat hub"
  wh_verifier :: verifier

definition NewWSHandler :: "nat hub \<Rightarrow> verifier \<Rightarrow> ws_handler" where
  "NewWSHandler hub v = \<lparr>wh_hub = hub, wh_verifier = v\<rparr>"

definition quote :: string where
  "quote = [CHR 0x27]"

definition acceptHello :: "jwt_lib \<Rightarrow> string \<Rightarrow> int \<Rightarrow> go_error + json \<Rightarrow> go_error + peer" where
  "acceptHello lib secret now msg =
     (case msg of
        Inl e \<Rightarrow> Inl e
      | Inr raw \<Rightarrow>
          (case unmarshal_envelope raw of
             Inl e \<Rightarrow> Inl e
           | Inr env \<Rightarrow>
               if env_kind env \<noteq> KindHello
               then Inl (NewError (''first message must be '' @ quote @ ''hello'' @ quote))
               else (case checked (decode_hello raw) of
                       Inl e \<Rightarrow> Inl e
                     | Inr m \<Rightarrow>
                         (case verify lib secret now (hello_token m) of
                            Inl e \<Rightarrow> Inl e
                          | Inr c \<Rightarrow> Inr (newPeer (cl_subject c) (cl_role c))))))"

text \<open>
  \<open>ServeHTTP\<close> up to \<open>peer.run\<close>.  A failed hello closes the connection without a
  message; a name that is taken is answered with \<open>duplicate_peer\<close>, written directly.
\<close>

datatype hello_outcome =
    HelloFailed go_error
  | DuplicatePeer peer out_msg
  | Registered peer "nat hub" out_msg

definition serve_hello :: "jwt_lib \<Rightarrow> string \<Rightarrow> int \<Rightarrow> go_error + json \<Rightarrow> nat \<Rightarrow> nat hub \<Rightarrow> hello_outcome" where
  "serve_hello lib secret now msg c hub =
     (case acceptHello lib secret now msg of
        Inl e \<Rightarrow> HelloFailed e
      | Inr p \<Rightarrow>
          (case register (p_id p) c hub of
             Inl e \<Rightarrow> DuplicatePeer p (err_reply ''duplicate_peer'' e)
           | Inr hub' \<Rightarrow> Registered p hub' (HelloOK \<lparr>hok_kind = KindHelloOK, hok_self = p_id p\<rparr>)))"

section \<open>Connections and the server's state\<close>

text \<open>
  \<open>Greeting\<close>: registered, the \<open>hello.ok\<close> not yet queued.  \<open>Running\<close>: inside
  \<open>Peer.run\<close>.  \<open>Leaving\<close>: unregistered, notices still to be sent.  \<open>Gone\<close>: over.
\<close>

datatype phase = Greeting | Running | Leaving | Gone

fun phase_rank :: "phase \<Rightarrow> nat" where
  "phase_rank Greeting = 0"
| "phase_rank Running = 1"
| "phase_rank Leaving = 2"
| "phase_rank Gone = 3"

lemma phase_rank_inject [simp]: "phase_rank a = phase_rank b \<longleftrightarrow> a = b"
  by (cases a; cases b) auto

instantiation phase :: linorder
begin

definition less_eq_phase :: "phase \<Rightarrow> phase \<Rightarrow> bool" where
  "a \<le> b \<longleftrightarrow> phase_rank a \<le> phase_rank b"

definition less_phase :: "phase \<Rightarrow> phase \<Rightarrow> bool" where
  "a < b \<longleftrightarrow> phase_rank a < phase_rank b"

instance
  by standard (auto simp: less_eq_phase_def less_phase_def)

end

record conn =
  c_peer :: peer
  c_phase :: phase
  c_todo :: "(nat \<times> out_msg) list"
  c_reading :: bool
  c_writing :: bool
  c_cancelled :: bool
  c_wire :: "frame list"

record server =
  srv_hub :: "nat hub"
  srv_conns :: "nat \<rightharpoonup> conn"

definition init_server :: "ice_server list option \<Rightarrow> server" where
  "init_server ice = \<lparr>srv_hub = new_hub ice, srv_conns = Map.empty\<rparr>"

definition greeting_conn :: "nat \<Rightarrow> peer \<Rightarrow> out_msg \<Rightarrow> conn" where
  "greeting_conn c p ok =
     \<lparr>c_peer = p, c_phase = Greeting, c_todo = [(c, ok)], c_reading = False, c_writing = False,
      c_cancelled = False, c_wire = []\<rparr>"

definition refused_conn :: "peer \<Rightarrow> out_msg \<Rightarrow> conn" where
  "refused_conn p err =
     \<lparr>c_peer = p, c_phase = Gone, c_todo = [], c_reading = False, c_writing = False,
      c_cancelled = True, c_wire = [DataFrame (encode_out err)]\<rparr>"

definition put_conn :: "nat \<Rightarrow> conn \<Rightarrow> server \<Rightarrow> server" where
  "put_conn c k s = s\<lparr>srv_conns := (srv_conns s)(c \<mapsto> k)\<rparr>"

definition put_hub :: "nat hub \<Rightarrow> server \<Rightarrow> server" where
  "put_hub h s = s\<lparr>srv_hub := h\<rparr>"

text \<open>\<open>Send\<close> through a \<open>*Peer\<close>.\<close>

definition send_to :: "nat \<Rightarrow> out_msg \<Rightarrow> server \<Rightarrow> server" where
  "send_to q m s =
     (case srv_conns s q of
        None \<Rightarrow> s
      | Some k \<Rightarrow> put_conn q (k\<lparr>c_peer := send_msg m (c_peer k)\<rparr>) s)"

section \<open>Steps\<close>

inductive srv_step :: "jwt_lib \<Rightarrow> string \<Rightarrow> server \<Rightarrow> server \<Rightarrow> bool" for lib secret where
  Connect: "srv_conns s c = None \<Longrightarrow>
     serve_hello lib secret now msg c (srv_hub s) = Registered p h ok \<Longrightarrow>
     srv_step lib secret s (put_conn c (greeting_conn c p ok) (put_hub h s))"
| Refuse: "srv_conns s c = None \<Longrightarrow>
     serve_hello lib secret now msg c (srv_hub s) = DuplicatePeer p err \<Longrightarrow>
     srv_step lib secret s (put_conn c (refused_conn p err) s)"
| SendOne: "srv_conns s c = Some k \<Longrightarrow> c_todo k = (q, m) # rest \<Longrightarrow>
     srv_step lib secret s (send_to q m (put_conn c (k\<lparr>c_todo := rest\<rparr>) s))"
| Start: "srv_conns s c = Some k \<Longrightarrow> c_phase k = Greeting \<Longrightarrow> c_todo k = [] \<Longrightarrow>
     srv_step lib secret s (put_conn c (k\<lparr>c_phase := Running, c_reading := True, c_writing := True\<rparr>) s)"
| Read: "srv_conns s c = Some k \<Longrightarrow> c_phase k = Running \<Longrightarrow> c_reading k \<Longrightarrow> c_todo k = [] \<Longrightarrow>
     read_round uuid c (p_id (c_peer k)) (srv_hub s) msg = Some (h, sends) \<Longrightarrow>
     srv_step lib secret s (put_conn c (k\<lparr>c_todo := sends\<rparr>) (put_hub h s))"
| ReadEnd: "srv_conns s c = Some k \<Longrightarrow> c_phase k = Running \<Longrightarrow> c_reading k \<Longrightarrow> c_todo k = [] \<Longrightarrow>
     srv_step lib secret s (put_conn c (k\<lparr>c_reading := False, c_cancelled := True\<rparr>) s)"
| Cancel: "srv_conns s c = Some k \<Longrightarrow> c_phase k = Running \<Longrightarrow>
     srv_step lib secret s (put_conn c (k\<lparr>c_cancelled := True\<rparr>) s)"
| Write: "srv_conns s c = Some k \<Longrightarrow> c_phase k = Running \<Longrightarrow> c_writing k \<Longrightarrow>
     ev = CtxDone \<longrightarrow> c_cancelled k \<Longrightarrow> write_round ev (c_peer k) = Some (p', fs, go) \<Longrightarrow>
     srv_step lib secret s (put_conn c (k\<lparr>c_peer := p', c_wire := c_wire k @ fs, c_writing := go\<rparr>) s)"
| Unregister: "srv_conns s c = Some k \<Longrightarrow> c_phase k = Running \<Longrightarrow> c_cancelled k \<Longrightarrow>
     \<not> c_reading k \<Longrightarrow> \<not> c_writing k \<Longrightarrow> c_todo k = [] \<Longrightarrow>
     enumerates order (hub_sessions (srv_hub s)) \<Longrightarrow>
     unregister order (p_id (c_peer k)) (srv_hub s) = (h, sends) \<Longrightarrow>
     srv_step lib secret s (put_conn c (k\<lparr>c_phase := Leaving, c_todo := sends\<rparr>) (put_hub h s))"
| Leave: "srv_conns s c = Some k \<Longrightarrow> c_phase k = Leaving \<Longrightarrow> c_todo k = [] \<Longrightarrow>
     srv_step lib secret s (put_conn c (k\<lparr>c_phase := Gone\<rparr>) s)"

inductive srv_reach :: "jwt_lib \<Rightarrow> string \<Rightarrow> ice_server list option \<Rightarrow> server \<Rightarrow> bool"
  for lib secret ice where
  reach_init: "srv_reach lib secret ice (init_server ice)"
| reach_step: "srv_reach lib secret ice s \<Longrightarrow> srv_step lib secret s t \<Longrightarrow> srv_reach lib secret ice t"

section \<open>The hub's users\<close>

text \<open>
  \<open>owner s c\<close> is the name under which connection \<open>c\<close> is registered, if its
  goroutine is between registering and unregistering.
\<close>

definition live :: "conn \<Rightarrow> bool" where
  "live k \<longleftrightarrow> c_phase k = Greeting \<or> c_phase k = Running"

definition owner :: "server \<Rightarrow> nat \<Rightarrow> peer_id option" where
  "owner s c =
     (case srv_conns s c of Some k \<Rightarrow> if live k then Some (p_id (c_peer k)) else None | None \<Rightarrow> None)"

lemma put_conn_simps [simp]:
  "srv_conns (put_conn c k s) = (srv_conns s)(c \<mapsto> k)"
  "srv_hub (put_conn c k s) = srv_hub s"
  "srv_hub (put_hub h s) = h"
  "srv_conns (put_hub h s) = srv_conns s"
  by (simp_all add: put_conn_def put_hub_def)

lemma send_to_hub [simp]: "srv_hub (send_to q m s) = srv_hub s"
  by (simp add: send_to_def split: option.splits)

lemma send_to_conns:
  "srv_conns (send_to q m s) c =
     (if c = q then map_option (\<lambda>k. k\<lparr>c_peer := send_msg m (c_peer k)\<rparr>) (srv_conns s c) else srv_conns s c)"
  by (auto simp: send_to_def split: option.splits)

lemma live_upd [simp]:
  "live (k\<lparr>c_peer := p\<rparr>) = live k" "live (k\<lparr>c_todo := td\<rparr>) = live k"
  "live (k\<lparr>c_reading := b\<rparr>) = live k" "live (k\<lparr>c_writing := b\<rparr>) = live k"
  "live (k\<lparr>c_cancelled := b\<rparr>) = live k" "live (k\<lparr>c_wire := w\<rparr>) = live k"
  by (simp_all add: live_def)

lemma owner_put_conn: "owner (put_conn c k s) = (owner s)(c := if live k then Some (p_id (c_peer k)) else None)"
  by (auto simp: owner_def fun_eq_iff)

lemma owner_put_hub [simp]: "owner (put_hub h s) = owner s"
  by (simp add: owner_def fun_eq_iff)

lemma owner_send_to [simp]: "owner (send_to q m s) = owner s"
  by (auto simp: owner_def fun_eq_iff send_to_conns split: option.splits)

lemma owner_same:
  "srv_conns s c = Some k \<Longrightarrow> live k' = live k \<Longrightarrow> p_id (c_peer k') = p_id (c_peer k) \<Longrightarrow>
     owner (put_conn c k' s) = owner s"
  by (auto simp: owner_put_conn owner_def fun_eq_iff)

section \<open>The invariant\<close>

definition srv_inv :: "jwt_lib \<Rightarrow> string \<Rightarrow> server \<Rightarrow> bool" where
  "srv_inv lib secret s \<longleftrightarrow>
     hub_inv (srv_hub s) \<and>
     (\<forall>pid c. hub_peers (srv_hub s) pid = Some c \<longleftrightarrow> owner s c = Some pid) \<and>
     (\<forall>c k. srv_conns s c = Some k \<longrightarrow>
        length (p_send (c_peer k)) \<le> sendQueueSize \<and>
        (\<exists>now raw cl. verify lib secret now raw = Inr cl \<and>
           p_id (c_peer k) = cl_subject cl \<and> p_role (c_peer k) = cl_role cl))"

definition conn_ok :: "jwt_lib \<Rightarrow> string \<Rightarrow> conn \<Rightarrow> bool" where
  "conn_ok lib secret k \<longleftrightarrow>
     length (p_send (c_peer k)) \<le> sendQueueSize \<and>
     (\<exists>now raw cl. verify lib secret now raw = Inr cl \<and>
        p_id (c_peer k) = cl_subject cl \<and> p_role (c_peer k) = cl_role cl)"

lemma srv_inv_alt:
  "srv_inv lib secret s \<longleftrightarrow>
     hub_inv (srv_hub s) \<and>
     (\<forall>pid c. hub_peers (srv_hub s) pid = Some c \<longleftrightarrow> owner s c = Some pid) \<and>
     (\<forall>c k. srv_conns s c = Some k \<longrightarrow> conn_ok lib secret k)"
  by (simp add: srv_inv_def conn_ok_def)

lemma srv_inv_init: "srv_inv lib secret (init_server ice)"
proof -
  have "\<forall>pid. hub_peers (new_hub ice :: nat hub) pid = None" by (simp add: new_hub_def Let_def)
  then show ?thesis by (simp add: srv_inv_def init_server_def hub_inv_new owner_def)
qed

lemma acceptHello_Inr:
  assumes "acceptHello lib secret now msg = Inr p"
  shows "p_send p = [] \<and> \<not> p_closed p \<and>
    (\<exists>tok cl. verify lib secret now tok = Inr cl \<and> p_id p = cl_subject cl \<and> p_role p = cl_role cl)"
proof -
  from assms obtain tok cl where "verify lib secret now tok = Inr cl"
    and "p = newPeer (cl_subject cl) (cl_role cl)"
    by (auto simp: acceptHello_def split: sum.splits if_splits)
  then show ?thesis by (auto simp: newPeer_def)
qed

lemma serve_hello_Registered:
  assumes "serve_hello lib secret now msg c hub = Registered p h ok"
  shows "acceptHello lib secret now msg = Inr p" and "register (p_id p) c hub = Inr h"
    and "ok = HelloOK \<lparr>hok_kind = KindHelloOK, hok_self = p_id p\<rparr>"
  using assms by (auto simp: serve_hello_def split: sum.splits)

lemma serve_hello_Duplicate:
  assumes "serve_hello lib secret now msg c hub = DuplicatePeer p err"
  shows "acceptHello lib secret now msg = Inr p" and "hub_peers hub (p_id p) \<noteq> None"
    and "err = err_reply ''duplicate_peer'' ErrPeerAlreadyConnected"
  using assms by (auto simp: serve_hello_def register_def split: sum.splits option.splits)

lemma conn_ok_new:
  "acceptHello lib secret now msg = Inr p \<Longrightarrow> c_peer k = p \<Longrightarrow> conn_ok lib secret k"
  using acceptHello_Inr[of lib secret now msg p] by (auto simp: conn_ok_def)

lemma conn_ok_send:
  "conn_ok lib secret k \<Longrightarrow> conn_ok lib secret (k\<lparr>c_peer := send_msg m (c_peer k)\<rparr>)"
  using send_queue.push_cap[of "c_peer k" m] by (simp add: conn_ok_def)

lemma write_round_peer:
  assumes "write_round ev p = Some (p', fs, go)"
  shows "p_id p' = p_id p \<and> p_role p' = p_role p \<and> length (p_send p') \<le> length (p_send p)"
  using assms
  by (cases ev) (auto simp: recv_msg_def close_peer_def split: list.splits if_splits)

section \<open>The invariant is kept\<close>

lemma srv_inv_put_conn:
  assumes "srv_inv lib secret s" and "srv_conns s c = Some k" and "live k' = live k"
    and "p_id (c_peer k') = p_id (c_peer k)" and "conn_ok lib secret k'"
  shows "srv_inv lib secret (put_conn c k' s)"
  using assms(1,5) owner_same[OF assms(2-4)] by (auto simp: srv_inv_alt)

lemma srv_inv_put_hub:
  "srv_inv lib secret s \<Longrightarrow> hub_peers h = hub_peers (srv_hub s) \<Longrightarrow> hub_inv h \<Longrightarrow> srv_inv lib secret (put_hub h s)"
  by (simp add: srv_inv_alt)

lemma srv_inv_send_to: "srv_inv lib secret s \<Longrightarrow> srv_inv lib secret (send_to q m s)"
  by (auto simp: srv_inv_alt send_to_conns conn_ok_send split: if_splits)

lemma srv_inv_conn: "srv_inv lib secret s \<Longrightarrow> srv_conns s c = Some k \<Longrightarrow> conn_ok lib secret k"
  by (simp add: srv_inv_alt)

lemma srv_inv_registered:
  "srv_inv lib secret s \<Longrightarrow> srv_conns s c = Some k \<Longrightarrow> live k \<Longrightarrow>
     hub_peers (srv_hub s) (p_id (c_peer k)) = Some c"
  by (simp add: srv_inv_alt owner_def)

lemma srv_inv_owner: "srv_inv lib secret s \<Longrightarrow> owner s c = Some pid \<longleftrightarrow> hub_peers (srv_hub s) pid = Some c"
  by (simp add: srv_inv_alt)

lemma conn_ok_same_peer: "conn_ok lib secret k \<Longrightarrow> c_peer k' = c_peer k \<Longrightarrow> conn_ok lib secret k'"
  by (simp add: conn_ok_def)

lemma srv_inv_connect:
  assumes inv: "srv_inv lib secret s" and fresh: "srv_conns s c = None"
    and reg: "serve_hello lib secret now msg c (srv_hub s) = Registered p h ok"
  shows "srv_inv lib secret (put_conn c (greeting_conn c p ok) (put_hub h s))"
proof -
  note r = serve_hello_Registered[OF reg]
  from r(2) have free: "hub_peers (srv_hub s) (p_id p) = None"
    and h: "h = (srv_hub s)\<lparr>hub_peers := (hub_peers (srv_hub s))(p_id p \<mapsto> c)\<rparr>"
    by (auto simp: register_def split: option.splits)
  have own: "owner (put_conn c (greeting_conn c p ok) (put_hub h s)) = (owner s)(c \<mapsto> p_id p)"
    by (simp add: owner_put_conn greeting_conn_def live_def)
  have none: "owner s c = None" using fresh by (simp add: owner_def)
  have "hub_inv h" using inv hub_inv_register[OF _ r(2)] by (simp add: srv_inv_alt)
  moreover have "hub_peers h pid = Some d \<longleftrightarrow> ((owner s)(c \<mapsto> p_id p)) d = Some pid" for pid d
    using free none srv_inv_owner[OF inv, of d "p_id p"] srv_inv_owner[OF inv, of d pid]
    unfolding h by (cases "d = c"; cases "pid = p_id p") auto
  moreover have "conn_ok lib secret (greeting_conn c p ok)"
    using r(1) by (rule conn_ok_new) (simp add: greeting_conn_def)
  ultimately show ?thesis
    using inv by (auto simp: srv_inv_alt own)
qed

lemma srv_inv_refuse:
  assumes inv: "srv_inv lib secret s" and fresh: "srv_conns s c = None"
    and dup: "serve_hello lib secret now msg c (srv_hub s) = DuplicatePeer p err"
  shows "srv_inv lib secret (put_conn c (refused_conn p err) s)"
proof -
  have "conn_ok lib secret (refused_conn p err)"
    using serve_hello_Duplicate(1)[OF dup] by (rule conn_ok_new) (simp add: refused_conn_def)
  moreover have "owner (put_conn c (refused_conn p err) s) = owner s"
    using fresh by (auto simp: owner_put_conn refused_conn_def live_def owner_def fun_eq_iff)
  ultimately show ?thesis
    using inv by (auto simp: srv_inv_alt)
qed

lemma srv_inv_unregister:
  assumes inv: "srv_inv lib secret s" and k: "srv_conns s c = Some k" "c_phase k = Running"
    and ord: "enumerates order (hub_sessions (srv_hub s))"
    and un: "unregister order (p_id (c_peer k)) (srv_hub s) = (h, sends)"
  shows "srv_inv lib secret (put_conn c (k\<lparr>c_phase := Leaving, c_todo := sends\<rparr>) (put_hub h s))"
proof -
  let ?pid = "p_id (c_peer k)"
  have reg: "hub_peers (srv_hub s) ?pid = Some c"
    using srv_inv_registered[OF inv k(1)] k(2) by (simp add: live_def)
  have own: "owner (put_conn c (k\<lparr>c_phase := Leaving, c_todo := sends\<rparr>) (put_hub h s)) = (owner s)(c := None)"
    by (simp add: owner_put_conn live_def)
  have ps: "hub_peers h = (hub_peers (srv_hub s))(?pid := None)"
    using hub_peers_unregister[of order ?pid "srv_hub s"] un by simp
  have "hub_inv h"
    using hub_inv_unregister[OF _ ord, of ?pid] inv un by (simp add: srv_inv_alt)
  moreover have "hub_peers h pid = Some d \<longleftrightarrow> ((owner s)(c := None)) d = Some pid" for pid d
    using reg srv_inv_owner[OF inv, of d ?pid] srv_inv_owner[OF inv, of c ?pid] srv_inv_owner[OF inv, of d pid]
    unfolding ps by (cases "d = c"; cases "pid = ?pid") auto
  moreover have "conn_ok lib secret (k\<lparr>c_phase := Leaving, c_todo := sends\<rparr>)"
    using srv_inv_conn[OF inv k(1)] by (rule conn_ok_same_peer) simp
  ultimately show ?thesis
    using inv by (auto simp: srv_inv_alt own)
qed

lemma srv_inv_step:
  assumes "srv_step lib secret s t" and "srv_inv lib secret s"
  shows "srv_inv lib secret t"
  using assms
proof (induction rule: srv_step.induct)
  case (SendOne s c k q m rest)
  have "srv_inv lib secret (put_conn c (k\<lparr>c_todo := rest\<rparr>) s)"
    using SendOne srv_inv_conn[OF SendOne.prems SendOne.hyps(1)]
    by (intro srv_inv_put_conn[OF SendOne.prems SendOne.hyps(1)]) (auto simp: conn_ok_def)
  then show ?case by (rule srv_inv_send_to)
next
  case (Read s c k uuid msg h sends)
  have "hub_peers h = hub_peers (srv_hub s)" "hub_inv h"
    using read_round_hub[OF Read.hyps(5)] srv_inv_registered[OF Read.prems Read.hyps(1)] Read
    by (auto simp: live_def srv_inv_alt)
  then have "srv_inv lib secret (put_hub h s)" by (intro srv_inv_put_hub Read.prems)
  then show ?case
    using Read srv_inv_conn[OF Read.prems Read.hyps(1)]
    by (intro srv_inv_put_conn[where k = k]) (auto simp: conn_ok_def)
next
  case (Write s c k ev p' fs go)
  then show ?case
    using write_round_peer[OF Write.hyps(5)] srv_inv_conn[OF Write.prems Write.hyps(1)]
    by (intro srv_inv_put_conn[OF Write.prems Write.hyps(1)]) (auto simp: conn_ok_def)
next
  case (Start s c k)
  then show ?case
    using srv_inv_conn[OF Start.prems Start.hyps(1)]
    by (intro srv_inv_put_conn[OF Start.prems Start.hyps(1)]) (auto simp: conn_ok_def live_def)
next
  case (ReadEnd s c k)
  then show ?case
    using srv_inv_conn[OF ReadEnd.prems ReadEnd.hyps(1)]
    by (intro srv_inv_put_conn[OF ReadEnd.prems ReadEnd.hyps(1)]) (auto simp: conn_ok_def)
next
  case (Cancel s c k)
  then show ?case
    using srv_inv_conn[OF Cancel.prems Cancel.hyps(1)]
    by (intro srv_inv_put_conn[OF Cancel.prems Cancel.hyps(1)]) (auto simp: conn_ok_def)
next
  case (Leave s c k)
  then show ?case
    using srv_inv_conn[OF Leave.prems Leave.hyps(1)]
    by (intro srv_inv_put_conn[OF Leave.prems Leave.hyps(1)]) (auto simp: conn_ok_def live_def)
qed (blast intro: srv_inv_connect srv_inv_refuse srv_inv_unregister)+

lemma srv_reach_inv: "srv_reach lib secret ice s \<Longrightarrow> srv_inv lib secret s"
  by (induction rule: srv_reach.induct) (auto intro: srv_inv_init srv_inv_step)

section \<open>A run of two clients\<close>

text \<open>
  Clients \<open>a\<close> and \<open>b\<close> connect; \<open>a\<close> is greeted and opens a session with \<open>b\<close>
  while \<open>b\<close>'s own goroutine has registered it but not yet queued its \<open>hello.ok\<close>.
  The states of this run serve the witnesses.
\<close>

definition run_claims :: "string \<Rightarrow> claims" where
  "run_claims sub = \<lparr>cl_role = RoleUser, cl_subject = sub, cl_issued_at = Some 0, cl_expires_at = Some 3600, cl_issuer = Issuer\<rparr>"

definition run_jwt :: jwt_lib where
  "run_jwt = table_jwt [(''ta'', SigningMethodHS256, run_claims ''a'', ''key''),
                        (''tb'', SigningMethodHS256, run_claims ''b'', ''key'')]"

lemma run_jwt_contract: "jwt_contract run_jwt"
  unfolding run_jwt_def by (rule table_jwt_contract) simp

lemma run_verify:
  "verify run_jwt ''key'' 0 ''ta'' = Inr (run_claims ''a'')" "verify run_jwt ''key'' 0 ''tb'' = Inr (run_claims ''b'')"
  by (simp_all add: verify_def run_jwt_def table_jwt_def verifier_key_def SigningMethodHS256_def run_claims_def
      unexpired_def second_def)

definition hello_frame :: "string \<Rightarrow> go_error + json" where
  "hello_frame tok = Inr (encode_hello \<lparr>hello_kind = KindHello, hello_token = tok\<rparr>)"

lemma acceptHello_frame:
  "verify lib secret now tok = Inr c \<Longrightarrow>
     acceptHello lib secret now (hello_frame tok) = Inr (newPeer (cl_subject c) (cl_role c))"
  by (simp add: acceptHello_def hello_frame_def envelope_of_client client_roundtrips)

definition run_ok :: "string \<Rightarrow> out_msg" where
  "run_ok n = HelloOK \<lparr>hok_kind = KindHelloOK, hok_self = n\<rparr>"

definition run_peer :: "string \<Rightarrow> out_msg list \<Rightarrow> peer" where
  "run_peer n q = \<lparr>p_id = n, p_role = RoleUser, p_send = q, p_closed = False\<rparr>"

definition run_conn :: "string \<Rightarrow> phase \<Rightarrow> out_msg list \<Rightarrow> (nat \<times> out_msg) list \<Rightarrow> conn" where
  "run_conn n ph q td = \<lparr>c_peer = run_peer n q, c_phase = ph, c_todo = td, c_reading = (ph = Running),
     c_writing = (ph = Running), c_cancelled = False, c_wire = []\<rparr>"

definition run_hub :: "(peer_id \<rightharpoonup> nat) \<Rightarrow> (session_id \<rightharpoonup> session) \<Rightarrow> nat hub" where
  "run_hub ps ss = \<lparr>hub_ice = Some [], hub_peers = ps, hub_sessions = ss\<rparr>"

definition run_session :: session where
  "run_session = \<lparr>s_id = ''s_1'', s_initiator = ''a'', s_target = ''b''\<rparr>"

definition run_ack :: "string \<Rightarrow> bool \<Rightarrow> out_msg" where
  "run_ack other i = session_ack ''s_1'' other (Some []) i"

definition run_names :: "peer_id \<rightharpoonup> nat" where
  "run_names = [''a'' \<mapsto> 2, ''b'' \<mapsto> 3]"

definition run_links :: "session_id \<rightharpoonup> session" where
  "run_links = [''s_1'' \<mapsto> run_session]"

definition two :: "(session_id \<rightharpoonup> session) \<Rightarrow> conn \<Rightarrow> conn \<Rightarrow> server" where
  "two ss ka kb = \<lparr>srv_hub = run_hub run_names ss, srv_conns = [2 \<mapsto> ka, 3 \<mapsto> kb]\<rparr>"

lemma two_simps:
  "srv_conns (two ss ka kb) 2 = Some ka" "srv_conns (two ss ka kb) 3 = Some kb"
  "srv_hub (two ss ka kb) = run_hub run_names ss"
  "put_conn 2 k (two ss ka kb) = two ss k kb" "put_conn 3 k (two ss ka kb) = two ss ka k"
  "put_hub (run_hub run_names ss') (two ss ka kb) = two ss' ka kb"
  "send_to 2 m (two ss ka kb) = two ss (ka\<lparr>c_peer := send_msg m (c_peer ka)\<rparr>) kb"
  "send_to 3 m (two ss ka kb) = two ss ka (kb\<lparr>c_peer := send_msg m (c_peer kb)\<rparr>)"
  by (simp_all add: two_def put_conn_def put_hub_def send_to_def run_hub_def fun_upd_twist)

lemma run_conn_simps:
  "c_phase (run_conn n ph q td) = ph" "c_todo (run_conn n ph q td) = td"
  "c_peer (run_conn n ph q td) = run_peer n q" "c_reading (run_conn n ph q td) = (ph = Running)"
  "(run_conn n ph q td)\<lparr>c_todo := td'\<rparr> = run_conn n ph q td'"
  "(run_conn n ph q td)\<lparr>c_peer := run_peer n q'\<rparr> = run_conn n ph q' td"
  "(run_conn n Greeting q td)\<lparr>c_phase := Running, c_reading := True, c_writing := True\<rparr> = run_conn n Running q td"
  "length q < 32 \<Longrightarrow> send_msg m (run_peer n q) = run_peer n (q @ [m])"
  "p_id (run_peer n q) = n" "p_send (run_peer n q) = q" "p_closed (run_peer n q) = False"
  by (simp_all add: run_conn_def run_peer_def send_msg_def sendQueueSize_def)

lemma run_hello:
  "verify run_jwt ''key'' 0 tok = Inr (run_claims n) \<Longrightarrow> ps n = None \<Longrightarrow>
     serve_hello run_jwt ''key'' 0 (hello_frame tok) c (run_hub ps ss)
       = Registered (run_peer n []) (run_hub (ps(n \<mapsto> c)) ss) (run_ok n)"
  by (simp add: serve_hello_def acceptHello_frame register_def run_hub_def run_peer_def newPeer_def run_claims_def
      run_ok_def)

lemma greeting_run: "greeting_conn c (run_peer n []) (run_ok n) = run_conn n Greeting [] [(c, run_ok n)]"
  by (simp add: greeting_conn_def run_conn_def)

abbreviation run_step :: "server \<Rightarrow> server \<Rightarrow> bool" where
  "run_step \<equiv> srv_step run_jwt ''key''"

text \<open>A step that leaves the session table alone.\<close>

definition run_quiet :: "server \<Rightarrow> server \<Rightarrow> bool" where
  "run_quiet s t \<longleftrightarrow> run_step s t \<and> hub_sessions (srv_hub t) = hub_sessions (srv_hub s)"

definition run_first :: server where
  "run_first = \<lparr>srv_hub = run_hub [''a'' \<mapsto> 2] Map.empty, srv_conns = [2 \<mapsto> run_conn ''a'' Greeting [] [(2, run_ok ''a'')]]\<rparr>"

definition run_second :: server where
  "run_second = two Map.empty (run_conn ''a'' Greeting [] [(2, run_ok ''a'')]) (run_conn ''b'' Greeting [] [(3, run_ok ''b'')])"

lemma run_init: "init_server None = \<lparr>srv_hub = run_hub Map.empty Map.empty, srv_conns = Map.empty\<rparr>"
  by (simp add: init_server_def new_hub_def run_hub_def Let_def)

lemma run_connects: "run_quiet (init_server None) run_first" "run_quiet run_first run_second"
proof -
  let ?a = "run_conn ''a'' Greeting [] [(2, run_ok ''a'')]" and ?b = "run_conn ''b'' Greeting [] [(3, run_ok ''b'')]"
  have "run_step (init_server None) (put_conn 2 ?a (put_hub (run_hub [''a'' \<mapsto> 2] Map.empty) (init_server None)))"
    unfolding greeting_run[symmetric, where c = 2]
    by (rule Connect[where msg = "hello_frame ''ta''" and now = 0]) (simp_all add: run_init run_hello[OF run_verify(1)])
  then show "run_quiet (init_server None) run_first"
    by (simp add: run_quiet_def run_init run_first_def put_conn_def put_hub_def run_hub_def)
  have "run_step run_first (put_conn 3 ?b (put_hub (run_hub ([''a'' \<mapsto> 2](''b'' \<mapsto> 3)) Map.empty) run_first))"
    unfolding greeting_run[symmetric, where c = 3]
    by (rule Connect[where msg = "hello_frame ''tb''" and now = 0])
      (simp_all add: run_first_def run_hello[OF run_verify(2)])
  then show "run_quiet run_first run_second"
    by (simp add: run_quiet_def run_first_def run_second_def put_conn_def put_hub_def two_def run_names_def run_hub_def)
qed

lemma run_request:
  "read_round ''1'' 2 ''a'' (run_hub run_names Map.empty)
      (Inr (encode_session_req \<lparr>sreq_kind = KindSessionReq, sreq_peer = ''b''\<rparr>))
    = Some (run_hub run_names run_links, [(2, run_ack ''b'' True), (3, run_ack ''a'' False)])"
  by (simp add: read_round_kind[OF envelope_of_client(2)] dispatch_session_req_encoded open_session_def Let_def
      IceServers_def run_hub_def run_names_def run_links_def run_session_def run_ack_def)

definition run_final :: server where
  "run_final = two run_links (run_conn ''a'' Running [run_ok ''a'', run_ack ''b'' True] [])
                             (run_conn ''b'' Greeting [run_ack ''a'' False, run_ok ''b''] [])"

lemma run_send_a:
  "length q < 32 \<Longrightarrow> run_quiet (two ss (run_conn n ph q ((2, m) # td)) kb) (two ss (run_conn n ph (q @ [m]) td) kb)"
  using SendOne[OF two_simps(1), of "run_conn n ph q ((2, m) # td)" 2 m td _ _ ss kb]
  by (simp add: run_quiet_def two_simps run_conn_simps)

lemma run_send_b_of_a:
  "length q' < 32 \<Longrightarrow> run_quiet (two ss (run_conn n ph q ((3, m) # td)) (run_conn n' ph' q' td'))
     (two ss (run_conn n ph q td) (run_conn n' ph' (q' @ [m]) td'))"
  using SendOne[OF two_simps(1), of "run_conn n ph q ((3, m) # td)" 3 m td _ _ ss "run_conn n' ph' q' td'"]
  by (simp add: run_quiet_def two_simps run_conn_simps)

lemma run_send_b:
  "length q < 32 \<Longrightarrow> run_quiet (two ss ka (run_conn n ph q ((3, m) # td))) (two ss ka (run_conn n ph (q @ [m]) td))"
  using SendOne[OF two_simps(2), of "run_conn n ph q ((3, m) # td)" 3 m td _ _ ss ka]
  by (simp add: run_quiet_def two_simps run_conn_simps)

lemma run_start_a: "run_quiet (two ss (run_conn n Greeting q []) kb) (two ss (run_conn n Running q []) kb)"
  using Start[OF two_simps(1), of "run_conn n Greeting q []" _ _ ss kb]
  by (simp add: run_quiet_def two_simps run_conn_simps)

lemma run_read_a:
  "read_round uuid 2 n (run_hub run_names ss) msg = Some (run_hub run_names ss', sends) \<Longrightarrow>
     run_step (two ss (run_conn n Running q []) kb) (two ss' (run_conn n Running q sends) kb)"
  using Read[OF two_simps(1), of "run_conn n Running q []" uuid ss kb msg "run_hub run_names ss'" sends]
  by (simp add: two_simps run_conn_simps)

text \<open>Up to \<open>a\<close>'s request, the request, and what follows.\<close>

definition run_ready :: server where
  "run_ready = two Map.empty (run_conn ''a'' Running [run_ok ''a''] []) (run_conn ''b'' Greeting [] [(3, run_ok ''b'')])"

definition run_opened :: server where
  "run_opened = two run_links (run_conn ''a'' Running [run_ok ''a''] [(2, run_ack ''b'' True), (3, run_ack ''a'' False)])
     (run_conn ''b'' Greeting [] [(3, run_ok ''b'')])"

lemma run_parts: "run_quiet\<^sup>*\<^sup>* (init_server None) run_ready" "run_step run_ready run_opened" "run_quiet\<^sup>*\<^sup>* run_opened run_final"
proof -
  let ?b = "run_conn ''b'' Greeting [] [(3, run_ok ''b'')]"
  have "run_quiet run_second (two Map.empty (run_conn ''a'' Greeting [run_ok ''a''] []) ?b)"
    using run_send_a[of "[]"] by (simp add: run_second_def)
  moreover have "run_quiet (two Map.empty (run_conn ''a'' Greeting [run_ok ''a''] []) ?b) run_ready"
    unfolding run_ready_def by (rule run_start_a)
  ultimately show "run_quiet\<^sup>*\<^sup>* (init_server None) run_ready"
    using run_connects by (meson converse_rtranclp_into_rtranclp rtranclp.rtrancl_refl)
  show "run_step run_ready run_opened" unfolding run_ready_def run_opened_def by (rule run_read_a[OF run_request])
  let ?a = "run_conn ''a'' Running [run_ok ''a'', run_ack ''b'' True]"
  have "run_quiet run_opened (two run_links (?a [(3, run_ack ''a'' False)]) ?b)"
    using run_send_a[of "[run_ok ''a'']"] by (simp add: run_opened_def)
  moreover have "run_quiet (two run_links (?a [(3, run_ack ''a'' False)]) ?b)
      (two run_links (?a []) (run_conn ''b'' Greeting [run_ack ''a'' False] [(3, run_ok ''b'')]))"
    using run_send_b_of_a[of "[]"] by simp
  moreover have "run_quiet (two run_links (?a []) (run_conn ''b'' Greeting [run_ack ''a'' False] [(3, run_ok ''b'')])) run_final"
    using run_send_b[of "[run_ack ''a'' False]"] by (simp add: run_final_def)
  ultimately show "run_quiet\<^sup>*\<^sup>* run_opened run_final"
    by (meson converse_rtranclp_into_rtranclp rtranclp.rtrancl_refl)
qed

lemma run_reaches_final: "srv_reach run_jwt ''key'' None run_final"
proof -
  have quiet: "run_quiet\<^sup>*\<^sup>* s t \<Longrightarrow> srv_reach run_jwt ''key'' None s \<Longrightarrow> srv_reach run_jwt ''key'' None t" for s t
    by (induction rule: rtranclp_induct) (auto simp: run_quiet_def intro: reach_step)
  show ?thesis using quiet[OF run_parts(3)] quiet[OF run_parts(1) reach_init] run_parts(2) reach_step by blast
qed

section \<open>Connections only move forward\<close>

fun frame_data :: "frame \<Rightarrow> json list" where
  "frame_data (DataFrame j) = [j]"
| "frame_data PingFrame = []"

text \<open>What the client has been sent, followed by what waits to be sent.\<close>

definition outstream :: "conn \<Rightarrow> json list" where
  "outstream k = concat (map frame_data (c_wire k)) @ map encode_out (p_send (c_peer k))"

definition moves_to :: "conn \<Rightarrow> conn \<Rightarrow> bool" where
  "moves_to k k' \<longleftrightarrow>
     p_id (c_peer k') = p_id (c_peer k) \<and> p_role (c_peer k') = p_role (c_peer k) \<and>
     c_phase k \<le> c_phase k' \<and> (c_cancelled k \<longrightarrow> c_cancelled k') \<and>
     prefix (c_wire k) (c_wire k') \<and>
     (p_closed (c_peer k') \<or> \<not> p_closed (c_peer k) \<and> prefix (outstream k) (outstream k'))"

lemma moves_to_refl: "moves_to k k"
  by (auto simp: moves_to_def)

lemma moves_to_trans: "moves_to a b \<Longrightarrow> moves_to b c \<Longrightarrow> moves_to a c"
  by (auto simp: moves_to_def intro: prefix_order.trans order.trans)

lemma moves_to_send: "moves_to k (k\<lparr>c_peer := send_msg m (c_peer k)\<rparr>)"
  by (auto simp: moves_to_def send_msg_def close_peer_def outstream_def)

lemma moves_to_local [simp]:
  "moves_to k (k\<lparr>c_todo := td\<rparr>)"
  "moves_to k (k\<lparr>c_cancelled := True\<rparr>)"
  "moves_to k (k\<lparr>c_reading := r, c_cancelled := True\<rparr>)"
  "c_phase k \<le> ph \<Longrightarrow> moves_to k (k\<lparr>c_phase := ph\<rparr>)"
  "c_phase k \<le> ph \<Longrightarrow> moves_to k (k\<lparr>c_phase := ph, c_todo := td\<rparr>)"
  "c_phase k \<le> ph \<Longrightarrow> moves_to k (k\<lparr>c_phase := ph, c_reading := r, c_writing := w\<rparr>)"
  by (auto simp: moves_to_def outstream_def)

lemma moves_to_write:
  assumes "write_round ev (c_peer k) = Some (p', fs, go)"
  shows "moves_to k (k\<lparr>c_peer := p', c_wire := c_wire k @ fs, c_writing := go\<rparr>)"
  using assms write_round_peer[OF assms]
  by (cases ev) (auto simp: moves_to_def outstream_def recv_msg_def close_peer_def split: list.splits if_splits)

lemma put_conn_moves:
  "srv_conns s d = Some k0 \<Longrightarrow> (d = c \<Longrightarrow> moves_to k0 k) \<Longrightarrow>
     \<exists>k'. srv_conns (put_conn c k s) d = Some k' \<and> moves_to k0 k'"
  by (auto simp: moves_to_refl)

lemma phase_order [simp]:
  "Greeting \<le> ph" "Running \<le> Leaving" "Running \<le> Gone" "Leaving \<le> Gone" "ph \<le> Gone" "\<not> Running \<le> Greeting"
  "\<not> Leaving \<le> Running" "\<not> Gone \<le> Leaving"
  by (cases ph; simp add: less_eq_phase_def)+

lemma send_to_moves:
  "srv_conns s d = Some k0 \<Longrightarrow> \<exists>k'. srv_conns (send_to q m s) d = Some k' \<and> moves_to k0 k'"
  by (auto simp: send_to_conns moves_to_refl moves_to_send)

lemma srv_step_moves:
  assumes "srv_step lib secret s t" and "srv_conns s d = Some k0"
  shows "\<exists>k'. srv_conns t d = Some k' \<and> moves_to k0 k'"
  using assms
proof (induction rule: srv_step.induct)
  case (SendOne s c k q m rest)
  have "\<exists>k'. srv_conns (put_conn c (k\<lparr>c_todo := rest\<rparr>) s) d = Some k' \<and> moves_to k0 k'"
    using SendOne by (intro put_conn_moves) auto
  then obtain k1 where "srv_conns (put_conn c (k\<lparr>c_todo := rest\<rparr>) s) d = Some k1" and "moves_to k0 k1"
    by blast
  then show ?case using send_to_moves moves_to_trans by blast
next
  case (Write s c k ev p' fs go)
  then show ?case by (intro put_conn_moves) (auto simp: moves_to_write)
qed (rule put_conn_moves; auto)+

lemma srv_steps_move:
  assumes "rtranclp (srv_step lib secret) s t" and "srv_conns s d = Some k0"
  shows "\<exists>k'. srv_conns t d = Some k' \<and> moves_to k0 k'"
  using assms
proof (induction rule: rtranclp_induct)
  case base
  then show ?case by (auto simp: moves_to_refl)
next
  case (step t u)
  then show ?case by (meson srv_step_moves moves_to_trans)
qed

section \<open>Every connection can end\<close>

abbreviation srv_steps :: "jwt_lib \<Rightarrow> string \<Rightarrow> server \<Rightarrow> server \<Rightarrow> bool" where
  "srv_steps lib secret \<equiv> rtranclp (srv_step lib secret)"

text \<open>The progress of a connection's own goroutines, apart from the peer's queue.\<close>

definition conn_status :: "conn \<Rightarrow> phase \<times> bool \<times> bool \<times> bool \<times> peer_id" where
  "conn_status k = (c_phase k, c_reading k, c_writing k, c_cancelled k, p_id (c_peer k))"

lemma conn_status_sends:
  "srv_conns s c = Some k \<Longrightarrow>
     \<exists>k'. srv_conns (send_to q m (put_conn c (k\<lparr>c_todo := rest\<rparr>) s)) c = Some k' \<and>
          c_todo k' = rest \<and> conn_status k' = conn_status k"
  by (auto simp: send_to_conns conn_status_def)

lemma drain_todo:
  "srv_conns s c = Some k \<Longrightarrow>
     \<exists>t k'. srv_steps lib secret s t \<and> srv_hub t = srv_hub s \<and> srv_conns t c = Some k' \<and>
            c_todo k' = [] \<and> conn_status k' = conn_status k"
proof (induction "c_todo k" arbitrary: s k)
  case Nil
  then show ?case by (intro exI[of _ s] exI[of _ k]) simp
next
  case (Cons qm rest)
  obtain q m where qm: "qm = (q, m)" by (cases qm)
  let ?u = "send_to q m (put_conn c (k\<lparr>c_todo := rest\<rparr>) s)"
  have step: "srv_step lib secret s ?u"
    using Cons.hyps(2) unfolding qm by (intro SendOne[OF Cons.prems]) simp
  obtain k1 where k1: "srv_conns ?u c = Some k1" "c_todo k1 = rest" "conn_status k1 = conn_status k"
    using conn_status_sends[OF Cons.prems] by blast
  obtain t k' where "srv_steps lib secret ?u t" "srv_hub t = srv_hub ?u" "srv_conns t c = Some k'"
    "c_todo k' = []" "conn_status k' = conn_status k1"
    using Cons.hyps(1)[OF _ k1(1)] k1(2) by auto
  with k1(3) show ?case
    using converse_rtranclp_into_rtranclp[where r = "srv_step lib secret", OF step]
    by (intro exI[of _ t] exI[of _ k']) auto
qed

lemma end_loops:
  assumes "srv_conns s c = Some k" and "c_phase k = Running" and "c_todo k = []"
  shows "\<exists>t k'. srv_steps lib secret s t \<and> srv_hub t = srv_hub s \<and> srv_conns t c = Some k' \<and> c_todo k' = [] \<and>
           conn_status k' = (Running, False, False, True, p_id (c_peer k))"
proof -
  let ?k1 = "k\<lparr>c_reading := False, c_cancelled := True\<rparr>"
  let ?s1 = "put_conn c ?k1 s"
  have 1: "srv_step lib secret s ?s1"
  proof (cases "c_reading k")
    case True
    then show ?thesis by (rule ReadEnd[OF assms(1,2) _ assms(3)])
  next
    case False
    then have "k\<lparr>c_cancelled := True\<rparr> = ?k1" by simp
    with Cancel[OF assms(1,2), of lib secret] show ?thesis by simp
  qed
  show ?thesis
  proof (cases "c_writing k")
    case True
    let ?k2 = "?k1\<lparr>c_peer := c_peer ?k1, c_wire := c_wire ?k1 @ [], c_writing := False\<rparr>"
    have "srv_step lib secret ?s1 (put_conn c ?k2 ?s1)"
      by (rule Write[where ev = CtxDone]) (use assms True in auto)
    with 1 have "srv_steps lib secret s (put_conn c ?k2 ?s1)" by simp
    then show ?thesis
      using assms by (intro exI[of _ "put_conn c ?k2 ?s1"] exI[of _ ?k2]) (simp add: conn_status_def)
  next
    case False
    with 1 assms show ?thesis by (intro exI[of _ ?s1] exI[of _ ?k1]) (auto simp: conn_status_def)
  qed
qed

lemma enumerates_exists: "hub_inv h \<Longrightarrow> \<exists>order. enumerates order (hub_sessions h)"
  using finite_distinct_list[of "dom (hub_sessions h)"] by (auto simp: hub_inv_def enumerates_def)

lemma end_unregister:
  assumes "hub_inv (srv_hub s)" and "srv_conns s c = Some k" and "c_todo k = []"
    and "conn_status k = (Running, False, False, True, pid)"
  shows "\<exists>t k'. srv_step lib secret s t \<and> srv_conns t c = Some k' \<and> c_phase k' = Leaving \<and>
           hub_peers (srv_hub t) pid = None \<and>
           (\<forall>sid r. hub_sessions (srv_hub t) sid = Some r \<longrightarrow> \<not> touches pid r)"
proof -
  from assms(4) have st: "c_phase k = Running" "\<not> c_reading k" "\<not> c_writing k" "c_cancelled k" "p_id (c_peer k) = pid"
    by (auto simp: conn_status_def)
  obtain order where o: "enumerates order (hub_sessions (srv_hub s))"
    using enumerates_exists[OF assms(1)] by blast
  obtain h sends where un: "unregister order pid (srv_hub s) = (h, sends)" by (cases "unregister order pid (srv_hub s)")
  have "srv_step lib secret s (put_conn c (k\<lparr>c_phase := Leaving, c_todo := sends\<rparr>) (put_hub h s))"
    by (rule Unregister[OF assms(2) st(1,4,2,3) assms(3) o]) (simp add: st(5) un)
  moreover have "hub_peers h pid = None" using hub_peers_unregister[of order pid "srv_hub s"] un by simp
  moreover have "hub_sessions h = drop_sessions pid (hub_sessions (srv_hub s))"
    using un unregister_locked_eq[OF o, of pid] by (auto simp: unregister_def)
  ultimately show ?thesis by fastforce
qed

lemma leave_now:
  assumes "srv_conns s c = Some k" and "c_phase k = Leaving"
  shows "\<exists>t k'. srv_steps lib secret s t \<and> srv_hub t = srv_hub s \<and> srv_conns t c = Some k' \<and> c_phase k' = Gone"
proof -
  obtain t k1 where t: "srv_steps lib secret s t" "srv_hub t = srv_hub s" and k1: "srv_conns t c = Some k1" "c_todo k1 = []"
    and "conn_status k1 = conn_status k"
    using drain_todo[OF assms(1)] by blast
  then have "c_phase k1 = Leaving" using assms(2) by (simp add: conn_status_def)
  from Leave[OF k1(1) this k1(2), of lib secret]
  have "srv_steps lib secret s (put_conn c (k1\<lparr>c_phase := Gone\<rparr>) t)" using t(1) by (simp add: rtranclp.rtrancl_into_rtrancl)
  then show ?thesis using t(2) by (intro exI[of _ "put_conn c (k1\<lparr>c_phase := Gone\<rparr>) t"]) simp
qed

lemma get_running:
  assumes "srv_conns s c = Some k" and "live k"
  shows "\<exists>t k'. srv_steps lib secret s t \<and> srv_hub t = srv_hub s \<and> srv_conns t c = Some k' \<and> c_todo k' = [] \<and>
           c_phase k' = Running \<and> p_id (c_peer k') = p_id (c_peer k)"
proof -
  obtain t k1 where t: "srv_steps lib secret s t" "srv_hub t = srv_hub s" and k1: "srv_conns t c = Some k1" "c_todo k1 = []"
    and st: "conn_status k1 = conn_status k"
    using drain_todo[OF assms(1)] by blast
  from st have id: "p_id (c_peer k1) = p_id (c_peer k)" "c_phase k1 = c_phase k" by (simp_all add: conn_status_def)
  show ?thesis
  proof (cases "c_phase k = Running")
    case True
    with t k1 id show ?thesis by (intro exI[of _ t] exI[of _ k1]) simp
  next
    case False
    with assms(2) id have "c_phase k1 = Greeting" by (simp add: live_def)
    let ?k2 = "k1\<lparr>c_phase := Running, c_reading := True, c_writing := True\<rparr>"
    have "srv_step lib secret t (put_conn c ?k2 t)" by (rule Start) fact+
    with t(1) have "srv_steps lib secret s (put_conn c ?k2 t)" by (simp add: rtranclp.rtrancl_into_rtrancl)
    with t(2) k1 id show ?thesis by (intro exI[of _ "put_conn c ?k2 t"] exI[of _ ?k2]) simp
  qed
qed

section \<open>Properties\<close>

lemma run_final_conns:
  "srv_conns run_final 2 = Some (run_conn ''a'' Running [run_ok ''a'', run_ack ''b'' True] [])"
  "srv_conns run_final 3 = Some (run_conn ''b'' Greeting [run_ack ''a'' False, run_ok ''b''] [])"
  "srv_hub run_final = run_hub run_names run_links"
  by (simp_all add: run_final_def two_simps)

text \<open>
  C9: in every state the server can reach, each session in the hub's table links two names
  under which two connections are registered that are between registering and unregistering,
  and those connections' peers carry exactly these names.
\<close>

theorem sessions_link_live_connections:
  assumes "srv_reach lib secret ice s" and "hub_sessions (srv_hub s) sid = Some r"
  shows "\<exists>c k d l. srv_conns s c = Some k \<and> live k \<and> p_id (c_peer k) = s_initiator r \<and>
                   srv_conns s d = Some l \<and> live l \<and> p_id (c_peer l) = s_target r \<and>
                   other_peer sid (s_initiator r) (srv_hub s) = Inr d"
proof -
  note inv = srv_reach_inv[OF assms(1)]
  have "hub_peers (srv_hub s) (s_initiator r) \<noteq> None" "hub_peers (srv_hub s) (s_target r) \<noteq> None"
    using inv assms(2) by (auto simp: srv_inv_alt hub_inv_def)
  then obtain c d where cd: "hub_peers (srv_hub s) (s_initiator r) = Some c" "hub_peers (srv_hub s) (s_target r) = Some d"
    by auto
  then have "owner s c = Some (s_initiator r)" "owner s d = Some (s_target r)"
    by (simp_all add: srv_inv_owner[OF inv])
  moreover have "other_peer sid (s_initiator r) (srv_hub s) = Inr d"
    using assms(2) cd by (simp add: other_peer_def)
  ultimately show ?thesis by (auto simp: owner_def split: option.splits if_splits)
qed

theorem sessions_link_live_connections_witness:
  "\<exists>c k d l. srv_conns run_final c = Some k \<and> live k \<and> p_id (c_peer k) = ''a'' \<and>
             srv_conns run_final d = Some l \<and> live l \<and> p_id (c_peer l) = ''b'' \<and>
             other_peer ''s_1'' ''a'' (srv_hub run_final) = Inr d"
  using sessions_link_live_connections[OF run_reaches_final, of "''s_1''" run_session]
  by (simp add: run_final_conns run_hub_def run_links_def run_session_def)

text \<open>
  At most one connection at a time is registered under a name, and the hub's entry for
  that name is that connection: two connections in service with the same peer id are the same.
\<close>

theorem one_connection_per_name:
  assumes "srv_reach lib secret ice s"
    and "srv_conns s c = Some k" and "live k" and "srv_conns s d = Some l" and "live l"
    and "p_id (c_peer k) = p_id (c_peer l)"
  shows "c = d \<and> hub_peers (srv_hub s) (p_id (c_peer k)) = Some c"
  using srv_inv_registered[OF srv_reach_inv[OF assms(1)] assms(2,3)]
    srv_inv_registered[OF srv_reach_inv[OF assms(1)] assms(4,5)] assms(6) by simp

theorem one_connection_per_name_witness:
  "hub_peers (srv_hub run_final) ''a'' = Some 2"
  using one_connection_per_name[OF run_reaches_final run_final_conns(1) _ run_final_conns(1)]
  by (simp add: live_def run_conn_simps)

text \<open>
  C10: nobody is in the hub without a token: when the JWT library keeps its contract, every
  name in the hub is the subject of claims signed with an HMAC method under the server's
  secret and unexpired at some time, and the connection's role is the role in those claims.
\<close>

theorem registered_names_were_signed:
  assumes "jwt_contract lib" and "srv_reach lib secret ice s" and "hub_peers (srv_hub s) pid = Some c"
  shows "\<exists>k cl alg raw now. srv_conns s c = Some k \<and> jwt_signed lib (SigningMethodHMAC alg) cl secret raw \<and>
           cl_issuer cl = Issuer \<and> unexpired cl now \<and> cl_subject cl = pid \<and> p_id (c_peer k) = pid \<and>
           p_role (c_peer k) = cl_role cl"
proof -
  note inv = srv_reach_inv[OF assms(2)]
  have "owner s c = Some pid" using assms(3) by (simp add: srv_inv_owner[OF inv])
  then obtain k where k: "srv_conns s c = Some k" "p_id (c_peer k) = pid"
    by (auto simp: owner_def split: option.splits if_splits)
  obtain now raw cl where v: "verify lib secret now raw = Inr cl" "p_id (c_peer k) = cl_subject cl"
    "p_role (c_peer k) = cl_role cl"
    using srv_inv_conn[OF inv k(1)] by (auto simp: conn_ok_def)
  obtain alg where "jwt_signed lib (SigningMethodHMAC alg) cl secret raw" "cl_issuer cl = Issuer" "unexpired cl now"
    using verify_InrD[OF assms(1) v(1)] .
  with k v show ?thesis by metis
qed

theorem registered_names_were_signed_witness:
  "\<exists>k cl alg raw now. srv_conns run_final 3 = Some k \<and> jwt_signed run_jwt (SigningMethodHMAC alg) cl ''key'' raw \<and>
     cl_issuer cl = Issuer \<and> unexpired cl now \<and> cl_subject cl = ''b'' \<and> p_id (c_peer k) = ''b'' \<and>
     p_role (c_peer k) = cl_role cl"
  by (rule registered_names_were_signed[OF run_jwt_contract run_reaches_final])
    (simp add: run_final_conns run_hub_def run_names_def)

text \<open>
  C18: whatever the clients and the scheduler do, a connection's identity and role never
  change, its phase never goes back, a cancelled context stays cancelled, what is on the wire
  stays there, and as long as the peer is not closed nothing that was queued is lost, repeated
  or reordered: the messages written followed by those still queued only grow at the end.
\<close>

theorem connections_only_move_forward:
  assumes "rtranclp (srv_step lib secret) s t" and "srv_conns s c = Some k"
  shows "\<exists>k'. srv_conns t c = Some k' \<and>
    p_id (c_peer k') = p_id (c_peer k) \<and> p_role (c_peer k') = p_role (c_peer k) \<and>
    c_phase k \<le> c_phase k' \<and> (c_cancelled k' \<or> \<not> c_cancelled k) \<and> prefix (c_wire k) (c_wire k') \<and>
    (p_closed (c_peer k') \<or> \<not> p_closed (c_peer k) \<and> prefix (outstream k) (outstream k'))"
  using srv_steps_move[OF assms] by (auto simp: moves_to_def)

lemma run_cancel: "srv_step lib secret run_final (put_conn 2 ((run_conn ''a'' Running [run_ok ''a'', run_ack ''b'' True] [])\<lparr>c_cancelled := True\<rparr>) run_final)"
  by (rule Cancel[OF run_final_conns(1)]) (simp add: run_conn_simps)

theorem connections_only_move_forward_witness:
  "\<exists>t k'. srv_step run_jwt ''key'' run_final t \<and> srv_conns t 3 = Some k' \<and> p_id (c_peer k') = ''b'' \<and>
     (p_closed (c_peer k') \<or> prefix (map encode_out [run_ack ''a'' False, run_ok ''b'']) (outstream k'))"
  using connections_only_move_forward[OF r_into_rtranclp[where r = "srv_step run_jwt ''key''", OF run_cancel] run_final_conns(2)]
    run_cancel[of run_jwt "''key''"]
  by (fastforce simp: outstream_def run_conn_def run_peer_def)



text \<open>
  \<open>hello.ok\<close> need not be the first message a client gets: registering and queueing
  \<open>hello.ok\<close> are two steps, and another client's request can come between them.  There is a
  reachable state in which a connection's queue is a \<open>session.ack\<close> and then its
  \<open>hello.ok\<close>.
\<close>

theorem hello_ok_may_come_second:
  "\<exists>lib secret s c k sid other ice n. jwt_contract lib \<and> srv_reach lib secret None s \<and> srv_conns s c = Some k \<and>
     p_send (c_peer k) = [session_ack sid other ice False, HelloOK \<lparr>hok_kind = KindHelloOK, hok_self = n\<rparr>]"
proof -
  have "p_send (c_peer (run_conn ''b'' Greeting [run_ack ''a'' False, run_ok ''b''] []))
      = [session_ack ''s_1'' ''a'' (Some []) False, HelloOK \<lparr>hok_kind = KindHelloOK, hok_self = ''b''\<rparr>]"
    by (simp add: run_conn_simps run_ack_def run_ok_def)
  with run_jwt_contract run_reaches_final run_final_conns(2) show ?thesis by blast
qed

end
