(* ===== verification/Settle.thy ===== *)
theory Settle
  imports Server
begin

text \<open>
  Shutting the signaling server down: once no client speaks any more and nobody new arrives,
  every run of the server's goroutines ends, whatever the scheduler does, and it ends with an
  empty hub.  The steps of the server are split into inputs (a hello, a message read, a tick of
  the ping timer) and the steps the goroutines take by themselves; a measure falls with each of
  the latter.
\<close>

section \<open>Inputs and settling steps\<close>

text \<open>
  What comes from outside to a connection: its hello, a message, or the ticker's ping, answered.
\<close>

datatype input =
    HelloInput "go_error + json"
  | MessageInput json
  | PingInput

inductive srv_input :: "jwt_lib \<Rightarrow> string \<Rightarrow> nat \<Rightarrow> input \<Rightarrow> server \<Rightarrow> server \<Rightarrow> bool" for lib secret where
  InConnect: "srv_conns s c = None \<Longrightarrow>
     serve_hello lib secret now msg c (srv_hub s) = Registered p h ok \<Longrightarrow>
     srv_input lib secret c (HelloInput msg) s (put_conn c (greeting_conn c p ok) (put_hub h s))"
| InRefuse: "srv_conns s c = None \<Longrightarrow>
     serve_hello lib secret now msg c (srv_hub s) = DuplicatePeer p err \<Longrightarrow>
     srv_input lib secret c (HelloInput msg) s (put_conn c (refused_conn p err) s)"
| InRead: "srv_conns s c = Some k \<Longrightarrow> c_phase k = Running \<Longrightarrow> c_reading k \<Longrightarrow> c_todo k = [] \<Longrightarrow>
     read_round uuid c (p_id (c_peer k)) (srv_hub s) (Inr raw) = Some (h, sends) \<Longrightarrow>
     srv_input lib secret c (MessageInput raw) s (put_conn c (k\<lparr>c_todo := sends\<rparr>) (put_hub h s))"
| InPing: "srv_conns s c = Some k \<Longrightarrow> c_phase k = Running \<Longrightarrow> c_writing k \<Longrightarrow>
     write_round PingOk (c_peer k) = Some (p', fs, go) \<Longrightarrow>
     srv_input lib secret c PingInput s (put_conn c (k\<lparr>c_peer := p', c_wire := c_wire k @ fs, c_writing := go\<rparr>) s)"

text \<open>
  What the goroutines do without them: the sends they owe, entering \<open>run\<close>, the failing read,
  the context that is cancelled (once), a write or a failing ping, unregistering and leaving.
\<close>

inductive srv_settle :: "server \<Rightarrow> server \<Rightarrow> bool" where
  SetSend: "srv_conns s c = Some k \<Longrightarrow> c_todo k = (q, m) # rest \<Longrightarrow>
     srv_settle s (send_to q m (put_conn c (k\<lparr>c_todo := rest\<rparr>) s))"
| SetStart: "srv_conns s c = Some k \<Longrightarrow> c_phase k = Greeting \<Longrightarrow> c_todo k = [] \<Longrightarrow>
     srv_settle s (put_conn c (k\<lparr>c_phase := Running, c_reading := True, c_writing := True\<rparr>) s)"
| SetReadEnd: "srv_conns s c = Some k \<Longrightarrow> c_phase k = Running \<Longrightarrow> c_reading k \<Longrightarrow> c_todo k = [] \<Longrightarrow>
     srv_settle s (put_conn c (k\<lparr>c_reading := False, c_cancelled := True\<rparr>) s)"
| SetCancel: "srv_conns s c = Some k \<Longrightarrow> c_phase k = Running \<Longrightarrow> \<not> c_cancelled k \<Longrightarrow>
     srv_settle s (put_conn c (k\<lparr>c_cancelled := True\<rparr>) s)"
| SetWrite: "srv_conns s c = Some k \<Longrightarrow> c_phase k = Running \<Longrightarrow> c_writing k \<Longrightarrow>
     ev = CtxDone \<longrightarrow> c_cancelled k \<Longrightarrow> ev \<noteq> PingOk \<Longrightarrow> write_round ev (c_peer k) = Some (p', fs, go) \<Longrightarrow>
     srv_settle s (put_conn c (k\<lparr>c_peer := p', c_wire := c_wire k @ fs, c_writing := go\<rparr>) s)"
| SetUnregister: "srv_conns s c = Some k \<Longrightarrow> c_phase k = Running \<Longrightarrow> c_cancelled k \<Longrightarrow>
     \<not> c_reading k \<Longrightarrow> \<not> c_writing k \<Longrightarrow> c_todo k = [] \<Longrightarrow>
     enumerates order (hub_sessions (srv_hub s)) \<Longrightarrow>
     unregister order (p_id (c_peer k)) (srv_hub s) = (h, sends) \<Longrightarrow>
     srv_settle s (put_conn c (k\<lparr>c_phase := Leaving, c_todo := sends\<rparr>) (put_hub h s))"
| SetLeave: "srv_conns s c = Some k \<Longrightarrow> c_phase k = Leaving \<Longrightarrow> c_todo k = [] \<Longrightarrow>
     srv_settle s (put_conn c (k\<lparr>c_phase := Gone\<rparr>) s)"

lemma settle_is_step: "srv_settle s t \<Longrightarrow> srv_step lib secret s t"
proof (induction rule: srv_settle.induct)
  case (SetWrite s c k ev p' fs go)
  then show ?case by (intro srv_step.Write[where ev = ev])
qed (blast intro: srv_step.intros)+

lemma input_is_step: "srv_input lib secret c inp s t \<Longrightarrow> srv_step lib secret s t"
proof (induction rule: srv_input.induct)
  case (InPing s c k p' fs go)
  then show ?case by (intro srv_step.Write[where ev = PingOk]) auto
qed (blast intro: srv_step.intros)+

lemma put_same: "srv_conns s c = Some k \<Longrightarrow> put_conn c k s = s"
  by (simp add: put_conn_def fun_upd_idem)

text \<open>Nothing is left out: every step is one or the other, or cancels again what is cancelled.\<close>

lemma step_split:
  "srv_step lib secret s t \<longleftrightarrow> (\<exists>c inp. srv_input lib secret c inp s t) \<or> srv_settle s t \<or>
     t = s \<and> (\<exists>c k. srv_conns s c = Some k \<and> c_phase k = Running \<and> c_cancelled k)"
proof
  assume "srv_step lib secret s t"
  then show "(\<exists>c inp. srv_input lib secret c inp s t) \<or> srv_settle s t \<or>
     t = s \<and> (\<exists>c k. srv_conns s c = Some k \<and> c_phase k = Running \<and> c_cancelled k)"
  proof (induction rule: srv_step.induct)
    case (Cancel s c k)
    show ?case
    proof (cases "c_cancelled k")
      case True
      then have same: "k\<lparr>c_cancelled := True\<rparr> = k" by simp
      have "put_conn c (k\<lparr>c_cancelled := True\<rparr>) s = s"
        unfolding same by (rule put_same[OF Cancel.hyps(1)])
      with True Cancel show ?thesis by blast
    next
      case False
      with Cancel show ?thesis by (blast intro: SetCancel)
    qed
  next
    case (Write s c k ev p' fs go)
    show ?case
    proof (cases "ev = PingOk")
      case True
      then show ?thesis using Write by (intro disjI1 exI) (rule InPing; simp)
    next
      case False
      then show ?thesis using Write by (intro disjI2[OF disjI1] SetWrite) simp_all
    qed
  next
    case (Connect s c now msg p h ok)
    then show ?case by (intro disjI1 exI) (rule InConnect)
  next
    case (Refuse s c now msg p err)
    then show ?case by (intro disjI1 exI) (rule InRefuse)
  next
    case (Read s c k uuid msg h sends)
    then obtain raw where "msg = Inr raw" by (cases msg) (auto simp: read_round_def)
    with Read show ?case by (intro disjI1 exI) (rule InRead; simp)
  next
    case (SendOne s c k q m rest)
    then show ?case by (intro disjI2[OF disjI1] SetSend)
  next
    case (Start s c k)
    then show ?case by (intro disjI2[OF disjI1] SetStart)
  next
    case (ReadEnd s c k)
    then show ?case by (intro disjI2[OF disjI1] SetReadEnd)
  next
    case (Unregister s c k order h sends)
    then show ?case by (intro disjI2[OF disjI1] SetUnregister)
  next
    case (Leave s c k)
    then show ?case by (intro disjI2[OF disjI1] SetLeave)
  qed
next
  assume "(\<exists>c inp. srv_input lib secret c inp s t) \<or> srv_settle s t \<or>
     t = s \<and> (\<exists>c k. srv_conns s c = Some k \<and> c_phase k = Running \<and> c_cancelled k)"
  then show "srv_step lib secret s t"
  proof (elim disjE conjE exE)
    fix c k
    assume a: "t = s" "srv_conns s c = Some k" "c_phase k = Running" "c_cancelled k"
    then have same: "k\<lparr>c_cancelled := True\<rparr> = k" by simp
    show ?thesis
      using srv_step.Cancel[OF a(2,3), of lib secret] unfolding same a(1) put_same[OF a(2)] .
  qed (auto intro: settle_is_step input_is_step)
qed

section \<open>The measure\<close>

definition total :: "(conn \<Rightarrow> nat) \<Rightarrow> server \<Rightarrow> nat" where
  "total w s = (\<Sum>c \<in> dom (srv_conns s). w (the (srv_conns s c)))"

definition phases_left :: "conn \<Rightarrow> nat" where
  "phases_left k = 3 - phase_rank (c_phase k)"

text \<open>A send moves a message from a to-do list to a queue, so it counts twice before.\<close>

definition work_left :: "conn \<Rightarrow> nat" where
  "work_left k = 2 * length (c_todo k) + length (p_send (c_peer k)) +
     of_bool (c_reading k) + of_bool (c_writing k) + of_bool (\<not> c_cancelled k)"

definition progress :: "server \<Rightarrow> nat \<times> nat" where
  "progress s = (total phases_left s, total work_left s)"

lemma total_put:
  assumes "finite (dom (srv_conns s))" and "srv_conns s c = Some k"
  shows "total w (put_conn c k' s) + w k = total w s + w k'"
proof -
  have c: "c \<in> dom (srv_conns s)" using assms(2) by auto
  have eq: "(\<Sum>d \<in> dom (srv_conns s) - {c}. w (the (srv_conns (put_conn c k' s) d)))
      = (\<Sum>d \<in> dom (srv_conns s) - {c}. w (the (srv_conns s d)))"
    by (rule sum.cong) auto
  have "dom (srv_conns (put_conn c k' s)) = dom (srv_conns s)" using c by auto
  then have "total w (put_conn c k' s) = w k' + (\<Sum>d \<in> dom (srv_conns s) - {c}. w (the (srv_conns s d)))"
    using sum.remove[OF assms(1) c, of "\<lambda>d. w (the (srv_conns (put_conn c k' s) d))"] eq
    by (simp add: total_def)
  moreover have "total w s = w k + (\<Sum>d \<in> dom (srv_conns s) - {c}. w (the (srv_conns s d)))"
    using sum.remove[OF assms(1) c, of "\<lambda>d. w (the (srv_conns s d))"] assms(2) by (simp add: total_def)
  ultimately show ?thesis by simp
qed

lemma total_put_hub [simp]: "total w (put_hub h s) = total w s"
  by (simp add: total_def)

lemma total_send:
  assumes "finite (dom (srv_conns s))" and "\<And>k. w (k\<lparr>c_peer := send_msg m (c_peer k)\<rparr>) \<le> w k + n"
  shows "total w (send_to q m s) \<le> total w s + n"
proof (cases "srv_conns s q")
  case None
  then show ?thesis by (simp add: send_to_def)
next
  case (Some k)
  then show ?thesis
    using total_put[OF assms(1) Some, of w "k\<lparr>c_peer := send_msg m (c_peer k)\<rparr>"] assms(2)[of k]
    by (simp add: send_to_def)
qed

lemma dom_send_to [simp]: "dom (srv_conns (send_to q m s)) = dom (srv_conns s)"
  by (auto simp: send_to_conns split: if_splits)

lemma finite_conns_step: "srv_step lib secret s t \<Longrightarrow> finite (dom (srv_conns s)) \<Longrightarrow> finite (dom (srv_conns t))"
  by (induction rule: srv_step.induct) simp_all

lemma finite_conns: "srv_reach lib secret ice s \<Longrightarrow> finite (dom (srv_conns s))"
  by (induction rule: srv_reach.induct) (auto simp: init_server_def intro: finite_conns_step)

text \<open>A step inside one connection: its phases do not grow, and phases or work fall.\<close>

lemma progress_put:
  assumes "finite (dom (srv_conns s))" and "srv_conns s c = Some k"
    and "phases_left k' < phases_left k \<or> phases_left k' = phases_left k \<and> work_left k' < work_left k"
  shows "(progress (put_conn c k' s), progress s) \<in> less_than <*lex*> less_than"
  using total_put[OF assms(1,2), of phases_left k'] total_put[OF assms(1,2), of work_left k'] assms(3)
  by (auto simp: progress_def)

lemma progress_put_hub [simp]: "progress (put_hub h s) = progress s"
  by (simp add: progress_def)

lemma work_left_write:
  assumes "write_round ev (c_peer k) = Some (p', fs, go)" and "ev \<noteq> PingOk" and "c_writing k"
  shows "work_left (k\<lparr>c_peer := p', c_wire := w, c_writing := go\<rparr>) < work_left k"
  using assms by (cases ev) (auto simp: work_left_def recv_msg_def close_peer_def split: list.splits if_splits)

lemma settle_progress:
  assumes "srv_settle s t" and "finite (dom (srv_conns s))"
  shows "(progress t, progress s) \<in> less_than <*lex*> less_than"
  using assms
proof (induction rule: srv_settle.induct)
  case (SetSend s c k q m rest)
  let ?u = "put_conn c (k\<lparr>c_todo := rest\<rparr>) s"
  have fin: "finite (dom (srv_conns ?u))" using SetSend.prems by simp
  have "total phases_left (send_to q m ?u) \<le> total phases_left ?u"
    using total_send[OF fin, of phases_left m 0 q] by (simp add: phases_left_def)
  moreover have "total work_left (send_to q m ?u) \<le> total work_left ?u + 1"
    by (rule total_send[OF fin]) (simp add: work_left_def send_msg_def close_peer_def)
  moreover have "total phases_left ?u = total phases_left s"
    using total_put[OF SetSend.prems SetSend.hyps(1), of phases_left "k\<lparr>c_todo := rest\<rparr>"] by (simp add: phases_left_def)
  moreover have "total work_left ?u + 2 = total work_left s"
    using total_put[OF SetSend.prems SetSend.hyps(1), of work_left "k\<lparr>c_todo := rest\<rparr>"] SetSend.hyps(2)
    by (simp add: work_left_def)
  ultimately show ?case by (auto simp: progress_def)
next
  case (SetWrite s c k ev p' fs go)
  then show ?case
    using work_left_write[OF SetWrite.hyps(6,5,3)]
    by (intro progress_put[OF SetWrite.prems SetWrite.hyps(1)]) (simp add: phases_left_def)
next
  case (SetUnregister s c k order h sends)
  then have "(progress (put_conn c (k\<lparr>c_phase := Leaving, c_todo := sends\<rparr>) (put_hub h s)), progress (put_hub h s))
      \<in> less_than <*lex*> less_than"
    by (intro progress_put[where k = k]) (simp_all add: phases_left_def)
  then show ?case by simp
qed (auto intro!: progress_put simp: phases_left_def work_left_def)

section \<open>Where it ends\<close>

text \<open>As long as a connection is not over, some goroutine has a step to make.\<close>

lemma settle_not_stuck:
  assumes inv: "srv_inv lib secret s" and k: "srv_conns s c = Some k" "c_phase k \<noteq> Gone"
  shows "\<exists>t. srv_settle s t"
proof (cases "c_todo k")
  case (Cons x rest)
  then show ?thesis by (cases x) (blast intro: SetSend[OF k(1)])
next
  case Nil
  obtain order where o: "enumerates order (hub_sessions (srv_hub s))"
    using enumerates_exists[of "srv_hub s"] inv by (auto simp: srv_inv_alt)
  obtain h sends where un: "unregister order (p_id (c_peer k)) (srv_hub s) = (h, sends)" by fastforce
  have "\<exists>t. srv_settle s t" if "c_phase k = Running"
    using SetReadEnd[OF k(1) that _ Nil] SetCancel[OF k(1) that]
      SetWrite[OF k(1) that, where ev = CtxDone] SetUnregister[OF k(1) that _ _ _ Nil o un]
    by (cases "c_reading k"; cases "c_cancelled k"; cases "c_writing k") auto
  then show ?thesis
    using k SetStart[OF k(1) _ Nil] SetLeave[OF k(1) _ Nil] by (cases "c_phase k") auto
qed

lemma stuck_is_empty:
  assumes inv: "srv_inv lib secret s" and stuck: "\<nexists>t. srv_settle s t"
  shows "(\<forall>c k. srv_conns s c = Some k \<longrightarrow> c_phase k = Gone) \<and>
         hub_peers (srv_hub s) = Map.empty \<and> hub_sessions (srv_hub s) = Map.empty"
proof -
  have gone: "c_phase k = Gone" if "srv_conns s c = Some k" for c k
    using settle_not_stuck[OF inv that] stuck by blast
  have "owner s c = None" for c
    using gone by (auto simp: owner_def live_def split: option.splits)
  then have "hub_peers (srv_hub s) pid = None" for pid
    using srv_inv_owner[OF inv, of _ pid] by (cases "hub_peers (srv_hub s) pid") auto
  then have "hub_peers (srv_hub s) = Map.empty" by auto
  moreover from this have "hub_sessions (srv_hub s) = Map.empty"
    using inv by (auto simp: srv_inv_alt hub_inv_def)
  ultimately show ?thesis using gone by auto
qed

lemma stuck_todo: "\<nexists>t. srv_settle s t \<Longrightarrow> srv_conns s c = Some k \<Longrightarrow> c_todo k = []"
  using SetSend[of s c k] by (cases "c_todo k") auto

text \<open>Connections are never forgotten.\<close>

lemma settle_conns: "srv_settle\<^sup>*\<^sup>* s t \<Longrightarrow> dom (srv_conns s) \<subseteq> dom (srv_conns t)"
proof (induction rule: rtranclp_induct)
  case (step t u)
  then show ?case using srv_step_moves[OF settle_is_step[OF step.hyps(2)]] by (auto simp: subset_iff domIff) blast
qed simp

lemma settles_reach: "srv_settle\<^sup>*\<^sup>* s t \<Longrightarrow> srv_reach lib secret ice s \<Longrightarrow> srv_reach lib secret ice t"
  by (induction rule: rtranclp_induct) (auto intro: reach_step settle_is_step)

text \<open>The settling steps from reachable states are well-founded.\<close>

lemma wf_settle: "wf {(t, s). srv_reach lib secret ice s \<and> srv_settle s t}"
proof (rule wf_subset)
  show "wf (inv_image (less_than <*lex*> less_than) progress)" by (intro wf_inv_image wf_lex_prod wf_less_than)
  show "{(t, s). srv_reach lib secret ice s \<and> srv_settle s t} \<subseteq> inv_image (less_than <*lex*> less_than) progress"
    using settle_progress finite_conns by (auto simp: in_inv_image simp del: in_lex_prod)
qed

section \<open>Properties\<close>

text \<open>
  C7: the server shuts down: every step of the server is an input (a hello, a client message,
  an answered ping), a settling step of its goroutines, or cancels a context a second time; from
  every reachable state no infinite run of settling steps exists, some run of them comes to a
  stop, and wherever a run stops every connection is over, its notices sent, and the hub is empty.
\<close>

theorem server_settles:
  assumes "srv_reach lib secret ice s"
  shows "(\<forall>t. srv_step lib secret s t \<longleftrightarrow> (\<exists>c inp. srv_input lib secret c inp s t) \<or> srv_settle s t \<or>
            t = s \<and> (\<exists>c k. srv_conns s c = Some k \<and> c_phase k = Running \<and> c_cancelled k)) \<and>
    (\<nexists>f. f 0 = s \<and> (\<forall>i. srv_settle (f i) (f (Suc i)))) \<and>
    (\<exists>t. srv_settle\<^sup>*\<^sup>* s t \<and> (\<nexists>u. srv_settle t u)) \<and>
    (\<forall>t. srv_settle\<^sup>*\<^sup>* s t \<and> (\<nexists>u. srv_settle t u) \<longrightarrow>
       (\<forall>c k. srv_conns t c = Some k \<longrightarrow> c_phase k = Gone \<and> c_todo k = []) \<and>
       hub_peers (srv_hub t) = Map.empty \<and> hub_sessions (srv_hub t) = Map.empty)"
proof (intro conjI)
  show "\<nexists>f. f 0 = s \<and> (\<forall>i. srv_settle (f i) (f (Suc i)))"
  proof
    assume "\<exists>f. f 0 = s \<and> (\<forall>i. srv_settle (f i) (f (Suc i)))"
    then obtain f where f: "f 0 = s" "\<And>i. srv_settle (f i) (f (Suc i))" by blast
    have "srv_reach lib secret ice (f i)" for i
      using assms f by (induction i) (auto intro: reach_step settle_is_step)
    with f(2) have "\<forall>i. (f (Suc i), f i) \<in> {(t, s). srv_reach lib secret ice s \<and> srv_settle s t}" by blast
    then show False using wf_settle[of lib secret ice] unfolding wf_iff_no_infinite_down_chain by blast
  qed
next
  show "\<exists>t. srv_settle\<^sup>*\<^sup>* s t \<and> (\<nexists>u. srv_settle t u)"
    using assms
  proof (induction s rule: wf_induct_rule[OF wf_settle[of lib secret ice]])
    case (1 s)
    show ?case
    proof (cases "\<exists>t. srv_settle s t")
      case True
      then obtain t where t: "srv_settle s t" ..
      then have "srv_reach lib secret ice t" using 1(2) by (auto intro: reach_step settle_is_step)
      with t 1 obtain u where "srv_settle\<^sup>*\<^sup>* t u" "\<nexists>v. srv_settle u v" by blast
      with t show ?thesis by (meson converse_rtranclp_into_rtranclp)
    qed blast
  qed
next
  show "\<forall>t. srv_settle\<^sup>*\<^sup>* s t \<and> (\<nexists>u. srv_settle t u) \<longrightarrow>
       (\<forall>c k. srv_conns t c = Some k \<longrightarrow> c_phase k = Gone \<and> c_todo k = []) \<and>
       hub_peers (srv_hub t) = Map.empty \<and> hub_sessions (srv_hub t) = Map.empty"
    using stuck_is_empty[OF srv_reach_inv[OF settles_reach[OF _ assms]]] stuck_todo by blast
qed (rule allI, rule step_split)

theorem server_settles_witness:
  "\<exists>t. srv_settle\<^sup>*\<^sup>* run_final t \<and> hub_peers (srv_hub run_final) ''a'' = Some 2 \<and>
       hub_peers (srv_hub t) = Map.empty \<and> hub_sessions (srv_hub t) = Map.empty \<and> srv_conns t \<noteq> Map.empty"
proof -
  note S = server_settles[OF run_reaches_final, THEN conjunct2, THEN conjunct2]
  obtain t where "srv_settle\<^sup>*\<^sup>* run_final t" "\<nexists>u. srv_settle t u" using S[THEN conjunct1] by blast
  with S[THEN conjunct2] have t: "srv_settle\<^sup>*\<^sup>* run_final t" "hub_peers (srv_hub t) = Map.empty"
    "hub_sessions (srv_hub t) = Map.empty"
    by blast+
  have "2 \<in> dom (srv_conns run_final)" by (simp add: run_final_conns domIff)
  with settle_conns[OF t(1)] have "srv_conns t \<noteq> Map.empty" by auto
  with t show ?thesis by (auto simp: run_final_conns run_hub_def run_names_def)
qed

end
