(* ===== verification/Mavframe.thy ===== *)
theory Mavframe
  imports "HOL-Library.Word" Prelude
begin

unbundle bit_operations_syntax

text \<open>
  \<open>internal/mavframe/parse.go\<close>: reading the header of a MAVLink frame, naming message
  ids, and the debug logger with its counter.  Bytes are \<open>8 word\<close>, message ids
  \<open>32 word\<close> and the logger's counter is a \<open>64 word\<close>, so that it wraps as
  \<open>atomic.Uint64\<close> does.
\<close>

section \<open>Headers\<close>

type_synonym byte = "8 word"

type_synonym packet = "byte list"

text \<open>The five results of \<open>ParseHeader\<close>, in order: msgid, sysid, compid, seq, ok.\<close>

type_synonym header = "32 word \<times> byte \<times> byte \<times> byte \<times> bool"

definition ParseHeader :: "packet \<Rightarrow> header" where
  "ParseHeader pkt =
     (if length pkt = 0 then (0, 0, 0, 0, False)
      else if pkt ! 0 = 0xFD then
        (if length pkt < 10 then (0, 0, 0, 0, False)
         else (ucast (pkt ! 7) OR push_bit 8 (ucast (pkt ! 8)) OR push_bit 16 (ucast (pkt ! 9)),
               pkt ! 5, pkt ! 6, pkt ! 4, True))
      else if pkt ! 0 = 0xFE then
        (if length pkt < 6 then (0, 0, 0, 0, False)
         else (ucast (pkt ! 5), pkt ! 3, pkt ! 4, pkt ! 2, True))
      else (0, 0, 0, 0, False))"

text \<open>The frames themselves, as the comments in the code lay them out.\<close>

definition v2_frame :: "byte \<Rightarrow> byte \<Rightarrow> byte \<Rightarrow> byte \<Rightarrow> byte \<Rightarrow> byte \<Rightarrow> 32 word \<Rightarrow> packet \<Rightarrow> packet" where
  "v2_frame plen incf cmpf sq sys cid msgid rest =
     [0xFD, plen, incf, cmpf, sq, sys, cid,
      ucast msgid, ucast (drop_bit 8 msgid), ucast (drop_bit 16 msgid)] @ rest"

definition v1_frame :: "byte \<Rightarrow> byte \<Rightarrow> byte \<Rightarrow> byte \<Rightarrow> byte \<Rightarrow> packet \<Rightarrow> packet" where
  "v1_frame plen sq sys cid msgid rest = [0xFE, plen, sq, sys, cid, msgid] @ rest"

text \<open>Three little-endian bytes and the 24-bit number they make.\<close>

definition le24 :: "byte \<Rightarrow> byte \<Rightarrow> byte \<Rightarrow> 32 word" where
  "le24 a b c = ucast a OR push_bit 8 (ucast b) OR push_bit 16 (ucast c)"

lemma byte_bit: "8 \<le> n \<Longrightarrow> bit (a :: byte) n = False"
  using bit_imp_le_length[of a n] by auto

lemma le24_bytes [simp]:
  "(ucast (le24 a b c) :: byte) = a"
  "(ucast (drop_bit 8 (le24 a b c)) :: byte) = b"
  "(ucast (drop_bit 16 (le24 a b c)) :: byte) = c"
  by (auto intro!: bit_eqI simp: le24_def bit_simps byte_bit)

lemma take_bit_24: "take_bit 24 (m :: 32 word) = m \<longleftrightarrow> m < 2 ^ 24"
proof -
  have "unat (2 ^ 24 :: 32 word) = 2 ^ 24" by simp
  then show ?thesis
    using take_bit_nat_eq_self_iff[of 24 "unat m"] word_unat_eq_iff[of "take_bit 24 m" m]
    by (simp add: word_less_nat_alt unsigned_take_bit_eq)
qed

lemma le24_bound: "le24 a b c < 2 ^ 24"
proof -
  have "take_bit 24 (le24 a b c) = le24 a b c"
    by (rule bit_eqI) (auto simp: le24_def bit_simps byte_bit not_less)
  then show ?thesis by (simp only: take_bit_24)
qed

lemma le24_of_bytes:
  assumes "m < 2 ^ 24"
  shows "le24 (ucast m) (ucast (drop_bit 8 m)) (ucast (drop_bit 16 m)) = m"
proof -
  have "le24 (ucast m) (ucast (drop_bit 8 m)) (ucast (drop_bit 16 m)) = take_bit 24 m"
  proof (rule bit_eqI)
    fix n
    show "bit (le24 (ucast m) (ucast (drop_bit 8 m)) (ucast (drop_bit 16 m))) n = bit (take_bit 24 m) n"
      by (cases "n < 8"; cases "n < 16"; cases "n < 24") (auto simp: le24_def bit_simps)
  qed
  then show ?thesis using assms by (simp only: take_bit_24)
qed

lemma ParseHeader_v2 [simp]:
  "ParseHeader (v2_frame plen incf cmpf sq sys cid msgid rest)
     = (le24 (ucast msgid) (ucast (drop_bit 8 msgid)) (ucast (drop_bit 16 msgid)), sys, cid, sq, True)"
  by (simp add: ParseHeader_def v2_frame_def le24_def)

lemma ParseHeader_v1 [simp]:
  "ParseHeader (v1_frame plen sq sys cid msgid rest) = (ucast msgid, sys, cid, sq, True)"
  by (simp add: ParseHeader_def v1_frame_def)

text \<open>Every datagram the parser accepts is such a frame.\<close>

lemma list_10:
  "10 \<le> length xs \<Longrightarrow> \<exists>a b c d e f g h i j r. xs = [a, b, c, d, e, f, g, h, i, j] @ r"
  by (auto simp: numeral_eq_Suc Suc_le_length_iff)

lemma list_6: "6 \<le> length xs \<Longrightarrow> \<exists>a b c d e f r. xs = [a, b, c, d, e, f] @ r"
  by (auto simp: numeral_eq_Suc Suc_le_length_iff)

lemma ParseHeader_ok_cases:
  assumes "ParseHeader pkt = (m, s, c, q, True)"
  shows "(\<exists>plen incf cmpf rest. m < 2 ^ 24 \<and> pkt = v2_frame plen incf cmpf q s c m rest)
       \<or> (\<exists>plen b rest. m = ucast b \<and> pkt = v1_frame plen q s c b rest)"
proof -
  consider "pkt ! 0 = 0xFD" "10 \<le> length pkt" | "pkt ! 0 = 0xFE" "6 \<le> length pkt"
    using assms by (auto simp: ParseHeader_def split: if_splits)
  then show ?thesis
  proof cases
    case 1
    from list_10[OF 1(2)] obtain a b0 c0 d e f g x y z r where p: "pkt = [a, b0, c0, d, e, f, g, x, y, z] @ r"
      by blast
    with 1(1) assms have "m = le24 x y z" "q = e" "s = f" "c = g"
      by (auto simp: ParseHeader_def le24_def)
    with p 1(1) le24_bound[of x y z] show ?thesis by (auto simp: v2_frame_def)
  next
    case 2
    from list_6[OF 2(2)] obtain a b0 c0 d e f r where p: "pkt = [a, b0, c0, d, e, f] @ r" by blast
    with 2(1) assms show ?thesis by (auto simp: ParseHeader_def v1_frame_def)
  qed
qed

section \<open>Names\<close>

definition msgNames :: "(32 word \<times> string) list" where
  "msgNames =
     [(0, ''HEARTBEAT''), (1, ''SYS_STATUS''), (2, ''SYSTEM_TIME''), (22, ''PARAM_VALUE''),
      (24, ''GPS_RAW_INT''), (30, ''ATTITUDE''), (31, ''ATTITUDE_QUATERNION''),
      (32, ''LOCAL_POSITION_NED''), (33, ''GLOBAL_POSITION_INT''), (36, ''SERVO_OUTPUT_RAW''),
      (42, ''MISSION_REQUEST_INT''), (74, ''VFR_HUD''), (76, ''COMMAND_LONG''), (77, ''COMMAND_ACK''),
      (83, ''ATTITUDE_TARGET''), (85, ''POSITION_TARGET_LOCAL_NED''),
      (87, ''POSITION_TARGET_GLOBAL_INT''), (111, ''TIMESYNC''), (141, ''ALTITUDE''),
      (230, ''ESTIMATOR_STATUS''), (241, ''VIBRATION''), (242, ''HOME_POSITION''),
      (245, ''EXTENDED_SYS_STATE''), (253, ''STATUSTEXT'')]"

definition MsgName :: "32 word \<Rightarrow> string" where
  "MsgName ident =
     (case map_of msgNames ident of
        Some n \<Rightarrow> n
      | None \<Rightarrow> ''MSGID_'' @ dec_nat (unat ident))"

lemma msgNames_distinct: "distinct (map snd msgNames)"
  by (simp add: msgNames_def)

lemma msgNames_prefix: "(ident, n) \<in> set msgNames \<Longrightarrow> n \<noteq> ''MSGID_'' @ t"
  by (auto simp: msgNames_def)

lemma map_of_msgNames_inject:
  assumes "map_of msgNames a = Some n" and "map_of msgNames b = Some n"
  shows "a = b"
  using map_of_SomeD[OF assms(1)] map_of_SomeD[OF assms(2)] msgNames_distinct
    inj_onD[of snd "set msgNames" "(a, n)" "(b, n)"]
  by (simp add: distinct_map)

section \<open>The debug logger\<close>

text \<open>
  What one call of the logger's closure does: nothing, one of the two log lines with the
  values of its fields, or the panic of \<open>pkt[0]\<close> out of range.
\<close>

datatype log_line =
    Quiet
  | Unparsed string "64 word" nat string
  | Recv string "64 word" nat string "32 word" byte byte byte
  | IndexPanic

definition debug_logger :: "string \<Rightarrow> 64 word \<Rightarrow> packet \<Rightarrow> 64 word \<times> log_line" where
  "debug_logger label count pkt =
     (let n = count + 1
      in (n,
          if 10 < n \<and> n mod 100 \<noteq> 0 then Quiet
          else (case ParseHeader pkt of
                  (msgid, sysid, compid, sq, ok) \<Rightarrow>
                    if \<not> ok
                    then (case pkt of
                            [] \<Rightarrow> IndexPanic
                          | b # _ \<Rightarrow> Unparsed label n (length pkt) (hex2 (unat b)))
                    else Recv label n (length pkt) (MsgName msgid) msgid sysid compid sq)))"

fun run_logger :: "string \<Rightarrow> 64 word \<Rightarrow> packet list \<Rightarrow> 64 word \<times> log_line list" where
  "run_logger label count [] = (count, [])"
| "run_logger label count (p # ps) =
     (let (count', l) = debug_logger label count p;
          (count'', ls) = run_logger label count' ps
      in (count'', l # ls))"

lemma fst_debug_logger [simp]: "fst (debug_logger label count p) = count + 1"
  by (simp add: debug_logger_def Let_def)

lemma run_logger_snoc:
  "run_logger label count (ps @ [p]) =
     (fst (run_logger label count ps) + 1,
      snd (run_logger label count ps) @ [snd (debug_logger label (fst (run_logger label count ps)) p)])"
  by (induction ps arbitrary: count) (simp_all add: split_beta Let_def)

lemma run_logger_count: "fst (run_logger label count ps) = count + of_nat (length ps)"
  by (induction ps rule: rev_induct) (simp_all add: run_logger_snoc)

lemma debug_logger_Quiet:
  assumes "Suc k < 2 ^ 64"
  shows "snd (debug_logger label (of_nat k) p) = Quiet \<longleftrightarrow> 10 < Suc k \<and> Suc k mod 100 \<noteq> 0"
proof -
  have u: "unat (of_nat (Suc k) :: 64 word) = Suc k" using assms by (simp only: unat_of_nat) simp
  have "(of_nat (Suc k) :: 64 word) mod 100 = 0 \<longleftrightarrow> Suc k mod 100 = 0"
    by (simp only: word_unat_eq_iff unat_mod_distrib u) simp
  moreover have "10 < (of_nat (Suc k) :: 64 word) \<longleftrightarrow> 10 < Suc k"
    by (simp only: word_less_nat_alt u) simp
  ultimately show ?thesis
    by (simp add: debug_logger_def Let_def add.commute split: prod.splits list.splits)
qed

lemma debug_logger_panics:
  "snd (debug_logger label count p) = IndexPanic \<longleftrightarrow> p = [] \<and> snd (debug_logger label count p) \<noteq> Quiet"
  by (auto simp: debug_logger_def Let_def ParseHeader_def split: prod.splits list.splits if_splits)

lemma logged_count_step:
  "min 10 (Suc n) + Suc n div 100 =
     min 10 n + n div 100 + (if 10 < Suc n \<and> Suc n mod 100 \<noteq> 0 then 0 else 1)"
proof -
  have "Suc n div 100 = n div 100 + (if Suc n mod 100 = 0 then 1 else 0)"
    by (simp add: div_Suc)
  moreover have "Suc n mod 100 = 0 \<Longrightarrow> 10 < Suc n"
    by (rule ccontr) (simp add: not_less)
  ultimately show ?thesis by (auto simp: min_def)
qed

section \<open>Properties\<close>

text \<open>
  C31: \<open>ParseHeader\<close> accepts exactly the MAVLink frames and inverts their layout: it returns
  \<open>ok\<close> with a message id, system, component and sequence if and only if the datagram is a
  version 2 frame with these fields (the id below 2 to the 24, in three little-endian bytes)
  or a version 1 frame with them (the id in one byte).
\<close>

theorem header_parses_exactly_frames:
  "ParseHeader pkt = (m, s, c, q, True) \<longleftrightarrow>
     (\<exists>plen incf cmpf rest. m < 2 ^ 24 \<and> pkt = v2_frame plen incf cmpf q s c m rest)
   \<or> (\<exists>plen b rest. m = ucast b \<and> pkt = v1_frame plen q s c b rest)"
  using ParseHeader_ok_cases[of pkt m s c q] le24_of_bytes[of m] by auto

text \<open>
  Message names are unambiguous: no two message ids have the same name, whether it comes
  from the table or is \<open>MSGID_n\<close>.
\<close>

theorem message_names_are_unambiguous: "MsgName a = MsgName b \<longleftrightarrow> a = b"
proof
  assume eq: "MsgName a = MsgName b"
  have tab: "n \<noteq> ''MSGID_'' @ t" if "map_of msgNames i = Some n" for i n t
    using msgNames_prefix[OF map_of_SomeD[OF that]] .
  show "a = b"
  proof (cases "map_of msgNames a")
    case (Some n)
    with eq tab have "map_of msgNames b = Some n" by (auto simp: MsgName_def split: option.splits)
    with Some show ?thesis by (rule map_of_msgNames_inject)
  next
    case None
    with eq tab have "unat a = unat b" by (auto simp: MsgName_def split: option.splits)
    then show ?thesis by (rule word_unat_eq_iff[THEN iffD2])
  qed
qed simp

text \<open>
  The debug logger is quiet as advertised and dies on empty datagrams: of the first
  \<open>N\<close> packets (fewer than 2 to the 64) exactly \<open>min 10 N + N div 100\<close> are not skipped, and
  the next call panics if and only if the datagram is empty and it is one of the first ten or
  its number is a multiple of a hundred.
\<close>

theorem debug_logger_throttles:
  assumes "length ps < 2 ^ 64 - 1"
  shows "length (filter (\<lambda>l. l \<noteq> Quiet) (snd (run_logger label 0 ps)))
           = min 10 (length ps) + length ps div 100
    \<and> (snd (debug_logger label (fst (run_logger label 0 ps)) p) = IndexPanic
        \<longleftrightarrow> p = [] \<and> (Suc (length ps) \<le> 10 \<or> Suc (length ps) mod 100 = 0))"
proof
  show "length (filter (\<lambda>l. l \<noteq> Quiet) (snd (run_logger label 0 ps))) = min 10 (length ps) + length ps div 100"
    using assms
  proof (induction ps rule: rev_induct)
    case Nil
    then show ?case by simp
  next
    case (snoc p ps)
    then show ?case
      using debug_logger_Quiet[of "length ps" label p] logged_count_step[of "length ps"]
      by (simp add: run_logger_snoc run_logger_count)
  qed
  have "Suc (length ps) < 2 ^ 64" using assms by simp
  note quiet = debug_logger_Quiet[OF this, of label p]
  show "snd (debug_logger label (fst (run_logger label 0 ps)) p) = IndexPanic
        \<longleftrightarrow> p = [] \<and> (Suc (length ps) \<le> 10 \<or> Suc (length ps) mod 100 = 0)"
    unfolding run_logger_count add_0_left debug_logger_panics quiet by (simp only: not_less de_Morgan_conj not_not)
qed

theorem debug_logger_throttles_witness:
  "snd (debug_logger ''udp'' (fst (run_logger ''udp'' 0 [[0xFE, 0, 7, 1, 1, 0]])) []) = IndexPanic"
  using debug_logger_throttles[of "[[0xFE, 0, 7, 1, 1, 0]]" "''udp''" "[]"] by simp

end
