(* ===== verification/Mavbridge.thy ===== *)
theory Mavbridge
  imports Mavframe Interfaces
begin

text \<open>
  \<open>internal/mavbridge/udp.go\<close>: the UDP side of the relay.  A \<open>'cb\<close> is the identity
  of a packet callback.  One goroutine runs \<open>Run\<close>; \<open>SetOnPacket\<close> and \<open>Write\<close> come
  from others, so the bridge is a machine whose operations interleave: receiving a datagram
  ends with loading the callback under the lock, and the call itself is a later step.
\<close>

section \<open>Addresses\<close>

text \<open>A \<open>net.IP\<close> is its bytes: four, or sixteen, or none.\<close>

record udp_addr =
  ua_ip :: "byte list"
  ua_port :: int
  ua_zone :: string

definition v4InV6Prefix :: "byte list" where
  "v4InV6Prefix = replicate 10 0 @ [0xFF, 0xFF]"

text \<open>\<open>IP.Equal\<close> of the package \<open>net\<close>: an IPv4 address equals its IPv6-mapped form.\<close>

definition ip_equal :: "byte list \<Rightarrow> byte list \<Rightarrow> bool" where
  "ip_equal ip x =
     (if length ip = length x then ip = x
      else if length ip = 4 \<and> length x = 16 then take 12 x = v4InV6Prefix \<and> ip = drop 12 x
      else if length ip = 16 \<and> length x = 4 then take 12 ip = v4InV6Prefix \<and> drop 12 ip = x
      else False)"

definition udpAddrEqual :: "udp_addr \<Rightarrow> udp_addr \<Rightarrow> bool" where
  "udpAddrEqual a b \<longleftrightarrow> ip_equal (ua_ip a) (ua_ip b) \<and> ua_port a = ua_port b \<and> ua_zone a = ua_zone b"

section \<open>The bridge\<close>

record 'cb udp =
  u_endpoint :: "udp_addr option"
  u_on_pkt :: "'cb option"
  u_closed :: bool

text \<open>\<open>resolve\<close> and \<open>listen\<close> stand for the network.\<close>

definition Listen ::
    "(string \<Rightarrow> go_error + udp_addr) \<Rightarrow> (udp_addr \<Rightarrow> go_error option) \<Rightarrow> string \<Rightarrow> go_error + 'cb udp" where
  "Listen resolve listen addr =
     (case resolve addr of
        Inl e \<Rightarrow> Inl (WrapError (''resolve '' @ go_quote addr) e)
      | Inr laddr \<Rightarrow>
          (case listen laddr of
             Some e \<Rightarrow> Inl (WrapError (''listen '' @ go_quote addr) e)
           | None \<Rightarrow> Inr \<lparr>u_endpoint = None, u_on_pkt = None, u_closed = False\<rparr>))"

definition SetOnPacket :: "'cb option \<Rightarrow> 'cb udp \<Rightarrow> 'cb udp" where
  "SetOnPacket fn u = u\<lparr>u_on_pkt := fn\<rparr>"

definition ErrNoEndpoint :: go_error where
  "ErrNoEndpoint = NewError ''mavbridge: no endpoint learned yet''"

definition Endpoint :: "'cb udp \<Rightarrow> udp_addr option" where
  "Endpoint u = u_endpoint u"

text \<open>The count and error of \<open>Write\<close>, and the datagram it sends, if it sends one.\<close>

definition Write_udp ::
    "(packet \<Rightarrow> udp_addr \<Rightarrow> nat \<times> go_error option) \<Rightarrow> packet \<Rightarrow> 'cb udp \<Rightarrow>
     (nat \<times> go_error option) \<times> (udp_addr \<times> packet) option" where
  "Write_udp sock p u =
     (case u_endpoint u of
        None \<Rightarrow> ((0, Some ErrNoEndpoint), None)
      | Some addr \<Rightarrow> (sock p addr, Some (addr, p)))"

text \<open>\<open>Close\<close> with the error the socket's own close gives; only the first call reaches it.\<close>

definition Close_udp :: "go_error option \<Rightarrow> 'cb udp \<Rightarrow> go_error option \<times> 'cb udp" where
  "Close_udp err u = (if u_closed u then (None, u) else (err, u\<lparr>u_closed := True\<rparr>))"

section \<open>The loop\<close>

definition buf_size :: nat where "buf_size = 64 * 1024"

text \<open>
  \<open>ReadFromUDP\<close>: the datagram, cut to the buffer, overwrites the front of the buffer.
\<close>

definition read_into :: "packet \<Rightarrow> packet \<Rightarrow> packet \<times> nat" where
  "read_into d buf = (let n = min (length d) (length buf) in (take n d @ drop n buf, n))"

text \<open>
  One round of \<open>Run\<close> up to the call: read, learn the endpoint, copy the packet out of the
  buffer, load the callback.
\<close>

definition receive_round ::
    "packet \<Rightarrow> udp_addr \<Rightarrow> 'cb udp \<Rightarrow> packet \<Rightarrow> 'cb udp \<times> packet \<times> ('cb \<times> packet) option" where
  "receive_round d src u buf =
     (let (buf', n) = read_into d buf;
          u' = (case u_endpoint u of
                  None \<Rightarrow> u\<lparr>u_endpoint := Some src\<rparr>
                | Some cur \<Rightarrow> if \<not> udpAddrEqual cur src then u\<lparr>u_endpoint := Some src\<rparr> else u);
          pkt = take n buf'
      in (u', buf', map_option (\<lambda>cb. (cb, pkt)) (u_on_pkt u')))"

text \<open>What \<open>Run\<close> returns after a failed read: the context's error if it has one.\<close>

definition run_error :: "go_error option \<Rightarrow> go_error \<Rightarrow> go_error" where
  "run_error ctx_err err = (case ctx_err of Some e \<Rightarrow> e | None \<Rightarrow> err)"

datatype 'cb bridge_op =
    OpReceive packet udp_addr
  | OpCall
  | OpSetOnPacket "'cb option"
  | OpWrite packet
  | OpReadError "go_error option" go_error

text \<open>
  \<open>b_pending\<close> is the call \<open>Run\<close> is about to make, \<open>b_calls\<close> the calls it has made and
  \<open>b_sent\<close> what \<open>Write\<close> has sent; \<open>b_result\<close> is what \<open>Run\<close> returned, if it has.
\<close>

record 'cb bridge =
  b_udp :: "'cb udp"
  b_buf :: packet
  b_pending :: "('cb \<times> packet) option"
  b_calls :: "('cb \<times> packet) list"
  b_sent :: "(udp_addr \<times> packet) list"
  b_result :: "go_error option"

definition new_bridge :: "'cb udp \<Rightarrow> 'cb bridge" where
  "new_bridge u =
     \<lparr>b_udp = u, b_buf = replicate buf_size 0, b_pending = None, b_calls = [], b_sent = [], b_result = None\<rparr>"

fun bridge_step :: "'cb bridge_op \<Rightarrow> 'cb bridge \<Rightarrow> 'cb bridge option" where
  "bridge_step (OpReceive d src) b =
     (if b_pending b = None \<and> b_result b = None
      then (case receive_round d src (b_udp b) (b_buf b) of
              (u', buf', p) \<Rightarrow> Some (b\<lparr>b_udp := u', b_buf := buf', b_pending := p\<rparr>))
      else None)"
| "bridge_step OpCall b =
     (case b_pending b of
        None \<Rightarrow> None
      | Some c \<Rightarrow> Some (b\<lparr>b_pending := None, b_calls := b_calls b @ [c]\<rparr>))"
| "bridge_step (OpSetOnPacket fn) b = Some (b\<lparr>b_udp := SetOnPacket fn (b_udp b)\<rparr>)"
| "bridge_step (OpWrite p) b =
     (case snd (Write_udp (\<lambda>p a. (length p, None)) p (b_udp b)) of
        None \<Rightarrow> Some b
      | Some s \<Rightarrow> Some (b\<lparr>b_sent := b_sent b @ [s]\<rparr>))"
| "bridge_step (OpReadError ctx_err e) b =
     (if b_pending b = None \<and> b_result b = None
      then Some (b\<lparr>b_result := Some (run_error ctx_err e)\<rparr>) else None)"

fun bridge_run :: "'cb bridge_op list \<Rightarrow> 'cb bridge \<Rightarrow> 'cb bridge option" where
  "bridge_run [] b = Some b"
| "bridge_run (op1 # ops) b =
     (case bridge_step op1 b of None \<Rightarrow> None | Some b' \<Rightarrow> bridge_run ops b')"

section \<open>The bridge as a packet source\<close>

text \<open>\<open>Run\<close>'s loop state: the bridge and the buffer.\<close>

definition loop_receive ::
    "packet \<times> udp_addr \<Rightarrow> 'cb udp \<times> packet \<Rightarrow> ('cb udp \<times> packet) \<times> ('cb \<times> packet) option" where
  "loop_receive d s =
     (case receive_round (fst d) (snd d) (fst s) (snd s) of (u', buf', c) \<Rightarrow> ((u', buf'), c))"

lemma read_into_length [simp]: "length (fst (read_into d buf)) = length buf"
  by (simp add: read_into_def Let_def)

lemma read_into_take: "read_into d buf = (buf', n) \<Longrightarrow> take n buf' = take (length buf) d"
  by (auto simp: read_into_def Let_def min_def split: if_splits)

lemma receive_round_facts:
  assumes "receive_round d src u buf = (u', buf', c)"
  shows "u_on_pkt u' = u_on_pkt u" and "length buf' = length buf"
    and "c = map_option (\<lambda>cb. (cb, take (length buf) d)) (u_on_pkt u)"
    and "\<exists>e. u_endpoint u' = Some e \<and> udpAddrEqual e src"
proof -
  obtain b n where rd: "read_into d buf = (b, n)" by (cases "read_into d buf")
  have len: "length b = length buf" using read_into_length[of d buf] rd by simp
  note tk = read_into_take[OF rd]
  show "u_on_pkt u' = u_on_pkt u" "length buf' = length buf"
    "c = map_option (\<lambda>cb. (cb, take (length buf) d)) (u_on_pkt u)"
    using assms len tk by (auto simp: receive_round_def rd Let_def split: option.splits if_splits)
  have "udpAddrEqual src src" by (simp add: udpAddrEqual_def ip_equal_def)
  then show "\<exists>e. u_endpoint u' = Some e \<and> udpAddrEqual e src"
    using assms by (auto simp: receive_round_def rd Let_def split: option.splits if_splits)
qed

interpretation bridge_src: packet_source "\<lambda>f s. (SetOnPacket f (fst s), snd s)" loop_receive
  "\<lambda>s. u_on_pkt (fst s)" "\<lambda>d. take buf_size (fst d)" "\<lambda>s. length (snd s) = buf_size"
proof unfold_locales
  fix d :: "packet \<times> udp_addr" and s :: "'cb udp \<times> packet" and f :: "'cb option"
  obtain u' buf' c where r: "receive_round (fst d) (snd d) (fst s) (snd s) = (u', buf', c)"
    by (metis prod_cases3)
  note facts = receive_round_facts[OF r]
  show "u_on_pkt (fst (SetOnPacket f (fst s), snd s)) = f" by (simp add: SetOnPacket_def)
  show "length (snd s) = buf_size \<Longrightarrow> length (snd (SetOnPacket f (fst s), snd s)) = buf_size" by simp
  show "length (snd s) = buf_size \<Longrightarrow> u_on_pkt (fst (fst (loop_receive d s))) = u_on_pkt (fst s)"
    using facts(1) by (simp add: loop_receive_def r)
  show "length (snd s) = buf_size \<Longrightarrow> length (snd (fst (loop_receive d s))) = buf_size"
    using facts(2) by (simp add: loop_receive_def r)
  show "length (snd s) = buf_size \<Longrightarrow>
      snd (loop_receive d s) = map_option (\<lambda>cb. (cb, take buf_size (fst d))) (u_on_pkt (fst s))"
    using facts(3) by (simp add: loop_receive_def r)
qed

text \<open>An interleaved run, as the source sees it.\<close>

fun source_events :: "'cb bridge_op list \<Rightarrow> (packet \<times> udp_addr + 'cb option) list" where
  "source_events [] = []"
| "source_events (OpReceive d src # ops) = Inl (d, src) # source_events ops"
| "source_events (OpSetOnPacket f # ops) = Inr f # source_events ops"
| "source_events (_ # ops) = source_events ops"

definition owed :: "'cb bridge \<Rightarrow> ('cb \<times> packet) list" where
  "owed b = b_calls b @ (case b_pending b of None \<Rightarrow> [] | Some c \<Rightarrow> [c])"

lemma bridge_run_feeds:
  "bridge_run ops b = Some b' \<Longrightarrow>
     \<exists>out. owed b' = owed b @ out \<and>
       bridge_src.feed (source_events ops) (b_udp b, b_buf b) = ((b_udp b', b_buf b'), out)"
proof (induction ops b rule: bridge_run.induct)
  case (1 b)
  then show ?case by simp
next
  case (2 op1 ops b)
  then obtain b1 where b1: "bridge_step op1 b = Some b1" and "bridge_run ops b1 = Some b'"
    by (auto split: option.splits)
  with "2.IH" obtain out where out: "owed b' = owed b1 @ out"
    and feed: "bridge_src.feed (source_events ops) (b_udp b1, b_buf b1) = ((b_udp b', b_buf b'), out)"
    by blast
  show ?case
  proof (cases op1)
    case (OpReceive d src)
    obtain u' buf' c where r: "receive_round d src (b_udp b) (b_buf b) = (u', buf', c)" by (metis prod_cases3)
    with b1 OpReceive have "b1 = b\<lparr>b_udp := u', b_buf := buf', b_pending := c\<rparr>" "b_pending b = None"
      by (auto split: if_splits)
    moreover from r have "loop_receive (d, src) (b_udp b, b_buf b) = ((u', buf'), c)"
      by (simp add: loop_receive_def)
    ultimately show ?thesis
      using out feed OpReceive by (auto simp: owed_def split: option.splits)
  next
    case OpCall
    with b1 out feed show ?thesis by (auto simp: owed_def split: option.splits)
  next
    case (OpSetOnPacket f)
    with b1 out feed show ?thesis by (auto simp: owed_def)
  next
    case (OpWrite p)
    with b1 out feed show ?thesis by (auto simp: owed_def split: option.splits)
  next
    case (OpReadError ctx e)
    with b1 out feed show ?thesis by (auto simp: owed_def split: if_splits)
  qed
qed

text \<open>The calls a run gives rise to: each datagram goes to the callback installed when it came.\<close>

fun deliveries :: "'cb option \<Rightarrow> 'cb bridge_op list \<Rightarrow> ('cb \<times> packet) list" where
  "deliveries cur [] = []"
| "deliveries cur (OpReceive d src # ops) =
     (case cur of None \<Rightarrow> [] | Some cb \<Rightarrow> [(cb, take buf_size d)]) @ deliveries cur ops"
| "deliveries cur (OpCall # ops) = deliveries cur ops"
| "deliveries cur (OpSetOnPacket f # ops) = deliveries f ops"
| "deliveries cur (OpWrite p # ops) = deliveries cur ops"
| "deliveries cur (OpReadError c e # ops) = deliveries cur ops"

lemma expected_deliveries: "bridge_src.expected cur (source_events ops) = deliveries cur ops"
  by (induction cur ops rule: deliveries.induct) (auto split: option.splits)

text \<open>The address of the last datagram received.\<close>

fun last_sender :: "udp_addr option \<Rightarrow> 'cb bridge_op list \<Rightarrow> udp_addr option" where
  "last_sender cur [] = cur"
| "last_sender cur (OpReceive d src # ops) = last_sender (Some src) ops"
| "last_sender cur (OpCall # ops) = last_sender cur ops"
| "last_sender cur (OpSetOnPacket f # ops) = last_sender cur ops"
| "last_sender cur (OpWrite p # ops) = last_sender cur ops"
| "last_sender cur (OpReadError c e # ops) = last_sender cur ops"

definition same_endpoint :: "udp_addr option \<Rightarrow> udp_addr option \<Rightarrow> bool" where
  "same_endpoint x y = (case (x, y) of (Some a, Some b) \<Rightarrow> udpAddrEqual a b | (None, None) \<Rightarrow> True | _ \<Rightarrow> False)"

lemma bridge_run_endpoint:
  "bridge_run ops b = Some b' \<Longrightarrow> same_endpoint (u_endpoint (b_udp b)) cur \<Longrightarrow>
     same_endpoint (u_endpoint (b_udp b')) (last_sender cur ops)"
proof (induction cur ops arbitrary: b rule: last_sender.induct)
  case (2 cur d src ops)
  obtain u' buf' c where r: "receive_round d src (b_udp b) (b_buf b) = (u', buf', c)" by (metis prod_cases3)
  have "same_endpoint (u_endpoint u') (Some src)"
    using receive_round_facts(4)[OF r] by (auto simp: same_endpoint_def)
  moreover have "bridge_run ops (b\<lparr>b_udp := u', b_buf := buf', b_pending := c\<rparr>) = Some b'"
    using "2.prems"(1) r by (simp split: if_splits)
  ultimately show ?case using "2.IH" by simp
qed (auto simp: SetOnPacket_def split: option.splits if_splits)

section \<open>Properties\<close>

text \<open>
  C20: the bridge delivers every datagram once, in order, to the callback installed when it was
  received, cut to 64 KiB: in any interleaving of the receive loop with changes of the callback
  and writes, the calls made, with the one call that may be in flight, are exactly those a
  sequential source owes; so after a detach at most that one call still comes, and while a
  callback stays installed it misses nothing.
\<close>

theorem bridge_delivers_in_order:
  assumes "bridge_run ops (new_bridge u) = Some b"
  shows "b_calls b @ (case b_pending b of None \<Rightarrow> [] | Some c \<Rightarrow> [c])
           = deliveries (u_on_pkt u) ops"
proof -
  from bridge_run_feeds[OF assms] have "snd (bridge_src.feed (source_events ops) (u, replicate buf_size 0)) = owed b"
    by (auto simp: owed_def new_bridge_def)
  then show ?thesis
    using bridge_src.feed_expected[of "(u, replicate buf_size 0)" "source_events ops"]
    by (simp add: expected_deliveries owed_def)
qed

definition demo_addr :: "int \<Rightarrow> udp_addr" where
  "demo_addr port = \<lparr>ua_ip = [127, 0, 0, 1], ua_port = port, ua_zone = ''''\<rparr>"

definition demo_udp :: "string udp" where
  "demo_udp = \<lparr>u_endpoint = None, u_on_pkt = None, u_closed = False\<rparr>"

definition demo_ops :: "string bridge_op list" where
  "demo_ops = [OpReceive [1] (demo_addr 1), OpSetOnPacket (Some ''f''), OpReceive [2] (demo_addr 1),
               OpSetOnPacket None, OpCall, OpReceive [3] (demo_addr 2)]"

lemma buf_size_pos: "buf_size = Suc 65535"
  by (simp add: buf_size_def)

lemma demo_run: "\<exists>b. bridge_run demo_ops (new_bridge demo_udp) = Some b"
  by (simp add: demo_ops_def demo_udp_def new_bridge_def SetOnPacket_def receive_round_def read_into_def Let_def
      demo_addr_def udpAddrEqual_def ip_equal_def)

theorem bridge_delivers_in_order_witness:
  "\<exists>b. bridge_run demo_ops (new_bridge demo_udp) = Some b \<and>
     b_calls b @ (case b_pending b of None \<Rightarrow> [] | Some c \<Rightarrow> [c]) = [(''f'', [2])]"
proof -
  obtain b where b: "bridge_run demo_ops (new_bridge demo_udp) = Some b" using demo_run by blast
  have "deliveries (u_on_pkt demo_udp) demo_ops = [(''f'', [2])]"
    by (simp add: demo_ops_def demo_udp_def buf_size_pos)
  with bridge_delivers_in_order[OF b] b show ?thesis by metis
qed

text \<open>
  C29: the bridge answers the latest sender: after any run from a bridge that has heard nobody,
  \<open>Write\<close> fails with \<open>ErrNoEndpoint\<close> and sends nothing if no datagram has been received,
  and otherwise sends the packet unchanged to an address equal to the source of the latest
  datagram.
\<close>

theorem write_answers_the_latest_sender:
  assumes "bridge_run ops (new_bridge u) = Some b" and "u_endpoint u = None"
  shows "(case last_sender None ops of
            None \<Rightarrow> Write_udp sock p (b_udp b) = ((0, Some ErrNoEndpoint), None)
          | Some src \<Rightarrow> \<exists>a. udpAddrEqual a src \<and> Write_udp sock p (b_udp b) = (sock p a, Some (a, p)))"
proof -
  have "same_endpoint (u_endpoint (b_udp b)) (last_sender None ops)"
    using bridge_run_endpoint[OF assms(1), of None] assms(2) by (simp add: new_bridge_def same_endpoint_def)
  then show ?thesis
    by (auto simp: same_endpoint_def Write_udp_def split: option.splits)
qed

theorem write_answers_the_latest_sender_witness:
  "\<exists>b a. bridge_run demo_ops (new_bridge demo_udp) = Some b \<and> udpAddrEqual a (demo_addr 2) \<and>
     Write_udp (\<lambda>p a. (length p, None)) [9] (b_udp b) = ((1, None), Some (a, [9]))"
proof -
  obtain b where b: "bridge_run demo_ops (new_bridge demo_udp) = Some b" using demo_run by blast
  have "last_sender None demo_ops = Some (demo_addr 2)" by (simp add: demo_ops_def)
  with write_answers_the_latest_sender[OF b, of "\<lambda>p a. (length p, None)" "[9]"] b show ?thesis
    by (auto simp: demo_udp_def)
qed

text \<open>The canonical form of an address: an IPv4-mapped IPv6 address is its four bytes.\<close>

definition canonical_ip :: "byte list \<Rightarrow> byte list" where
  "canonical_ip ip = (if length ip = 16 \<and> take 12 ip = v4InV6Prefix then drop 12 ip else ip)"

text \<open>
  Comparing endpoints is comparing canonical addresses: \<open>udpAddrEqual\<close> is equality of
  port, zone and the IP in its canonical form, so it is an equivalence relation, whichever of
  its two representations each address comes in.
\<close>

theorem endpoints_compare_canonically:
  "udpAddrEqual a b \<longleftrightarrow>
     (canonical_ip (ua_ip a), ua_port a, ua_zone a) = (canonical_ip (ua_ip b), ua_port b, ua_zone b)"
proof -
  have "ip_equal x y \<longleftrightarrow> canonical_ip x = canonical_ip y" for x y
    using append_take_drop_id[of 12 x] append_take_drop_id[of 12 y]
    by (auto simp: ip_equal_def canonical_ip_def) (metis append_take_drop_id)+
  then show ?thesis by (auto simp: udpAddrEqual_def)
qed

end
