(* ===== verification/Video.thy ===== *)
theory Video
  imports Mavframe
begin

text \<open>
  \<open>cmd/relay/video.go\<close>: the camera pipeline.  What the operating system hands out (a socket, a
  context, a process, the two goroutines) is kept in an explicit set of held resources, so that
  leaks are visible; the outcomes of the calls that can fail are arguments.
\<close>

section \<open>Resources\<close>

datatype resource =
    UdpConn nat
  | Context nat
  | Ffmpeg nat

text \<open>A \<open>videoSource\<close> is the number its resources carry.\<close>

record videoSource =
  vs_id :: nat

record video_env =
  ve_track :: "go_error option"
  ve_listen :: "go_error option"
  ve_pipe :: "go_error option"
  ve_start :: "string list \<Rightarrow> go_error option"

definition loopbackPort :: nat where "loopbackPort = 5004"

definition ffmpeg_args :: "string \<Rightarrow> string \<Rightarrow> string list" where
  "ffmpeg_args cameraDev resolution =
     [''-hide_banner'', ''-loglevel'', ''warning'', ''-f'', ''v4l2'', ''-input_format'', ''mjpeg'',
      ''-framerate'', ''30'', ''-video_size'', resolution, ''-i'', cameraDev,
      ''-c:v'', ''libx264'', ''-tune'', ''zerolatency'', ''-preset'', ''ultrafast'',
      ''-profile:v'', ''baseline'', ''-pix_fmt'', ''yuv420p'', ''-b:v'', ''1500k'', ''-maxrate'', ''1500k'',
      ''-bufsize'', ''750k'', ''-g'', ''90'', ''-an'', ''-f'', ''rtp'', ''-payload_type'', ''96'',
      ''rtp://127.0.0.1:'' @ dec_nat loopbackPort @ ''?pkt_size=1200'']"

text \<open>
  \<open>startVideoSource\<close>, with \<open>n\<close> a fresh number: its result and the resources held afterwards.
  Each early return gives back what was taken before it.
\<close>

definition startVideoSource ::
    "video_env \<Rightarrow> string \<Rightarrow> string \<Rightarrow> nat \<Rightarrow> resource set \<Rightarrow> (go_error + videoSource) \<times> resource set" where
  "startVideoSource env cameraDev resolution n held =
     (case ve_track env of
        Some e \<Rightarrow> (Inl (WrapError ''new track'' e), held)
      | None \<Rightarrow>
          (case ve_listen env of
             Some e \<Rightarrow> (Inl (WrapError (''listen udp 127.0.0.1:'' @ dec_nat loopbackPort) e), held)
           | None \<Rightarrow>
               let held1 = insert (UdpConn n) held;
                   held2 = insert (Context n) held1
               in (case ve_pipe env of
                     Some e \<Rightarrow> (Inl (WrapError ''ffmpeg stderr pipe'' e), held2 - {UdpConn n} - {Context n})
                   | None \<Rightarrow>
                       (case ve_start env (ffmpeg_args cameraDev resolution) of
                          Some e \<Rightarrow> (Inl (WrapError ''ffmpeg start'' e), held2 - {UdpConn n} - {Context n})
                        | None \<Rightarrow> (Inr \<lparr>vs_id = n\<rparr>, insert (Ffmpeg n) held2)))))"

text \<open>\<open>Close\<close>, on a pointer that may be nil.\<close>

definition Close_video :: "videoSource option \<Rightarrow> resource set \<Rightarrow> resource set" where
  "Close_video vs held =
     (case vs of
        None \<Rightarrow> held
      | Some v \<Rightarrow> held - {Context (vs_id v)} - {Ffmpeg (vs_id v)} - {UdpConn (vs_id v)})"

definition fresh_resource :: "nat \<Rightarrow> resource set \<Rightarrow> bool" where
  "fresh_resource n held \<longleftrightarrow> UdpConn n \<notin> held \<and> Context n \<notin> held \<and> Ffmpeg n \<notin> held"

definition video_resources :: "nat \<Rightarrow> resource set" where
  "video_resources n = {UdpConn n, Context n, Ffmpeg n}"

lemma startVideoSource_Inl:
  "startVideoSource env dv sz n held = (Inl e, held') \<Longrightarrow> fresh_resource n held \<Longrightarrow> held' = held"
  by (auto simp: startVideoSource_def fresh_resource_def Let_def split: option.splits)

lemma startVideoSource_Inr:
  "startVideoSource env dv sz n held = (Inr v, held') \<Longrightarrow> v = \<lparr>vs_id = n\<rparr> \<and> held' = held \<union> video_resources n"
  by (auto simp: startVideoSource_def video_resources_def Let_def split: option.splits)

lemma Close_video_Some: "Close_video (Some v) held = held - video_resources (vs_id v)"
  by (auto simp: Close_video_def video_resources_def)

lemma Close_video_None [simp]: "Close_video None held = held"
  by (simp add: Close_video_def)

section \<open>Forwarding RTP\<close>

text \<open>
  One round of \<open>readRTP\<close>: whether the context is done when it starts, the datagram or the error
  of the read, and the error with which \<open>WriteRTP\<close> would answer.
\<close>

record rtp_round =
  rr_ctx :: bool
  rr_read :: "go_error + packet"
  rr_write :: "go_error option"

text \<open>The packets handed to the track and whether the loop has returned.\<close>

fun readRTP :: "(packet \<Rightarrow> go_error + 'rtp) \<Rightarrow> rtp_round list \<Rightarrow> 'rtp list \<times> bool" where
  "readRTP unmarshal [] = ([], False)"
| "readRTP unmarshal (r # rs) =
     (if rr_ctx r then ([], True)
      else (case rr_read r of
              Inl e \<Rightarrow> ([], True)
            | Inr d \<Rightarrow>
                (case unmarshal (take 1600 d) of
                   Inl e \<Rightarrow> readRTP unmarshal rs
                 | Inr pkt \<Rightarrow>
                     (case rr_write r of
                        Some e \<Rightarrow> ([pkt], True)
                      | None \<Rightarrow> (case readRTP unmarshal rs of (ps, fin) \<Rightarrow> (pkt # ps, fin))))))"

section \<open>The log of ffmpeg's stderr\<close>

definition newline :: char where "newline = CHR 0x0A"

text \<open>\<open>strings.Split(s, newline)\<close>, never empty.\<close>

fun split_lines :: "string \<Rightarrow> string list" where
  "split_lines [] = [[]]"
| "split_lines (c # cs) =
     (if c = newline then [] # split_lines cs
      else (c # hd (split_lines cs)) # tl (split_lines cs))"

text \<open>
  The reads, each with the bytes it gave and whether it gave an error; the result is the lines
  logged.
\<close>

fun log_stderr :: "string \<Rightarrow> (string \<times> bool) list \<Rightarrow> string list" where
  "log_stderr carry [] = []"
| "log_stderr carry ((chunk, err) # rs) =
     (let lines = split_lines (carry @ chunk);
          (carry', out) =
            (if chunk \<noteq> []
             then (last lines, filter (\<lambda>l. trim_space l \<noteq> '''') (butlast lines))
             else (carry, []))
      in out @ (if err then (if carry' \<noteq> '''' then [carry'] else []) else log_stderr carry' rs))"

definition logFfmpegStderr :: "(string \<times> bool) list \<Rightarrow> string list" where
  "logFfmpegStderr rs = log_stderr '''' rs"

lemma split_lines_nonempty [simp]: "split_lines s \<noteq> []"
  by (cases s) auto

lemma split_lines_append:
  "split_lines (a @ b) = butlast (split_lines a) @ split_lines (last (split_lines a) @ b)"
proof (induction a)
  case Nil
  show ?case by simp
next
  case (Cons c a)
  obtain l ls where a: "split_lines a = l # ls" by (cases "split_lines a") auto
  show ?case
    using Cons a by (cases ls) auto
qed

lemma split_lines_last: "split_lines (last (split_lines a)) = [last (split_lines a)]"
proof (induction a)
  case Nil
  show ?case by simp
next
  case (Cons c a)
  obtain l ls where a: "split_lines a = l # ls" by (cases "split_lines a") auto
  show ?case
    using Cons a by (cases ls) auto
qed

text \<open>What is logged of a text when it is split as a whole.\<close>

definition report :: "string list \<Rightarrow> string list" where
  "report ls = filter (\<lambda>l. trim_space l \<noteq> '''') (butlast ls) @ (if last ls \<noteq> '''' then [last ls] else [])"

lemma report_append:
  "ys \<noteq> [] \<Longrightarrow> report (xs @ ys) = filter (\<lambda>l. trim_space l \<noteq> '''') xs @ report ys"
  by (simp add: report_def butlast_append)

lemma log_stderr_step:
  assumes "split_lines carry = [carry]"
  shows "log_stderr carry ((chunk, err) # rs) =
    (let ls = split_lines (carry @ chunk)
     in if err then report ls
        else filter (\<lambda>l. trim_space l \<noteq> '''') (butlast ls) @ log_stderr (last ls) rs)"
  using assms by (simp add: report_def Let_def)

lemma log_stderr_report:
  "split_lines carry = [carry] \<Longrightarrow> \<forall>r \<in> set rs. \<not> snd r \<Longrightarrow>
     log_stderr carry (rs @ [(chunk, True)]) = report (split_lines (carry @ concat (map fst rs) @ chunk))"
proof (induction rs arbitrary: carry)
  case Nil
  then show ?case by (simp only: append_Nil log_stderr_step list.map concat.simps) (simp add: Let_def)
next
  case (Cons r rs)
  obtain c where r: "r = (c, False)" using Cons.prems(2) by (cases r) auto
  let ?ls = "split_lines (carry @ c)"
  have "log_stderr carry ((r # rs) @ [(chunk, True)])
      = filter (\<lambda>l. trim_space l \<noteq> '''') (butlast ?ls) @ log_stderr (last ?ls) (rs @ [(chunk, True)])"
    using Cons.prems(1) by (simp only: r append_Cons log_stderr_step) (simp add: Let_def)
  also have "log_stderr (last ?ls) (rs @ [(chunk, True)])
      = report (split_lines (last ?ls @ concat (map fst rs) @ chunk))"
    using Cons.prems(2) by (intro Cons.IH split_lines_last) simp
  finally show ?case
    using split_lines_append[of "carry @ c" "concat (map fst rs) @ chunk"]
    by (simp add: r report_append)
qed

section \<open>Properties\<close>

text \<open>
  The camera leaks nothing: a start that fails at any of its four points leaves exactly the
  resources held before; a start that succeeds adds a socket, a context and a process, and
  closing it, any positive number of times, gives exactly these back.
\<close>

theorem camera_resources_balance:
  assumes "fresh_resource n held" and "startVideoSource env dv sz n held = (res, held')"
  shows "case res of
      Inl e \<Rightarrow> held' = held
    | Inr v \<Rightarrow> UdpConn n \<in> held' \<and> Context n \<in> held' \<and> Ffmpeg n \<in> held'
        \<and> (Close_video (Some v) ^^ Suc k) held' = held"
proof (cases res)
  case (Inl e)
  then show ?thesis using assms startVideoSource_Inl by auto
next
  case (Inr v)
  with assms(2) have v: "v = \<lparr>vs_id = n\<rparr>" "held' = held \<union> video_resources n"
    using startVideoSource_Inr by blast+
  have "held \<inter> video_resources n = {}"
    using assms(1) by (auto simp: fresh_resource_def video_resources_def)
  then have "(Close_video (Some v) ^^ Suc k) held' = held"
    by (induction k) (auto simp: v Close_video_Some)
  with Inr v show ?thesis by (simp add: video_resources_def)
qed

definition demo_video_env :: video_env where
  "demo_video_env = \<lparr>ve_track = None, ve_listen = None, ve_pipe = None, ve_start = (\<lambda>a. None)\<rparr>"

theorem camera_resources_balance_witness:
  "Close_video (Some \<lparr>vs_id = 3\<rparr>) (Close_video (Some \<lparr>vs_id = 3\<rparr>)
     (snd (startVideoSource demo_video_env ''d'' ''s'' 3 {UdpConn 1}))) = {UdpConn 1}"
  using camera_resources_balance[of 3 "{UdpConn 1}" demo_video_env "''d''" "''s''" "Inr \<lparr>vs_id = 3\<rparr>" _ 1]
  by (simp add: fresh_resource_def startVideoSource_def demo_video_env_def)

text \<open>
  C32: ffmpeg's log does not depend on how the pipe cuts it: if every read but the last ends
  without an error, what is logged is a function of the bytes alone, the non-blank lines of the
  whole text and its last, unterminated line if there is one.
\<close>

theorem stderr_log_ignores_chunking:
  assumes "\<forall>r \<in> set rs. \<not> snd r"
  shows "logFfmpegStderr (rs @ [(chunk, True)])
    = (let ls = split_lines (concat (map fst rs) @ chunk)
       in filter (\<lambda>l. trim_space l \<noteq> '''') (butlast ls) @ (if last ls \<noteq> '''' then [last ls] else []))"
  using log_stderr_report[OF _ assms, of "''''"] by (simp add: logFfmpegStderr_def report_def Let_def)

theorem stderr_log_ignores_chunking_witness:
  "logFfmpegStderr ([(''a'', False), (''b'', False)] @ [(''c'', True)]) = [''abc'']"
  using stderr_log_ignores_chunking[of "[(''a'', False), (''b'', False)]" "''c''"]
  by (simp add: newline_def)

end
