(* ===== verification/Backoff.thy ===== *)
theory Backoff
  imports Messages
begin

text \<open>
  The outer part of \<open>cmd/relay/main.go\<close>: logging in over HTTP, one cycle of connecting to the
  signaling service, and the loop that repeats cycles with exponential backoff.  A
  \<open>time.Duration\<close> is a signed 64-bit number of nanoseconds, so the doubling is written with
  its wrap-around.
\<close>

section \<open>Logging in\<close>

text \<open>
  \<open>hc_new_request\<close> is the error of building the request for a URL, \<open>hc_do\<close> the reply to a
  \<open>POST\<close> of a JSON body: its status, its text and the JSON value the text holds.
\<close>

record http_reply =
  rp_status :: nat
  rp_text :: string
  rp_json :: "go_error + json"

record http_client =
  hc_new_request :: "string \<Rightarrow> go_error option"
  hc_do :: "string \<Rightarrow> json \<Rightarrow> go_error + http_reply"

definition access_token_type :: string where
  "access_token_type =
     ''struct { AccessToken string '' @ go_quote (''json:'' @ [CHR 0x22] @ ''access_token'' @ [CHR 0x22]) @ '' }''"

definition access_token_fields :: "(string \<times> string setter) list" where
  "access_token_fields = [(''access_token'', set_string (\<lambda>s r. s))]"

definition decode_access_token :: "json \<Rightarrow> go_error option \<times> string" where
  "decode_access_token v =
     (case v of
        JObj ms \<Rightarrow> decode_members '''' '''' access_token_fields ms None ''''
      | JNull \<Rightarrow> (None, '''')
      | _ \<Rightarrow> (Some (UnmarshalTypeError (json_kind v) '''' '''' access_token_type), ''''))"

definition login :: "http_client \<Rightarrow> string \<Rightarrow> string \<Rightarrow> string \<Rightarrow> go_error + string" where
  "login hc baseURL user pass =
     (let body = JObj [(''password'', JStr pass), (''username'', JStr user)];
          url = baseURL @ ''/v1/auth/login''
      in case hc_new_request hc url of
           Some e \<Rightarrow> Inl e
         | None \<Rightarrow>
             (case hc_do hc url body of
                Inl e \<Rightarrow> Inl e
              | Inr resp \<Rightarrow>
                  if rp_status resp \<noteq> 200
                  then Inl (NewError (''login '' @ dec_nat (rp_status resp) @ '': '' @ rp_text resp))
                  else (case rp_json resp of
                          Inl e \<Rightarrow> Inl e
                        | Inr v \<Rightarrow>
                            (case checked (decode_access_token v) of
                               Inl e \<Rightarrow> Inl e
                             | Inr tok \<Rightarrow>
                                 if tok = '''' then Inl (NewError ''login: empty access_token'') else Inr tok))))"

section \<open>A cycle\<close>

text \<open>
  What a cycle meets: the HTTP client, the outcomes of dialing and of writing the hello, and
  the error with which \<open>runWSLoop\<close> ends.  \<open>runWSLoop\<close> returns only the error of a failed read,
  so it never returns \<open>nil\<close>.
\<close>

record cycle_env =
  ce_http :: http_client
  ce_dial :: "go_error option"
  ce_hello :: "json \<Rightarrow> go_error option"
  ce_loop :: go_error

definition sessionCycle :: "string \<Rightarrow> string \<Rightarrow> string \<Rightarrow> cycle_env \<Rightarrow> go_error option" where
  "sessionCycle authURL user pass env =
     (case login (ce_http env) authURL user pass of
        Inl e \<Rightarrow> Some (WrapError ''login'' e)
      | Inr tok \<Rightarrow>
          (case ce_dial env of
             Some e \<Rightarrow> Some (WrapError ''ws dial'' e)
           | None \<Rightarrow>
               (case ce_hello env (encode_hello \<lparr>hello_kind = KindHello, hello_token = tok\<rparr>) of
                  Some e \<Rightarrow> Some (WrapError ''hello'' e)
                | None \<Rightarrow> Some (ce_loop env))))"

section \<open>Backoff\<close>

definition wrap64 :: "int \<Rightarrow> int" where
  "wrap64 x = (x + 2 ^ 63) mod 2 ^ 64 - 2 ^ 63"

definition next_delay :: "int \<Rightarrow> int \<Rightarrow> int" where
  "next_delay maxDelay delay =
     (let d = wrap64 (delay * 2) in if maxDelay < d then maxDelay else d)"

text \<open>
  One attempt: what \<open>do\<close> returned, whether the context was cancelled when it did, and whether it
  is cancelled during the wait that follows.
\<close>

record attempt =
  at_err :: "go_error option"
  at_ctx :: bool
  at_wait_ctx :: bool

text \<open>
  The delays waited for, in order, and whether the loop has returned; an exhausted list of
  attempts leaves it running.
\<close>

fun backoff_loop :: "int \<Rightarrow> int \<Rightarrow> int \<Rightarrow> attempt list \<Rightarrow> int list \<times> bool" where
  "backoff_loop minDelay maxDelay delay [] = ([], False)"
| "backoff_loop minDelay maxDelay delay (a # rest) =
     (if at_ctx a then ([], True)
      else (case at_err a of
              None \<Rightarrow> backoff_loop minDelay maxDelay minDelay rest
            | Some e \<Rightarrow>
                if at_wait_ctx a then ([delay], True)
                else (case backoff_loop minDelay maxDelay (next_delay maxDelay delay) rest of
                        (ws, r) \<Rightarrow> (delay # ws, r))))"

definition runWithBackoff :: "int \<Rightarrow> int \<Rightarrow> attempt list \<Rightarrow> int list \<times> bool" where
  "runWithBackoff minDelay maxDelay attempts = backoff_loop minDelay maxDelay minDelay attempts"

section \<open>Facts\<close>

lemma wrap64_id: "- (2 ^ 63) \<le> x \<Longrightarrow> x < 2 ^ 63 \<Longrightarrow> wrap64 x = x"
  by (simp add: wrap64_def)

lemma next_delay_double:
  "0 < d \<Longrightarrow> d \<le> maxD \<Longrightarrow> maxD < 2 ^ 62 \<Longrightarrow> next_delay maxD d = min maxD (2 * d)"
  by (simp add: next_delay_def Let_def wrap64_id min_def)

text \<open>The delays of an unbroken series of failures, from the one after \<open>k\<close> of them.\<close>

lemma backoff_loop_failing:
  assumes "0 < minD" and "minD \<le> maxD" and "maxD < 2 ^ 62"
    and "\<forall>a \<in> set as. \<not> at_ctx a \<and> \<not> at_wait_ctx a \<and> at_err a \<noteq> None"
  shows "backoff_loop minD maxD (min maxD (minD * 2 ^ k)) as
           = (map (\<lambda>j. min maxD (minD * 2 ^ j)) [k..<k + length as], False)"
  using assms(4)
proof (induction as arbitrary: k)
  case Nil
  then show ?case by simp
next
  case (Cons a as)
  let ?d = "min maxD (minD * 2 ^ k)"
  have "0 < ?d" using assms(1,2) by simp
  then have "next_delay maxD ?d = min maxD (2 * ?d)"
    using assms(3) by (intro next_delay_double) auto
  also have "\<dots> = min maxD (minD * 2 ^ Suc k)" using assms(1,2) by (auto simp: min_def)
  finally have "next_delay maxD ?d = min maxD (minD * 2 ^ Suc k)" .
  moreover obtain e where "at_err a = Some e" using Cons.prems by auto
  ultimately show ?case
    using Cons.prems Cons.IH[of "Suc k"] by (simp add: upt_conv_Cons del: upt_Suc)
qed

text \<open>The loop returns exactly when some attempt sees the cancellation.\<close>

lemma backoff_loop_returns:
  "snd (backoff_loop minD maxD d as) \<longleftrightarrow> (\<exists>a \<in> set as. at_ctx a \<or> at_err a \<noteq> None \<and> at_wait_ctx a)"
  by (induction minD maxD d as rule: backoff_loop.induct) (fastforce split: option.splits prod.splits)+

lemma sessionCycle_fails: "sessionCycle authURL user pass env \<noteq> None"
  by (simp add: sessionCycle_def split: sum.splits option.splits)

section \<open>Properties\<close>

definition cycle_attempt :: "string \<Rightarrow> string \<Rightarrow> string \<Rightarrow> cycle_env \<Rightarrow> attempt" where
  "cycle_attempt authURL user pass env =
     \<lparr>at_err = sessionCycle authURL user pass env, at_ctx = False, at_wait_ctx = False\<rparr>"


definition demo_client :: http_client where
  "demo_client =
     \<lparr>hc_new_request = (\<lambda>url. None),
      hc_do = (\<lambda>url body. Inr \<lparr>rp_status = 200, rp_text = ''{}'',
                 rp_json = Inr (JObj [(''access_token'', JStr ''tok'')])\<rparr>)\<rparr>"

definition demo_env :: cycle_env where
  "demo_env =
     \<lparr>ce_http = demo_client, ce_dial = None, ce_hello = (\<lambda>m. None), ce_loop = LibError ''EOF''\<rparr>"

lemma demo_cycle: "sessionCycle ''http://a'' ''u'' ''p'' demo_env = Some (LibError ''EOF'')"
  by (simp add: sessionCycle_def login_def demo_env_def demo_client_def Let_def checked_def
      decode_access_token_def access_token_fields_def find_field_def set_string_def)


text \<open>
  The backoff loop ends on cancellation and only then: it has returned if and only if the
  context was found cancelled after some attempt, or during the wait after a failed one.
\<close>

theorem backoff_ends_only_on_cancel:
  "snd (runWithBackoff minD maxD attempts)
     \<longleftrightarrow> (\<exists>a \<in> set attempts. at_ctx a \<or> at_err a \<noteq> None \<and> at_wait_ctx a)"
  by (simp add: runWithBackoff_def backoff_loop_returns)

end
