(* ===== verification/Relay.thy ===== *)
theory Relay
  imports Mavbridge Video Backoff
begin

text \<open>
  \<open>cmd/relay/main.go\<close>: the drone's companion.  \<open>runWSLoop\<close> handles the messages of the
  signaling service one at a time; the callbacks of the WebRTC library (ICE candidates,
  connection states, data channels) and the bridge's receive loop run on other goroutines, so the
  relay is a machine over events that come in any order.  Peer connections, data channels and
  packet callbacks are numbers; a peer connection keeps a log of what was done to it.  The
  outcomes of library calls come with the event that makes them.
\<close>

section \<open>State\<close>

record relay_config =
  rc_auth_url :: string
  rc_signal_url :: string
  rc_user :: string
  rc_pass :: string
  rc_mavlink_listen :: string
  rc_min_delay :: int
  rc_max_delay :: int
  rc_debug :: bool
  rc_skip_signaling :: bool
  rc_camera_dev :: string
  rc_camera_size :: string

text \<open>The flags' defaults; durations are in nanoseconds.\<close>

definition default_config :: relay_config where
  "default_config =
     \<lparr>rc_auth_url = ''http://localhost:8081'', rc_signal_url = ''ws://localhost:8080/v1/signal'',
      rc_user = ''drone-42'', rc_pass = ''drone-42-dev'', rc_mavlink_listen = '':14550'',
      rc_min_delay = 1000000000, rc_max_delay = 30000000000, rc_debug = False, rc_skip_signaling = False,
      rc_camera_dev = '''', rc_camera_size = ''1280x720''\<rparr>"

text \<open>The closure \<open>installTelemetryHandler\<close> builds: the logger's counter and the channel.\<close>

record sink =
  sk_debug :: "64 word option"
  sk_dc :: "nat option"

datatype pc_action =
    RemoteSdp string string
  | TrackAdded nat
  | LocalSdp string string
  | RemoteCandidate json

record peer_conn =
  pc_session :: string
  pc_ice :: "ice_server list"
  pc_open :: bool
  pc_log :: "pc_action list"

record relay =
  r_pc :: "nat option"
  r_session :: string
  r_camera :: "videoSource option"
  r_ended :: "go_error option"
  r_next :: nat
  r_pcs :: "nat \<rightharpoonup> peer_conn"
  r_channels :: "nat \<rightharpoonup> string"
  r_held :: "resource set"
  r_sent :: "json list"
  r_bridge :: "nat udp"
  r_buf :: packet
  r_pending :: "(nat \<times> packet) option"
  r_sinks :: "nat \<rightharpoonup> sink"
  r_dc_sent :: "(nat \<times> packet) list"
  r_udp_sent :: "(udp_addr \<times> packet) list"
  r_events :: "packet list"
  r_crashed :: bool

definition new_relay :: "nat udp \<Rightarrow> relay" where
  "new_relay u =
     \<lparr>r_pc = None, r_session = '''', r_camera = None, r_ended = None, r_next = 0, r_pcs = Map.empty,
      r_channels = Map.empty, r_held = {}, r_sent = [], r_bridge = u, r_buf = replicate buf_size 0,
      r_pending = None, r_sinks = Map.empty, r_dc_sent = [], r_udp_sent = [], r_events = [], r_crashed = False\<rparr>"

text \<open>What the libraries answer in one round of the loop.\<close>

record pion =
  px_codecs :: "go_error option"
  px_nack :: "go_error option"
  px_reports :: "go_error option"
  px_new :: "go_error option"
  px_set_remote :: "go_error option"
  px_video :: video_env
  px_add_track :: "go_error option"
  px_answer :: "go_error + string"
  px_set_local :: "go_error option"
  px_write :: "go_error option"
  px_candidate :: "json \<Rightarrow> go_error option"
  px_add_ice :: "go_error option"

section \<open>Telemetry\<close>

definition installTelemetryHandler :: "nat option \<Rightarrow> bool \<Rightarrow> relay \<Rightarrow> relay" where
  "installTelemetryHandler dc debug r =
     (let dbg = (if debug then Some 0 else None)
      in if dc = None \<and> dbg = None
         then r\<lparr>r_bridge := SetOnPacket None (r_bridge r)\<rparr>
         else r\<lparr>r_sinks := (r_sinks r)(r_next r \<mapsto> \<lparr>sk_debug = dbg, sk_dc = dc\<rparr>),
                r_bridge := SetOnPacket (Some (r_next r)) (r_bridge r),
                r_next := Suc (r_next r)\<rparr>)"

text \<open>A call of such a closure with a packet.\<close>

definition call_sink :: "nat \<Rightarrow> packet \<Rightarrow> relay \<Rightarrow> relay" where
  "call_sink s pkt r =
     (case r_sinks r s of
        None \<Rightarrow> r
      | Some k \<Rightarrow>
          let (dbg', line) =
                (case sk_debug k of
                   None \<Rightarrow> (None, Quiet)
                 | Some count \<Rightarrow> (case debug_logger ''udp'' count pkt of (count', l) \<Rightarrow> (Some count', l)));
              r' = r\<lparr>r_sinks := (r_sinks r)(s \<mapsto> k\<lparr>sk_debug := dbg'\<rparr>)\<rparr>
          in if line = IndexPanic then r'\<lparr>r_crashed := True\<rparr>
             else (case sk_dc k of
                     None \<Rightarrow> r'
                   | Some dc \<Rightarrow> r'\<lparr>r_dc_sent := r_dc_sent r' @ [(dc, pkt)]\<rparr>))"

section \<open>Peer connections\<close>

definition close_pc :: "nat \<Rightarrow> relay \<Rightarrow> relay" where
  "close_pc i r =
     (case r_pcs r i of
        None \<Rightarrow> r
      | Some p \<Rightarrow> r\<lparr>r_pcs := (r_pcs r)(i \<mapsto> p\<lparr>pc_open := False\<rparr>)\<rparr>)"

definition pc_do :: "pc_action \<Rightarrow> nat \<Rightarrow> relay \<Rightarrow> relay" where
  "pc_do a i r =
     (case r_pcs r i of
        None \<Rightarrow> r
      | Some p \<Rightarrow> r\<lparr>r_pcs := (r_pcs r)(i \<mapsto> p\<lparr>pc_log := pc_log p @ [a]\<rparr>)\<rparr>)"

text \<open>
  The configuration handed to the WebRTC library: its server type has the same three fields, and
  it does not tell a nil list from an empty one.
\<close>

definition webrtc_ice_servers :: "ice_server list option \<Rightarrow> ice_server list" where
  "webrtc_ice_servers servers =
     map (\<lambda>s. \<lparr>ice_urls = ice_urls s, ice_username = ice_username s, ice_credential = ice_credential s\<rparr>)
       (case servers of None \<Rightarrow> [] | Some ss \<Rightarrow> ss)"

lemma webrtc_ice_servers_Some [simp]: "webrtc_ice_servers (Some xs) = xs"
  by (simp add: webrtc_ice_servers_def map_idI)

definition newPeerConn ::
    "pion \<Rightarrow> string \<Rightarrow> ice_server list option \<Rightarrow> relay \<Rightarrow> (go_error + nat) \<times> relay" where
  "newPeerConn px session ice r =
     (case px_codecs px of
        Some e \<Rightarrow> (Inl (WrapError ''register default codecs'' e), r)
      | None \<Rightarrow>
          (case px_nack px of
             Some e \<Rightarrow> (Inl (WrapError ''configure nack'' e), r)
           | None \<Rightarrow>
               (case px_reports px of
                  Some e \<Rightarrow> (Inl (WrapError ''configure rtcp reports'' e), r)
                | None \<Rightarrow>
                    (case px_new px of
                       Some e \<Rightarrow> (Inl e, r)
                     | None \<Rightarrow>
                         (Inr (r_next r),
                          r\<lparr>r_pcs := (r_pcs r)(r_next r \<mapsto>
                              \<lparr>pc_session = session, pc_ice = webrtc_ice_servers ice, pc_open = True, pc_log = []\<rparr>),
                            r_next := Suc (r_next r)\<rparr>)))))"

section \<open>The handlers of runWSLoop\<close>

definition drop_camera :: "relay \<Rightarrow> relay" where
  "drop_camera r = r\<lparr>r_held := Close_video (r_camera r) (r_held r), r_camera := None\<rparr>"

definition on_session_ack :: "relay_config \<Rightarrow> pion \<Rightarrow> session_ack_msg \<Rightarrow> relay \<Rightarrow> relay" where
  "on_session_ack cfg px m r =
     (if ack_initiator m then r
      else
        (let r1 = (case r_pc r of
                     None \<Rightarrow> r
                   | Some i \<Rightarrow> installTelemetryHandler None (rc_debug cfg) ((close_pc i r)\<lparr>r_pc := None\<rparr>));
             r2 = (drop_camera r1)\<lparr>r_session := ack_session m\<rparr>
         in case newPeerConn px (r_session r2) (ack_ice_servers m) r2 of
              (Inl e, r3) \<Rightarrow> r3
            | (Inr i, r3) \<Rightarrow> r3\<lparr>r_pc := Some i\<rparr>))"

text \<open>Starting the camera and adding its track, when one is configured and none runs.\<close>

definition add_camera :: "relay_config \<Rightarrow> pion \<Rightarrow> nat \<Rightarrow> relay \<Rightarrow> relay" where
  "add_camera cfg px i r =
     (if rc_camera_dev cfg \<noteq> '''' \<and> r_camera r = None
      then (case startVideoSource (px_video px) (rc_camera_dev cfg) (rc_camera_size cfg) (r_next r) (r_held r) of
              (Inl e, held) \<Rightarrow> r\<lparr>r_held := held, r_next := Suc (r_next r)\<rparr>
            | (Inr v, held) \<Rightarrow>
                let r1 = r\<lparr>r_held := held, r_next := Suc (r_next r), r_camera := Some v\<rparr>
                in (case px_add_track px of
                      Some e \<Rightarrow> drop_camera r1
                    | None \<Rightarrow> pc_do (TrackAdded (vs_id v)) i r1))
      else r)"

definition on_peer_sdp :: "relay_config \<Rightarrow> pion \<Rightarrow> sdp_msg \<Rightarrow> relay \<Rightarrow> relay" where
  "on_peer_sdp cfg px m r =
     (case r_pc r of
        None \<Rightarrow> r
      | Some i \<Rightarrow>
          if sdp_role m \<noteq> ''offer'' then r
          else (case px_set_remote px of
                  Some e \<Rightarrow> r
                | None \<Rightarrow>
                    (let r1 = add_camera cfg px i (pc_do (RemoteSdp ''offer'' (sdp_sdp m)) i r)
                     in case px_answer px of
                          Inl e \<Rightarrow> r1
                        | Inr answer \<Rightarrow>
                            (case px_set_local px of
                               Some e \<Rightarrow> r1
                             | None \<Rightarrow>
                                 (let r2 = pc_do (LocalSdp ''answer'' answer) i r1
                                  in case px_write px of
                                       Some e \<Rightarrow> r2
                                     | None \<Rightarrow>
                                         r2\<lparr>r_sent := r_sent r2 @
                                           [encode_sdp \<lparr>sdp_kind = KindSDP, sdp_session = r_session r2,
                                                        sdp_role = ''answer'', sdp_sdp = answer\<rparr>]\<rparr>)))))"

definition on_peer_ice :: "pion \<Rightarrow> ice_msg \<Rightarrow> relay \<Rightarrow> relay" where
  "on_peer_ice px m r =
     (case r_pc r of
        None \<Rightarrow> r
      | Some i \<Rightarrow>
          (case px_candidate px (icem_cand m) of
             Some e \<Rightarrow> r
           | None \<Rightarrow>
               (case px_add_ice px of
                  Some e \<Rightarrow> r
                | None \<Rightarrow> pc_do (RemoteCandidate (icem_cand m)) i r)))"

definition on_peer_gone :: "relay_config \<Rightarrow> relay \<Rightarrow> relay" where
  "on_peer_gone cfg r =
     (let r1 = (case r_pc r of None \<Rightarrow> r | Some i \<Rightarrow> (close_pc i r)\<lparr>r_pc := None\<rparr>)
      in installTelemetryHandler None (rc_debug cfg) (drop_camera r1))"

text \<open>
  One message.  The decoders' errors are ignored, so each handler gets whatever could be decoded;
  \<open>hello.ok\<close>, \<open>err\<close> and unknown kinds change nothing.
\<close>

definition ws_round :: "relay_config \<Rightarrow> pion \<Rightarrow> json \<Rightarrow> relay \<Rightarrow> relay" where
  "ws_round cfg px raw r =
     (case unmarshal_envelope raw of
        Inl e \<Rightarrow> r
      | Inr env \<Rightarrow>
          if env_kind env = KindHelloOK then r
          else if env_kind env = KindSessionAck then on_session_ack cfg px (snd (decode_session_ack raw)) r
          else if env_kind env = KindPeerSDP then on_peer_sdp cfg px (snd (decode_peer_sdp raw)) r
          else if env_kind env = KindPeerICE then on_peer_ice px (snd (decode_peer_ice raw)) r
          else if env_kind env = KindPeerGone then on_peer_gone cfg r
          else r)"

text \<open>The deferred clean-up when the read fails with \<open>e\<close>.\<close>

definition ws_end :: "relay_config \<Rightarrow> go_error \<Rightarrow> relay \<Rightarrow> relay" where
  "ws_end cfg e r =
     (let r1 = drop_camera r;
          r2 = (case r_pc r1 of None \<Rightarrow> r1 | Some i \<Rightarrow> close_pc i r1)
      in (installTelemetryHandler None (rc_debug cfg) r2)\<lparr>r_ended := Some e\<rparr>)"

text \<open>The variables of a new call of \<open>runWSLoop\<close>.\<close>

definition ws_start :: "relay \<Rightarrow> relay" where
  "ws_start r = r\<lparr>r_pc := None, r_session := '''', r_camera := None, r_ended := None\<rparr>"

section \<open>Callbacks\<close>

text \<open>A local candidate, sent in the session its connection was made for.\<close>

definition on_ice_candidate :: "nat \<Rightarrow> json option \<Rightarrow> go_error option \<Rightarrow> relay \<Rightarrow> relay" where
  "on_ice_candidate i c write_err r =
     (case c of
        None \<Rightarrow> r
      | Some b \<Rightarrow>
          (case (r_pcs r i, write_err) of
             (Some p, None) \<Rightarrow>
               r\<lparr>r_sent := r_sent r @
                   [encode_ice \<lparr>icem_kind = KindICE, icem_session = pc_session p, icem_cand = b\<rparr>]\<rparr>
           | _ \<Rightarrow> r))"

datatype pc_state = PcNew | PcConnecting | PcConnected | PcDisconnected | PcFailed | PcClosed

definition on_connection_state :: "relay_config \<Rightarrow> pc_state \<Rightarrow> relay \<Rightarrow> relay" where
  "on_connection_state cfg s r =
     (if s = PcFailed \<or> s = PcClosed \<or> s = PcDisconnected
      then installTelemetryHandler None (rc_debug cfg) r else r)"

text \<open>Data channels: the callbacks are chosen by the label when the channel arrives.\<close>

definition on_data_channel :: "nat \<Rightarrow> string \<Rightarrow> relay \<Rightarrow> relay" where
  "on_data_channel dc label r = r\<lparr>r_channels := (r_channels r)(dc \<mapsto> label)\<rparr>"

text \<open>The callbacks set on a channel; one that is not set does nothing.\<close>

record channel_callbacks =
  cb_open :: "relay \<Rightarrow> relay"
  cb_message :: "bool \<Rightarrow> packet \<Rightarrow> relay \<Rightarrow> relay"
  cb_close :: "relay \<Rightarrow> relay"

definition no_callbacks :: channel_callbacks where
  "no_callbacks = \<lparr>cb_open = (\<lambda>r. r), cb_message = (\<lambda>is_string data r. r), cb_close = (\<lambda>r. r)\<rparr>"

definition wireTelemetry :: "nat \<Rightarrow> bool \<Rightarrow> channel_callbacks" where
  "wireTelemetry dc debug =
     no_callbacks\<lparr>cb_open := installTelemetryHandler (Some dc) debug,
                  cb_close := installTelemetryHandler None debug\<rparr>"

definition wireCommand_message :: "bool \<Rightarrow> packet \<Rightarrow> relay \<Rightarrow> relay" where
  "wireCommand_message is_string data r =
     (if is_string then r
      else (case snd (Write_udp (\<lambda>p a. (length p, None)) data (r_bridge r)) of
              None \<Rightarrow> r
            | Some s \<Rightarrow> r\<lparr>r_udp_sent := r_udp_sent r @ [s]\<rparr>))"

definition wireCommand :: channel_callbacks where
  "wireCommand = no_callbacks\<lparr>cb_message := wireCommand_message\<rparr>"

text \<open>\<open>evt\<close> messages, text or binary, are only logged.\<close>

definition wireEvent :: channel_callbacks where
  "wireEvent = no_callbacks\<lparr>cb_message := (\<lambda>is_string data r. r\<lparr>r_events := r_events r @ [data]\<rparr>)\<rparr>"

definition wire_channel :: "relay_config \<Rightarrow> nat \<Rightarrow> string \<Rightarrow> channel_callbacks" where
  "wire_channel cfg dc label =
     (if label = ''tlm'' then wireTelemetry dc (rc_debug cfg)
      else if label = ''cmd'' then wireCommand
      else if label = ''evt'' then wireEvent
      else no_callbacks)"

text \<open>The library calls the callbacks of a channel that has arrived.\<close>

definition callbacks :: "relay_config \<Rightarrow> nat \<Rightarrow> relay \<Rightarrow> channel_callbacks" where
  "callbacks cfg dc r = (case r_channels r dc of None \<Rightarrow> no_callbacks | Some label \<Rightarrow> wire_channel cfg dc label)"

definition channel_open :: "relay_config \<Rightarrow> nat \<Rightarrow> relay \<Rightarrow> relay" where
  "channel_open cfg dc r = cb_open (callbacks cfg dc r) r"

definition channel_close :: "relay_config \<Rightarrow> nat \<Rightarrow> relay \<Rightarrow> relay" where
  "channel_close cfg dc r = cb_close (callbacks cfg dc r) r"

definition channel_message :: "relay_config \<Rightarrow> nat \<Rightarrow> bool \<Rightarrow> packet \<Rightarrow> relay \<Rightarrow> relay" where
  "channel_message cfg dc is_string data r = cb_message (callbacks cfg dc r) is_string data r"

lemmas wiring_defs =
  callbacks_def wire_channel_def wireTelemetry_def wireCommand_def wireEvent_def no_callbacks_def

text \<open>What the three callbacks come to, by label.\<close>

lemma channel_open_eq:
  "channel_open cfg dc r =
     (if r_channels r dc = Some ''tlm'' then installTelemetryHandler (Some dc) (rc_debug cfg) r else r)"
  by (simp add: channel_open_def wiring_defs split: option.splits)

lemma channel_close_eq:
  "channel_close cfg dc r =
     (if r_channels r dc = Some ''tlm'' then installTelemetryHandler None (rc_debug cfg) r else r)"
  by (simp add: channel_close_def wiring_defs split: option.splits)

lemma channel_message_eq:
  "channel_message cfg dc is_string data r =
     (if r_channels r dc = Some ''cmd'' then wireCommand_message is_string data r
      else if r_channels r dc = Some ''evt'' then r\<lparr>r_events := r_events r @ [data]\<rparr>
      else r)"
  by (simp add: channel_message_def wiring_defs split: option.splits)

section \<open>Events\<close>

datatype relay_event =
    WsMessage pion json
  | WsReadError go_error
  | WsStart
  | IceCandidate nat "json option" "go_error option"
  | ConnState nat pc_state
  | ChannelArrives nat nat string
  | ChannelOpen nat
  | ChannelClose nat
  | ChannelMessage nat bool packet
  | Datagram packet udp_addr
  | CallSink

text \<open>\<open>None\<close>: the event cannot happen in this state.\<close>

fun relay_event_step :: "relay_config \<Rightarrow> relay_event \<Rightarrow> relay \<Rightarrow> relay option" where
  "relay_event_step cfg (WsMessage px raw) r = (if r_ended r = None then Some (ws_round cfg px raw r) else None)"
| "relay_event_step cfg (WsReadError e) r = (if r_ended r = None then Some (ws_end cfg e r) else None)"
| "relay_event_step cfg WsStart r = (if r_ended r \<noteq> None then Some (ws_start r) else None)"
| "relay_event_step cfg (IceCandidate i c err) r =
     (if r_pcs r i \<noteq> None then Some (on_ice_candidate i c err r) else None)"
| "relay_event_step cfg (ConnState i s) r =
     (if r_pcs r i \<noteq> None then Some (on_connection_state cfg s r) else None)"
| "relay_event_step cfg (ChannelArrives i dc label) r =
     (if r_pcs r i \<noteq> None \<and> r_channels r dc = None then Some (on_data_channel dc label r) else None)"
| "relay_event_step cfg (ChannelOpen dc) r =
     (if r_channels r dc \<noteq> None then Some (channel_open cfg dc r) else None)"
| "relay_event_step cfg (ChannelClose dc) r =
     (if r_channels r dc \<noteq> None then Some (channel_close cfg dc r) else None)"
| "relay_event_step cfg (ChannelMessage dc is_string data) r =
     (if r_channels r dc \<noteq> None then Some (channel_message cfg dc is_string data r) else None)"
| "relay_event_step cfg (Datagram d src) r =
     (if r_pending r = None
      then (case receive_round d src (r_bridge r) (r_buf r) of
              (u', buf', p) \<Rightarrow> Some (r\<lparr>r_bridge := u', r_buf := buf', r_pending := p\<rparr>))
      else None)"
| "relay_event_step cfg CallSink r =
     (case r_pending r of
        None \<Rightarrow> None
      | Some (s, pkt) \<Rightarrow> Some (call_sink s pkt (r\<lparr>r_pending := None\<rparr>)))"

definition relay_step :: "relay_config \<Rightarrow> relay_event \<Rightarrow> relay \<Rightarrow> relay option" where
  "relay_step cfg ev r = (if r_crashed r then None else relay_event_step cfg ev r)"

fun relay_run :: "relay_config \<Rightarrow> relay_event list \<Rightarrow> relay \<Rightarrow> relay option" where
  "relay_run cfg [] r = Some r"
| "relay_run cfg (ev # evs) r =
     (case relay_step cfg ev r of None \<Rightarrow> None | Some r' \<Rightarrow> relay_run cfg evs r')"

lemma relay_run_induct:
  assumes "relay_run cfg evs r = Some r'" and "P r"
    and "\<And>ev r r'. P r \<Longrightarrow> relay_step cfg ev r = Some r' \<Longrightarrow> P r'"
  shows "P r'"
  using assms(1,2)
  by (induction evs arbitrary: r) (auto split: option.splits intro: assms(3))

section \<open>What each operation leaves alone\<close>

lemma install_frame [simp]:
  "r_pc (installTelemetryHandler dc d r) = r_pc r" "r_session (installTelemetryHandler dc d r) = r_session r"
  "r_camera (installTelemetryHandler dc d r) = r_camera r" "r_ended (installTelemetryHandler dc d r) = r_ended r"
  "r_pcs (installTelemetryHandler dc d r) = r_pcs r" "r_held (installTelemetryHandler dc d r) = r_held r"
  "r_sent (installTelemetryHandler dc d r) = r_sent r" "r_udp_sent (installTelemetryHandler dc d r) = r_udp_sent r"
  "r_channels (installTelemetryHandler dc d r) = r_channels r" "r_buf (installTelemetryHandler dc d r) = r_buf r"
  "r_pending (installTelemetryHandler dc d r) = r_pending r"
  "u_endpoint (r_bridge (installTelemetryHandler dc d r)) = u_endpoint (r_bridge r)"
  "r_dc_sent (installTelemetryHandler dc d r) = r_dc_sent r" "r_crashed (installTelemetryHandler dc d r) = r_crashed r"
  "r_next r \<le> r_next (installTelemetryHandler dc d r)"
  by (simp_all add: installTelemetryHandler_def Let_def SetOnPacket_def)

lemma call_sink_frame [simp]:
  "r_pc (call_sink s p r) = r_pc r" "r_session (call_sink s p r) = r_session r"
  "r_camera (call_sink s p r) = r_camera r" "r_ended (call_sink s p r) = r_ended r"
  "r_pcs (call_sink s p r) = r_pcs r" "r_held (call_sink s p r) = r_held r"
  "r_sent (call_sink s p r) = r_sent r" "r_udp_sent (call_sink s p r) = r_udp_sent r"
  "r_channels (call_sink s p r) = r_channels r" "r_bridge (call_sink s p r) = r_bridge r"
  "r_buf (call_sink s p r) = r_buf r" "r_pending (call_sink s p r) = r_pending r"
  "r_next (call_sink s p r) = r_next r"
  by (simp_all add: call_sink_def Let_def split: option.splits prod.splits)

lemma close_pc_frame [simp]:
  "r_pc (close_pc i r) = r_pc r" "r_session (close_pc i r) = r_session r"
  "r_camera (close_pc i r) = r_camera r" "r_ended (close_pc i r) = r_ended r"
  "r_held (close_pc i r) = r_held r" "r_next (close_pc i r) = r_next r" "r_sent (close_pc i r) = r_sent r"
  "r_udp_sent (close_pc i r) = r_udp_sent r" "r_channels (close_pc i r) = r_channels r"
  "r_bridge (close_pc i r) = r_bridge r"
  by (simp_all add: close_pc_def split: option.splits)

lemma pc_do_frame [simp]:
  "r_pc (pc_do a i r) = r_pc r" "r_session (pc_do a i r) = r_session r"
  "r_camera (pc_do a i r) = r_camera r" "r_ended (pc_do a i r) = r_ended r"
  "r_held (pc_do a i r) = r_held r" "r_next (pc_do a i r) = r_next r" "r_sent (pc_do a i r) = r_sent r"
  "r_udp_sent (pc_do a i r) = r_udp_sent r" "r_channels (pc_do a i r) = r_channels r"
  "r_bridge (pc_do a i r) = r_bridge r"
  by (simp_all add: pc_do_def split: option.splits)

lemma drop_camera_frame [simp]:
  "r_pc (drop_camera r) = r_pc r" "r_session (drop_camera r) = r_session r" "r_camera (drop_camera r) = None"
  "r_ended (drop_camera r) = r_ended r" "r_pcs (drop_camera r) = r_pcs r" "r_next (drop_camera r) = r_next r"
  "r_sent (drop_camera r) = r_sent r" "r_udp_sent (drop_camera r) = r_udp_sent r"
  "r_channels (drop_camera r) = r_channels r" "r_bridge (drop_camera r) = r_bridge r"
  "r_held (drop_camera r) = Close_video (r_camera r) (r_held r)"
  by (simp_all add: drop_camera_def)

section \<open>The invariant\<close>

text \<open>The sessions connections were made for, and what the relay may write for one of them.\<close>

definition known :: "relay \<Rightarrow> string set" where
  "known r = pc_session ` ran (r_pcs r)"

definition relay_msg :: "string \<Rightarrow> json \<Rightarrow> bool" where
  "relay_msg s j \<longleftrightarrow>
     (\<exists>answer. j = encode_sdp \<lparr>sdp_kind = KindSDP, sdp_session = s, sdp_role = ''answer'', sdp_sdp = answer\<rparr>) \<or>
     (\<exists>c. j = encode_ice \<lparr>icem_kind = KindICE, icem_session = s, icem_cand = c\<rparr>)"

definition pcs_ok :: "relay \<Rightarrow> bool" where
  "pcs_ok r \<longleftrightarrow>
     (\<forall>i p. r_pcs r i = Some p \<longrightarrow> i < r_next r \<and> (pc_open p \<longrightarrow> r_pc r = Some i)) \<and>
     (\<forall>i. r_pc r = Some i \<longrightarrow> (\<exists>p. r_pcs r i = Some p \<and> pc_open p \<and> pc_session p = r_session r))"

definition camera_ok :: "relay \<Rightarrow> bool" where
  "camera_ok r \<longleftrightarrow>
     r_held r = (case r_camera r of None \<Rightarrow> {} | Some v \<Rightarrow> video_resources (vs_id v)) \<and>
     (\<forall>v. r_camera r = Some v \<longrightarrow> vs_id v < r_next r)"

definition sent_ok :: "relay \<Rightarrow> bool" where
  "sent_ok r \<longleftrightarrow> (\<forall>j \<in> set (r_sent r). \<exists>s \<in> known r. relay_msg s j)"

definition loop_inv :: "relay \<Rightarrow> bool" where
  "loop_inv r \<longleftrightarrow> pcs_ok r \<and> camera_ok r \<and> (r_camera r \<noteq> None \<longrightarrow> r_pc r \<noteq> None) \<and> sent_ok r"

text \<open>Between two calls of \<open>runWSLoop\<close> nothing is open and nothing is held.\<close>

definition idle_inv :: "relay \<Rightarrow> bool" where
  "idle_inv r \<longleftrightarrow>
     (\<forall>i p. r_pcs r i = Some p \<longrightarrow> i < r_next r \<and> \<not> pc_open p) \<and> r_held r = {} \<and> sent_ok r"

definition relay_inv :: "relay \<Rightarrow> bool" where
  "relay_inv r \<longleftrightarrow> (if r_ended r = None then loop_inv r else idle_inv r)"

lemma known_simps [simp]:
  "known (installTelemetryHandler dc d r) = known r" "known (call_sink s p r) = known r"
  "known (drop_camera r) = known r"
  by (simp_all add: known_def)

lemma known_iff: "s \<in> known r \<longleftrightarrow> (\<exists>i p. r_pcs r i = Some p \<and> pc_session p = s)"
  by (auto simp: known_def ran_def)

lemma known_upd:
  assumes "r_pcs r i = Some p" and "pc_session q = pc_session p"
  shows "known (r\<lparr>r_pcs := (r_pcs r)(i \<mapsto> q)\<rparr>) = known r"
proof (intro set_eqI iffI)
  fix s
  assume "s \<in> known (r\<lparr>r_pcs := (r_pcs r)(i \<mapsto> q)\<rparr>)"
  then show "s \<in> known r" using assms by (auto simp: known_iff split: if_splits)
next
  fix s
  assume "s \<in> known r"
  then obtain j x where "r_pcs r j = Some x" "pc_session x = s" by (auto simp: known_iff)
  with assms show "s \<in> known (r\<lparr>r_pcs := (r_pcs r)(i \<mapsto> q)\<rparr>)"
    by (cases "j = i") (auto simp: known_iff)
qed

lemma known_pc [simp]: "known (pc_do a i r) = known r" "known (close_pc i r) = known r"
  by (simp_all add: pc_do_def close_pc_def known_upd split: option.splits)

lemma install_next [simp]: "n < r_next r \<Longrightarrow> n < r_next (installTelemetryHandler dc d r)"
  by (erule less_le_trans) (rule install_frame(15))

lemma sent_ok_same: "sent_ok r \<Longrightarrow> r_sent r' = r_sent r \<Longrightarrow> known r \<subseteq> known r' \<Longrightarrow> sent_ok r'"
  by (auto simp: sent_ok_def)

lemma pcs_ok_install [simp]: "pcs_ok r \<Longrightarrow> pcs_ok (installTelemetryHandler dc d r)"
  by (auto simp: pcs_ok_def)

lemma camera_ok_install [simp]: "camera_ok r \<Longrightarrow> camera_ok (installTelemetryHandler dc d r)"
  by (auto simp: camera_ok_def)

lemma loop_inv_install: "loop_inv r \<Longrightarrow> loop_inv (installTelemetryHandler dc d r)"
  using sent_ok_same[of r "installTelemetryHandler dc d r"] by (simp add: loop_inv_def)

lemma idle_inv_install: "idle_inv r \<Longrightarrow> idle_inv (installTelemetryHandler dc d r)"
  using sent_ok_same[of r "installTelemetryHandler dc d r"]
  by (auto simp: idle_inv_def)

lemma relay_inv_install: "relay_inv r \<Longrightarrow> relay_inv (installTelemetryHandler dc d r)"
  by (auto simp: relay_inv_def loop_inv_install idle_inv_install split: if_splits)

lemma pcs_okD:
  assumes "pcs_ok r"
  shows "r_pcs r i = Some p \<Longrightarrow> i < r_next r" and "r_pcs r i = Some p \<Longrightarrow> pc_open p \<Longrightarrow> r_pc r = Some i"
    and "r_pc r = Some i \<Longrightarrow> \<exists>p. r_pcs r i = Some p \<and> pc_open p \<and> pc_session p = r_session r"
  using assms by (simp_all add: pcs_ok_def)

lemma pcs_ok_upd:
  assumes ok: "pcs_ok r" and p: "r_pcs r i = Some p" and q: "pc_open q = pc_open p" "pc_session q = pc_session p"
  shows "pcs_ok (r\<lparr>r_pcs := (r_pcs r)(i \<mapsto> q)\<rparr>)"
proof -
  note D = pcs_okD[OF ok]
  have "j < r_next r \<and> (pc_open x \<longrightarrow> r_pc r = Some j)" if "((r_pcs r)(i \<mapsto> q)) j = Some x" for j x
    using that D(1,2)[of j x] D(1,2)[OF p] q by (cases "j = i") simp_all
  moreover have "\<exists>x. ((r_pcs r)(i \<mapsto> q)) j = Some x \<and> pc_open x \<and> pc_session x = r_session r"
    if "r_pc r = Some j" for j
    using D(3)[OF that] p q by (cases "j = i") simp_all
  ultimately show ?thesis by (simp add: pcs_ok_def)
qed

lemma loop_inv_pc_do:
  assumes "loop_inv r"
  shows "loop_inv (pc_do a i r)"
proof (cases "r_pcs r i")
  case None
  with assms show ?thesis by (simp add: pc_do_def)
next
  case (Some p)
  have "pcs_ok (pc_do a i r)"
    using assms Some pcs_ok_upd[OF _ Some, of "p\<lparr>pc_log := pc_log p @ [a]\<rparr>"] by (simp add: pc_do_def loop_inv_def)
  moreover have "sent_ok (pc_do a i r)"
    using assms sent_ok_same[of r "pc_do a i r"] by (simp add: loop_inv_def)
  ultimately show ?thesis using assms by (simp add: loop_inv_def camera_ok_def)
qed

text \<open>Closing the current connection and forgetting it.\<close>

definition shut_pc :: "relay \<Rightarrow> relay" where
  "shut_pc r = (case r_pc r of None \<Rightarrow> r | Some i \<Rightarrow> (close_pc i r)\<lparr>r_pc := None\<rparr>)"

lemma shut_pc_frame [simp]:
  "r_pc (shut_pc r) = None" "r_camera (shut_pc r) = r_camera r" "r_held (shut_pc r) = r_held r"
  "r_next (shut_pc r) = r_next r" "r_ended (shut_pc r) = r_ended r" "r_sent (shut_pc r) = r_sent r"
  by (simp_all add: shut_pc_def split: option.splits)

lemma known_fields [simp]:
  "known (r\<lparr>r_pc := x\<rparr>) = known r" "known (r\<lparr>r_session := y\<rparr>) = known r" "known (r\<lparr>r_ended := z\<rparr>) = known r"
  "known (r\<lparr>r_camera := v\<rparr>) = known r" "known (r\<lparr>r_held := h\<rparr>) = known r" "known (r\<lparr>r_next := n\<rparr>) = known r"
  "known (r\<lparr>r_sent := js\<rparr>) = known r" "known (r\<lparr>r_channels := cs\<rparr>) = known r"
  "known (r\<lparr>r_bridge := u\<rparr>) = known r" "known (r\<lparr>r_buf := b\<rparr>) = known r" "known (r\<lparr>r_pending := q\<rparr>) = known r"
  "known (r\<lparr>r_udp_sent := us\<rparr>) = known r" "known (r\<lparr>r_events := es\<rparr>) = known r"
  by (simp_all add: known_def)

lemma known_shut [simp]: "known (shut_pc r) = known r"
  by (simp add: shut_pc_def split: option.splits)

lemma shut_pc_closed:
  assumes ok: "pcs_ok r" and p: "r_pcs (shut_pc r) i = Some p"
  shows "i < r_next r \<and> \<not> pc_open p"
proof (cases "r_pc r")
  case None
  then show ?thesis using p pcs_okD(1,2)[OF ok, of i p] by (auto simp: shut_pc_def)
next
  case (Some c)
  obtain q where q: "r_pcs r c = Some q" using pcs_okD(3)[OF ok Some] by blast
  then have "r_pcs (shut_pc r) = (r_pcs r)(c \<mapsto> q\<lparr>pc_open := False\<rparr>)"
    by (simp add: shut_pc_def Some close_pc_def)
  then show ?thesis
    using p q Some pcs_okD(1,2)[OF ok, of i p] pcs_okD(1)[OF ok q] by (cases "i = c") auto
qed

lemma drop_camera_ok: "camera_ok r \<Longrightarrow> Close_video (r_camera r) (r_held r) = {}"
  by (cases "r_camera r") (auto simp: camera_ok_def Close_video_Some)

text \<open>The state in which every connection is closed and the camera is off.\<close>

definition quiet :: "relay \<Rightarrow> bool" where
  "quiet r \<longleftrightarrow>
     r_pc r = None \<and> (\<forall>i p. r_pcs r i = Some p \<longrightarrow> i < r_next r \<and> \<not> pc_open p) \<and>
     r_camera r = None \<and> r_held r = {} \<and> sent_ok r"

lemma quiet_loop_inv: "quiet r \<Longrightarrow> loop_inv r"
  by (auto simp: quiet_def loop_inv_def pcs_ok_def camera_ok_def)

lemma quiet_shut:
  assumes "loop_inv r"
  shows "quiet (drop_camera (shut_pc r))"
  using assms shut_pc_closed[of r] drop_camera_ok[of r] sent_ok_same[of r "drop_camera (shut_pc r)"]
  by (auto simp: quiet_def loop_inv_def)

lemma quiet_install: "quiet r \<Longrightarrow> quiet (installTelemetryHandler dc d r)"
  using sent_ok_same[of r "installTelemetryHandler dc d r"]
  by (auto simp: quiet_def)

section \<open>The invariant is kept\<close>

lemma newPeerConn_cases:
  assumes "newPeerConn px s ice r = (res, r')"
  shows "(\<exists>e. res = Inl e \<and> r' = r) \<or>
    (res = Inr (r_next r) \<and> r' = r\<lparr>r_pcs := (r_pcs r)(r_next r \<mapsto>
        \<lparr>pc_session = s, pc_ice = webrtc_ice_servers ice, pc_open = True, pc_log = []\<rparr>), r_next := Suc (r_next r)\<rparr>)"
  using assms by (auto simp: newPeerConn_def split: option.splits)

lemma quiet_new_pc:
  assumes q: "quiet r" and "newPeerConn px (r_session r) ice r = (res, r')"
  shows "case res of Inl e \<Rightarrow> loop_inv r' | Inr i \<Rightarrow> loop_inv (r'\<lparr>r_pc := Some i\<rparr>)"
proof (cases res)
  case (Inl e)
  then show ?thesis using assms newPeerConn_cases[OF assms(2)] quiet_loop_inv by auto
next
  case (Inr i)
  let ?p = "\<lparr>pc_session = r_session r, pc_ice = webrtc_ice_servers ice, pc_open = True, pc_log = []\<rparr>"
  have i: "i = r_next r" and r': "r' = r\<lparr>r_pcs := (r_pcs r)(i \<mapsto> ?p), r_next := Suc i\<rparr>"
    using newPeerConn_cases[OF assms(2)] Inr by auto
  have fresh: "r_pcs r i = None" using q i by (cases "r_pcs r i") (auto simp: quiet_def)
  have "pcs_ok (r'\<lparr>r_pc := Some i\<rparr>)"
    using q i unfolding r' by (auto simp: pcs_ok_def quiet_def less_Suc_eq)
  moreover have "known r \<subseteq> known (r'\<lparr>r_pc := Some i\<rparr>)"
  proof
    fix x
    assume "x \<in> known r"
    then obtain j p where "r_pcs r j = Some p" "pc_session p = x" by (auto simp: known_iff)
    with fresh show "x \<in> known (r'\<lparr>r_pc := Some i\<rparr>)"
      unfolding r' known_iff by (intro exI[of _ j] exI[of _ p]) auto
  qed
  then have "sent_ok (r'\<lparr>r_pc := Some i\<rparr>)"
    using q sent_ok_same[of r "r'\<lparr>r_pc := Some i\<rparr>"] by (simp add: quiet_def r')
  ultimately show ?thesis
    using q Inr by (simp add: loop_inv_def camera_ok_def quiet_def r')
qed

lemma quiet_session: "quiet r \<Longrightarrow> quiet (r\<lparr>r_session := s\<rparr>)"
  by (simp add: quiet_def sent_ok_def)

lemma install_drop_camera:
  "drop_camera (installTelemetryHandler dc d r) = installTelemetryHandler dc d (drop_camera r)"
  by (simp add: drop_camera_def installTelemetryHandler_def Let_def)

text \<open>The state in which a new connection is made.\<close>

definition ack_base :: "relay_config \<Rightarrow> string \<Rightarrow> relay \<Rightarrow> relay" where
  "ack_base cfg sid r =
     (if r_pc r = None then drop_camera (shut_pc r)
      else installTelemetryHandler None (rc_debug cfg) (drop_camera (shut_pc r)))\<lparr>r_session := sid\<rparr>"

lemma on_session_ack_eq:
  assumes "\<not> ack_initiator m"
    and "newPeerConn px (ack_session m) (ack_ice_servers m) (ack_base cfg (ack_session m) r) = (res, r3)"
  shows "on_session_ack cfg px m r = (case res of Inl e \<Rightarrow> r3 | Inr i \<Rightarrow> r3\<lparr>r_pc := Some i\<rparr>)"
proof (cases "r_pc r")
  case None
  then have "ack_base cfg (ack_session m) r = (drop_camera r)\<lparr>r_session := ack_session m\<rparr>"
    by (simp add: ack_base_def shut_pc_def)
  with assms None show ?thesis by (simp add: on_session_ack_def Let_def)
next
  case (Some i)
  then have "ack_base cfg (ack_session m) r
      = (drop_camera (installTelemetryHandler None (rc_debug cfg) ((close_pc i r)\<lparr>r_pc := None\<rparr>)))\<lparr>r_session := ack_session m\<rparr>"
    by (simp add: ack_base_def shut_pc_def install_drop_camera)
  with assms Some show ?thesis by (simp add: on_session_ack_def Let_def)
qed

lemma quiet_ack_base: "loop_inv r \<Longrightarrow> quiet (ack_base cfg sid r)"
  using quiet_session quiet_install quiet_shut[of r] by (simp add: ack_base_def)

lemma loop_inv_session_ack:
  assumes "loop_inv r"
  shows "loop_inv (on_session_ack cfg px m r)"
proof (cases "ack_initiator m")
  case True
  then show ?thesis using assms by (simp add: on_session_ack_def)
next
  case False
  obtain res r3 where n: "newPeerConn px (ack_session m) (ack_ice_servers m) (ack_base cfg (ack_session m) r) = (res, r3)"
    by fastforce
  moreover have "r_session (ack_base cfg (ack_session m) r) = ack_session m" by (simp add: ack_base_def)
  ultimately have "case res of Inl e \<Rightarrow> loop_inv r3 | Inr i \<Rightarrow> loop_inv (r3\<lparr>r_pc := Some i\<rparr>)"
    using quiet_new_pc[OF quiet_ack_base[OF assms], of px cfg "ack_session m" "ack_ice_servers m" res r3] by simp
  then show ?thesis
    unfolding on_session_ack_eq[OF False n] by (simp split: sum.splits)
qed

lemma startVideo_cases:
  assumes "startVideoSource env dv sz n {} = (res, held)"
  shows "(\<exists>e. res = Inl e \<and> held = {}) \<or> (res = Inr \<lparr>vs_id = n\<rparr> \<and> held = video_resources n)"
proof (cases res)
  case (Inl e)
  then show ?thesis using startVideoSource_Inl[of env dv sz n "{}"] assms by (auto simp: fresh_resource_def)
next
  case (Inr v)
  then show ?thesis using startVideoSource_Inr[of env dv sz n "{}"] assms by auto
qed

lemma loop_inv_no_camera_changes:
  assumes "loop_inv r" and "r_pc r \<noteq> None"
    and "r_held r' = (case r_camera r' of None \<Rightarrow> {} | Some v \<Rightarrow> video_resources (vs_id v))"
    and "\<forall>v. r_camera r' = Some v \<longrightarrow> vs_id v < r_next r'" and "r_next r \<le> r_next r'"
    and "r_pc r' = r_pc r" and "r_pcs r' = r_pcs r" and "r_session r' = r_session r" and "r_sent r' = r_sent r"
  shows "loop_inv r'"
proof -
  have "pcs_ok r'"
    using assms(1,5-8) pcs_okD(1)[of r] by (auto simp: loop_inv_def pcs_ok_def intro: less_le_trans)
  moreover have "sent_ok r'"
    using assms(1,7,9) by (auto simp: loop_inv_def sent_ok_def known_def)
  ultimately show ?thesis
    using assms(2-4,6) by (simp add: loop_inv_def camera_ok_def)
qed

lemma loop_inv_add_camera:
  assumes inv: "loop_inv r" and pc: "r_pc r \<noteq> None"
  shows "loop_inv (add_camera cfg px i r)"
proof (cases "rc_camera_dev cfg \<noteq> '''' \<and> r_camera r = None")
  case False
  then have "add_camera cfg px i r = r" by (auto simp: add_camera_def)
  then show ?thesis using inv by simp
next
  case True
  then have held: "r_held r = {}" using inv by (simp add: loop_inv_def camera_ok_def)
  obtain res h where st: "startVideoSource (px_video px) (rc_camera_dev cfg) (rc_camera_size cfg) (r_next r) {} = (res, h)"
    by (cases "startVideoSource (px_video px) (rc_camera_dev cfg) (rc_camera_size cfg) (r_next r) {}")
  from startVideo_cases[OF st] show ?thesis
  proof (elim disjE exE conjE)
    fix e
    assume "res = Inl e" "h = {}"
    then have "add_camera cfg px i r = r\<lparr>r_held := {}, r_next := Suc (r_next r)\<rparr>"
      using True st by (simp add: add_camera_def held)
    then show ?thesis
      using True by (intro loop_inv_no_camera_changes[OF inv pc]) simp_all
  next
    assume r: "res = Inr \<lparr>vs_id = r_next r\<rparr>" "h = video_resources (r_next r)"
    let ?r1 = "r\<lparr>r_held := video_resources (r_next r), r_next := Suc (r_next r), r_camera := Some \<lparr>vs_id = r_next r\<rparr>\<rparr>"
    have eq: "add_camera cfg px i r =
        (if px_add_track px = None then pc_do (TrackAdded (r_next r)) i ?r1 else drop_camera ?r1)"
      using True st r by (simp add: add_camera_def held Let_def split: option.splits)
    have "loop_inv ?r1" by (intro loop_inv_no_camera_changes[OF inv pc]) simp_all
    moreover have "loop_inv (drop_camera ?r1)"
      by (intro loop_inv_no_camera_changes[OF inv pc]) (simp_all add: Close_video_Some)
    ultimately show ?thesis unfolding eq by (simp add: loop_inv_pc_do)
  qed
qed

lemma add_camera_frame [simp]:
  "r_pc (add_camera cfg px i r) = r_pc r" "r_session (add_camera cfg px i r) = r_session r"
  "r_sent (add_camera cfg px i r) = r_sent r" "r_ended (add_camera cfg px i r) = r_ended r"
  by (simp_all add: add_camera_def Let_def split: prod.splits sum.splits option.splits)

lemma loop_inv_answer:
  assumes "loop_inv r" and "r_pc r = Some i"
  shows "loop_inv (r\<lparr>r_sent := r_sent r @ [encode_sdp \<lparr>sdp_kind = KindSDP, sdp_session = r_session r,
           sdp_role = ''answer'', sdp_sdp = a\<rparr>]\<rparr>)"
proof -
  have "r_session r \<in> known r"
    using pcs_okD(3)[of r i] assms by (auto simp: loop_inv_def known_iff)
  then show ?thesis
    using assms by (auto simp: loop_inv_def pcs_ok_def camera_ok_def sent_ok_def relay_msg_def)
qed

lemma loop_inv_peer_sdp:
  assumes inv: "loop_inv r"
  shows "loop_inv (on_peer_sdp cfg px m r)"
proof (cases "r_pc r")
  case None
  then show ?thesis using inv by (simp add: on_peer_sdp_def)
next
  case (Some i)
  let ?r1 = "add_camera cfg px i (pc_do (RemoteSdp ''offer'' (sdp_sdp m)) i r)"
  have 1: "loop_inv ?r1" using loop_inv_add_camera[OF loop_inv_pc_do[OF inv]] Some by simp
  have 2: "loop_inv (pc_do (LocalSdp ''answer'' a) i ?r1)" for a by (rule loop_inv_pc_do[OF 1])
  show ?thesis
    using inv 1 2 loop_inv_answer[OF 2, where i = i] Some
    by (simp add: on_peer_sdp_def Let_def split: option.splits sum.splits)
qed

lemma loop_inv_peer_ice: "loop_inv r \<Longrightarrow> loop_inv (on_peer_ice px m r)"
  by (simp add: on_peer_ice_def loop_inv_pc_do split: option.splits)

lemma on_peer_gone_eq: "on_peer_gone cfg r = installTelemetryHandler None (rc_debug cfg) (drop_camera (shut_pc r))"
  by (simp add: on_peer_gone_def shut_pc_def Let_def split: option.splits)

lemma loop_inv_peer_gone: "loop_inv r \<Longrightarrow> loop_inv (on_peer_gone cfg r)"
  unfolding on_peer_gone_eq by (rule loop_inv_install[OF quiet_loop_inv[OF quiet_shut]])

lemma loop_inv_ws_round: "loop_inv r \<Longrightarrow> loop_inv (ws_round cfg px raw r)"
  by (simp add: ws_round_def loop_inv_session_ack loop_inv_peer_sdp loop_inv_peer_ice loop_inv_peer_gone
      split: sum.splits)

lemma ended_fields [simp]:
  "r_ended (pc_do a i r) = r_ended r" "r_ended (on_peer_gone cfg r) = r_ended r"
  "r_ended (on_peer_ice px m r) = r_ended r"
  by (simp_all add: on_peer_gone_eq on_peer_ice_def split: option.splits)

lemma ended_newPeerConn: "newPeerConn px s ice r = (res, r') \<Longrightarrow> r_ended r' = r_ended r"
  using newPeerConn_cases[of px s ice r res r'] by auto

lemma ended_session_ack [simp]: "r_ended (on_session_ack cfg px m r) = r_ended r"
proof (cases "ack_initiator m")
  case True
  then show ?thesis by (simp add: on_session_ack_def)
next
  case False
  obtain res r3 where n: "newPeerConn px (ack_session m) (ack_ice_servers m) (ack_base cfg (ack_session m) r) = (res, r3)"
    by fastforce
  have "r_ended (ack_base cfg (ack_session m) r) = r_ended r" by (simp add: ack_base_def)
  then show ?thesis
    unfolding on_session_ack_eq[OF False n] using ended_newPeerConn[OF n] by (simp split: sum.splits)
qed

lemma ended_ws_round [simp]: "r_ended (ws_round cfg px raw r) = r_ended r"
  by (simp add: ws_round_def on_peer_sdp_def Let_def split: sum.splits option.splits)

lemma ws_end_eq:
  "ws_end cfg e r = (installTelemetryHandler None (rc_debug cfg)
     (case r_pc r of None \<Rightarrow> drop_camera r | Some i \<Rightarrow> close_pc i (drop_camera r)))\<lparr>r_ended := Some e\<rparr>"
  by (simp add: ws_end_def Let_def)

lemma idle_inv_ws_end:
  assumes "loop_inv r"
  shows "idle_inv (ws_end cfg e r)"
proof -
  let ?r1 = "case r_pc r of None \<Rightarrow> drop_camera r | Some i \<Rightarrow> close_pc i (drop_camera r)"
  have pcs: "r_pcs ?r1 = r_pcs (drop_camera (shut_pc r))"
    by (simp add: shut_pc_def close_pc_def drop_camera_def split: option.splits)
  have f: "r_held ?r1 = r_held (drop_camera (shut_pc r))" "r_next ?r1 = r_next r" "r_sent ?r1 = r_sent r"
    by (simp_all split: option.splits)
  have "known ?r1 = known r" by (simp split: option.splits)
  then have "idle_inv ?r1"
    using quiet_shut[OF assms] assms sent_ok_same[of r ?r1] pcs f
    by (simp add: idle_inv_def quiet_def loop_inv_def)
  then have "idle_inv (installTelemetryHandler None (rc_debug cfg) ?r1)" by (rule idle_inv_install)
  then show ?thesis by (simp add: ws_end_eq idle_inv_def sent_ok_def)
qed

lemma loop_inv_ws_start: "idle_inv r \<Longrightarrow> loop_inv (ws_start r)"
  by (auto simp: ws_start_def idle_inv_def loop_inv_def pcs_ok_def camera_ok_def sent_ok_def)

lemma relay_inv_frame:
  assumes "relay_inv r" and "r_pc r' = r_pc r" "r_session r' = r_session r" "r_camera r' = r_camera r"
    "r_ended r' = r_ended r" "r_next r' = r_next r" "r_pcs r' = r_pcs r" "r_held r' = r_held r" "r_sent r' = r_sent r"
  shows "relay_inv r'"
proof -
  note eqs = assms(2-)
  have k: "known r' = known r" by (simp only: known_def eqs)
  have "pcs_ok r' = pcs_ok r" "camera_ok r' = camera_ok r" "sent_ok r' = sent_ok r"
    by (simp_all only: pcs_ok_def camera_ok_def sent_ok_def k eqs)
  then show ?thesis
    using assms(1) by (simp only: relay_inv_def loop_inv_def idle_inv_def eqs)
qed

lemma relay_inv_sent:
  assumes "relay_inv r" and "s \<in> known r" and "relay_msg s j"
  shows "relay_inv (r\<lparr>r_sent := r_sent r @ [j]\<rparr>)"
proof -
  let ?r = "r\<lparr>r_sent := r_sent r @ [j]\<rparr>"
  have "pcs_ok ?r = pcs_ok r" "camera_ok ?r = camera_ok r" by (simp_all add: pcs_ok_def camera_ok_def)
  moreover have "sent_ok ?r"
    using assms by (auto simp: sent_ok_def relay_inv_def loop_inv_def idle_inv_def split: if_splits)
  ultimately show ?thesis using assms(1) by (auto simp: relay_inv_def loop_inv_def idle_inv_def split: if_splits)
qed

lemma relay_inv_candidate:
  assumes "relay_inv r"
  shows "relay_inv (on_ice_candidate i c err r)"
proof (cases "\<exists>b p. c = Some b \<and> r_pcs r i = Some p \<and> err = None")
  case False
  then have "on_ice_candidate i c err r = r" by (auto simp: on_ice_candidate_def split: option.splits)
  with assms show ?thesis by simp
next
  case True
  then obtain b p where "c = Some b" "r_pcs r i = Some p" "err = None" by blast
  moreover have "relay_msg (pc_session p)
      (encode_ice \<lparr>icem_kind = KindICE, icem_session = pc_session p, icem_cand = b\<rparr>)"
    by (auto simp: relay_msg_def)
  moreover have "pc_session p \<in> known r" using \<open>r_pcs r i = Some p\<close> by (auto simp: known_iff)
  ultimately show ?thesis
    using relay_inv_sent[OF assms] by (simp add: on_ice_candidate_def)
qed

lemma relay_inv_step:
  assumes "relay_inv r" and "relay_step cfg ev r = Some r'"
  shows "relay_inv r'"
proof -
  from assms(2) have step: "relay_event_step cfg ev r = Some r'" by (simp add: relay_step_def split: if_splits)
  show ?thesis
  proof (cases ev)
    case (WsMessage px raw)
    with assms(1) step show ?thesis by (auto simp: relay_inv_def loop_inv_ws_round split: if_splits)
  next
    case (WsReadError e)
    with assms(1) step show ?thesis
      using idle_inv_ws_end[of r cfg e] by (auto simp: relay_inv_def ws_end_def Let_def split: if_splits)
  next
    case WsStart
    with assms(1) step show ?thesis
      using loop_inv_ws_start[of r] by (auto simp: relay_inv_def ws_start_def split: if_splits)
  next
    case (IceCandidate i c err)
    with assms(1) step show ?thesis by (auto simp: relay_inv_candidate split: if_splits)
  next
    case (ConnState i st)
    with assms(1) step show ?thesis
      by (auto simp: on_connection_state_def relay_inv_install split: if_splits)
  next
    case (ChannelArrives i dc label)
    with step have "r' = on_data_channel dc label r" by (simp split: if_splits)
    with assms(1) show ?thesis by (intro relay_inv_frame[of r r']) (simp_all add: on_data_channel_def)
  next
    case (ChannelOpen dc)
    with assms(1) step show ?thesis
      by (auto simp: channel_open_eq relay_inv_install split: if_splits)
  next
    case (ChannelClose dc)
    with assms(1) step show ?thesis
      by (auto simp: channel_close_eq relay_inv_install split: if_splits)
  next
    case (ChannelMessage dc is_string data)
    with step have "r' = channel_message cfg dc is_string data r" by (simp split: if_splits)
    with assms(1) show ?thesis
      by (intro relay_inv_frame[of r r'])
        (simp_all add: channel_message_eq wireCommand_message_def split: option.splits)
  next
    case (Datagram d src)
    with assms(1) step show ?thesis
      by (intro relay_inv_frame[of r r']) (auto split: if_splits prod.splits)
  next
    case CallSink
    with assms(1) step show ?thesis
      by (intro relay_inv_frame[of r r']) (auto split: option.splits)
  qed
qed

lemma relay_inv_new: "relay_inv (new_relay u)"
  by (auto simp: new_relay_def relay_inv_def loop_inv_def pcs_ok_def camera_ok_def sent_ok_def)

lemma relay_inv_run: "relay_run cfg evs (new_relay u) = Some r \<Longrightarrow> relay_inv r"
  by (rule relay_run_induct[where P = relay_inv]) (auto intro: relay_inv_new relay_inv_step)

section \<open>What reaches the autopilot\<close>

text \<open>\<open>main\<close> up to the first cycle: with \<open>-debug-mavlink\<close> the logging callback is installed.\<close>

definition start_relay :: "relay_config \<Rightarrow> nat udp \<Rightarrow> relay" where
  "start_relay cfg u =
     (if rc_debug cfg then installTelemetryHandler None True (new_relay u) else new_relay u)"

lemma relay_inv_start: "relay_inv (start_relay cfg u)"
  by (simp add: start_relay_def relay_inv_new relay_inv_install)

lemma relay_inv_started: "relay_run cfg evs (start_relay cfg u) = Some r \<Longrightarrow> relay_inv r"
  by (rule relay_run_induct[where P = relay_inv]) (auto intro: relay_inv_start relay_inv_step)

text \<open>
  The commands of a run: the binary messages on channels labelled \<open>cmd\<close>, once the bridge has
  heard the autopilot.
\<close>

fun commands :: "(nat \<rightharpoonup> string) \<Rightarrow> bool \<Rightarrow> relay_event list \<Rightarrow> packet list" where
  "commands chs heard [] = []"
| "commands chs heard (ev # evs) =
     (case ev of
        ChannelArrives i dc label \<Rightarrow> commands (chs(dc \<mapsto> label)) heard evs
      | Datagram d src \<Rightarrow> commands chs True evs
      | ChannelMessage dc is_string data \<Rightarrow>
          (if chs dc = Some ''cmd'' \<and> \<not> is_string \<and> heard then [data] else []) @ commands chs heard evs
      | _ \<Rightarrow> commands chs heard evs)"

definition same_cmd :: "relay \<Rightarrow> relay \<Rightarrow> bool" where
  "same_cmd r r' \<longleftrightarrow>
     r_channels r' = r_channels r \<and> r_udp_sent r' = r_udp_sent r \<and> u_endpoint (r_bridge r') = u_endpoint (r_bridge r)"

lemma same_cmd_refl [simp]: "same_cmd r r"
  by (simp add: same_cmd_def)

lemma same_cmd_ops [simp]:
  "same_cmd r (installTelemetryHandler dc d r') = same_cmd r r'" "same_cmd r (call_sink s p r') = same_cmd r r'"
  "same_cmd r (drop_camera r') = same_cmd r r'" "same_cmd r (pc_do a i r') = same_cmd r r'"
  "same_cmd r (close_pc i r') = same_cmd r r'" "same_cmd r (r'\<lparr>r_pc := x\<rparr>) = same_cmd r r'"
  "same_cmd r (r'\<lparr>r_session := y\<rparr>) = same_cmd r r'" "same_cmd r (r'\<lparr>r_ended := z\<rparr>) = same_cmd r r'"
  "same_cmd r (r'\<lparr>r_camera := v\<rparr>) = same_cmd r r'" "same_cmd r (r'\<lparr>r_held := h\<rparr>) = same_cmd r r'"
  "same_cmd r (r'\<lparr>r_next := n\<rparr>) = same_cmd r r'" "same_cmd r (r'\<lparr>r_sent := js\<rparr>) = same_cmd r r'"
  "same_cmd r (r'\<lparr>r_pcs := ps\<rparr>) = same_cmd r r'" "same_cmd r (r'\<lparr>r_pending := q\<rparr>) = same_cmd r r'"
  by (simp_all add: same_cmd_def)

lemma same_cmd_newPeerConn: "newPeerConn px s ice r1 = (res, r2) \<Longrightarrow> same_cmd r r2 = same_cmd r r1"
  using newPeerConn_cases[of px s ice r1 res r2] by auto

lemma same_cmd_ws_round: "same_cmd r (ws_round cfg px raw r)"
proof -
  have "same_cmd r (on_session_ack cfg px m r)" for m
    by (auto simp: on_session_ack_def Let_def same_cmd_newPeerConn split: prod.splits sum.splits option.splits)
  moreover have "same_cmd r (add_camera cfg px i r')" if "same_cmd r r'" for i r'
    using that by (simp add: add_camera_def Let_def split: prod.splits sum.splits option.splits)
  then have "same_cmd r (on_peer_sdp cfg px m r)" for m
    by (simp add: on_peer_sdp_def Let_def split: sum.splits option.splits)
  moreover have "same_cmd r (on_peer_ice px m r)" for m by (simp add: on_peer_ice_def split: option.splits)
  ultimately show ?thesis by (simp add: ws_round_def on_peer_gone_def Let_def split: sum.splits option.splits)
qed

lemma same_cmd_events:
  assumes "relay_event_step cfg ev r = Some r'"
    and "\<forall>i dc l. ev \<noteq> ChannelArrives i dc l" "\<forall>d src. ev \<noteq> Datagram d src" "\<forall>dc b p. ev \<noteq> ChannelMessage dc b p"
  shows "same_cmd r r'"
  using assms same_cmd_ws_round
  by (cases ev)
    (auto simp: ws_end_def ws_start_def on_ice_candidate_def on_connection_state_def channel_open_eq
      channel_close_eq Let_def
      split: if_splits option.splits)

lemma run_commands:
  "relay_run cfg evs r = Some r' \<Longrightarrow>
     map snd (r_udp_sent r') = map snd (r_udp_sent r) @ commands (r_channels r) (u_endpoint (r_bridge r) \<noteq> None) evs"
proof (induction evs arbitrary: r)
  case Nil
  then show ?case by simp
next
  case (Cons ev evs)
  then obtain r1 where "relay_step cfg ev r = Some r1" and run: "relay_run cfg evs r1 = Some r'"
    by (auto split: option.splits)
  then have step: "relay_event_step cfg ev r = Some r1" by (simp add: relay_step_def split: if_splits)
  note IH = Cons.IH[OF run]
  consider (arrives) i dc l where "ev = ChannelArrives i dc l" | (datagram) d src where "ev = Datagram d src"
    | (message) dc b p where "ev = ChannelMessage dc b p"
    | (other) "\<forall>i dc l. ev \<noteq> ChannelArrives i dc l" "\<forall>d src. ev \<noteq> Datagram d src" "\<forall>dc b p. ev \<noteq> ChannelMessage dc b p"
    by blast
  then show ?case
  proof cases
    case arrives
    with step IH show ?thesis by (auto simp: on_data_channel_def simp del: fun_upd_apply split: if_splits)
  next
    case datagram
    obtain u' buf' c where rr: "receive_round d src (r_bridge r) (r_buf r) = (u', buf', c)" by (metis prod_cases3)
    obtain e where "u_endpoint u' = Some e" using receive_round_facts(4)[OF rr] by blast
    with datagram step IH rr show ?thesis by (auto split: if_splits)
  next
    case message
    with step IH show ?thesis
      by (auto simp: channel_message_eq wireCommand_message_def Write_udp_def split: if_splits option.splits)
  next
    case other
    from same_cmd_events[OF step other] IH show ?thesis
      using other by (cases ev) (auto simp: same_cmd_def)
  qed
qed

section \<open>Forwarding telemetry\<close>

definition buf_ok :: "relay \<Rightarrow> bool" where
  "buf_ok r \<longleftrightarrow> length (r_buf r) = buf_size"

lemma buf_ok_frame:
  "buf_ok (installTelemetryHandler dc d r) = buf_ok r" "buf_ok (drop_camera r) = buf_ok r"
  "buf_ok (pc_do a i r) = buf_ok r" "buf_ok (close_pc i r) = buf_ok r" "buf_ok (call_sink s p r) = buf_ok r"
  by (simp_all add: buf_ok_def drop_camera_def pc_do_def close_pc_def split: option.splits)

lemma buf_ok_fields [simp]:
  "buf_ok (r\<lparr>r_pc := x\<rparr>) = buf_ok r" "buf_ok (r\<lparr>r_session := y\<rparr>) = buf_ok r" "buf_ok (r\<lparr>r_ended := z\<rparr>) = buf_ok r"
  "buf_ok (r\<lparr>r_camera := v\<rparr>) = buf_ok r" "buf_ok (r\<lparr>r_held := h\<rparr>) = buf_ok r" "buf_ok (r\<lparr>r_next := n\<rparr>) = buf_ok r"
  "buf_ok (r\<lparr>r_sent := js\<rparr>) = buf_ok r" "buf_ok (r\<lparr>r_channels := cs\<rparr>) = buf_ok r"
  "buf_ok (r\<lparr>r_pending := q\<rparr>) = buf_ok r" "buf_ok (r\<lparr>r_udp_sent := us\<rparr>) = buf_ok r" "buf_ok (r\<lparr>r_events := es\<rparr>) = buf_ok r" "buf_ok (r\<lparr>r_pcs := ps\<rparr>) = buf_ok r"
  by (simp_all add: buf_ok_def)

lemma buf_ok_newPeerConn: "newPeerConn px s ice r1 = (res, r2) \<Longrightarrow> buf_ok r2 = buf_ok r1"
  using newPeerConn_cases[of px s ice r1 res r2] by auto

lemma buf_ok_ws_round: "buf_ok r \<Longrightarrow> buf_ok (ws_round cfg px raw r)"
proof -
  assume ok: "buf_ok r"
  then have "buf_ok (on_session_ack cfg px m r)" for m
    by (auto simp: on_session_ack_def Let_def buf_ok_frame buf_ok_newPeerConn split: prod.splits sum.splits option.splits)
  moreover have "buf_ok (add_camera cfg px i r')" if "buf_ok r'" for i r'
    using that by (simp add: add_camera_def Let_def buf_ok_frame split: prod.splits sum.splits option.splits)
  then have "buf_ok (on_peer_sdp cfg px m r)" for m
    using ok by (simp add: on_peer_sdp_def Let_def buf_ok_frame split: sum.splits option.splits)
  moreover have "buf_ok (on_peer_ice px m r)" for m using ok by (simp add: on_peer_ice_def buf_ok_frame split: option.splits)
  ultimately show ?thesis
    using ok by (simp add: ws_round_def on_peer_gone_def Let_def buf_ok_frame split: sum.splits option.splits)
qed

lemma buf_ok_step:
  assumes "buf_ok r" and "relay_step cfg ev r = Some r'"
  shows "buf_ok r'"
proof -
  from assms(2) have step: "relay_event_step cfg ev r = Some r'" by (simp add: relay_step_def split: if_splits)
  show ?thesis
  proof (cases ev)
    case (Datagram d src)
    obtain u' buf' c where rr: "receive_round d src (r_bridge r) (r_buf r) = (u', buf', c)" by (metis prod_cases3)
    with step Datagram assms(1) receive_round_facts(2)[OF rr] show ?thesis by (auto simp: buf_ok_def split: if_splits)
  qed (use step assms(1) buf_ok_ws_round in \<open>auto simp: ws_end_def ws_start_def on_ice_candidate_def
      on_connection_state_def channel_open_eq channel_close_eq
      on_data_channel_def channel_message_eq wireCommand_message_def Let_def buf_ok_frame
      split: if_splits option.splits\<close>)
qed

lemma buf_ok_start: "buf_ok (start_relay cfg u)"
  by (simp add: start_relay_def buf_ok_frame) (simp add: buf_ok_def new_relay_def)

lemma buf_ok_run: "relay_run cfg evs (start_relay cfg u) = Some r \<Longrightarrow> buf_ok r"
  by (erule relay_run_induct[where P = buf_ok]) (auto intro: buf_ok_start buf_ok_step)

text \<open>The installed callback forwards to channel \<open>dc\<close>, and no call is in flight.\<close>

definition forwarding :: "relay_config \<Rightarrow> nat \<Rightarrow> relay \<Rightarrow> bool" where
  "forwarding cfg dc r \<longleftrightarrow>
     (\<exists>s k. u_on_pkt (r_bridge r) = Some s \<and> r_sinks r s = Some k \<and> sk_dc k = Some dc \<and>
            (sk_debug k = None \<or> rc_debug cfg)) \<and>
     r_pending r = None \<and> \<not> r_crashed r \<and> buf_ok r"

lemma forwarding_open:
  "r_pending r = None \<Longrightarrow> \<not> r_crashed r \<Longrightarrow> buf_ok r \<Longrightarrow> forwarding cfg dc (installTelemetryHandler (Some dc) (rc_debug cfg) r)"
  by (auto simp: forwarding_def buf_ok_frame) (simp add: installTelemetryHandler_def Let_def SetOnPacket_def)

lemma call_sink_forwards:
  assumes "r_sinks r s = Some k" and "sk_dc k = Some dc" and "sk_debug k = None \<or> pkt \<noteq> []"
  shows "\<exists>dbg. call_sink s pkt r =
    r\<lparr>r_sinks := (r_sinks r)(s \<mapsto> k\<lparr>sk_debug := dbg\<rparr>), r_dc_sent := r_dc_sent r @ [(dc, pkt)]\<rparr> \<and>
    (sk_debug k = None \<longrightarrow> dbg = None)"
proof (cases "sk_debug k")
  case None
  then show ?thesis using assms by (intro exI[of _ None]) (simp add: call_sink_def)
next
  case (Some n)
  obtain n' line where l: "debug_logger ''udp'' n pkt = (n', line)" by (cases "debug_logger ''udp'' n pkt")
  have "line \<noteq> IndexPanic" using Some assms(3) debug_logger_panics[of "''udp''" n pkt] l by auto
  with assms(1,2) Some l show ?thesis by (intro exI[of _ "Some n'"]) (simp add: call_sink_def)
qed

lemma forwarding_datagram:
  assumes f: "forwarding cfg dc r" and "rc_debug cfg \<longrightarrow> d \<noteq> []"
  shows "\<exists>r'. relay_run cfg [Datagram d src, CallSink] r = Some r' \<and> forwarding cfg dc r' \<and>
              r_dc_sent r' = r_dc_sent r @ [(dc, take buf_size d)]"
proof -
  from f obtain s k where sk: "u_on_pkt (r_bridge r) = Some s" "r_sinks r s = Some k" "sk_dc k = Some dc"
    "sk_debug k = None \<or> rc_debug cfg" and st: "r_pending r = None" "\<not> r_crashed r" "length (r_buf r) = buf_size"
    by (auto simp: forwarding_def buf_ok_def)
  obtain u' buf' c where rr: "receive_round d src (r_bridge r) (r_buf r) = (u', buf', c)" by (metis prod_cases3)
  note facts = receive_round_facts[OF rr]
  let ?pkt = "take buf_size d"
  have c: "c = Some (s, ?pkt)" using facts(3) sk(1) st(3) by simp
  let ?r1 = "r\<lparr>r_bridge := u', r_buf := buf', r_pending := None\<rparr>"
  have nd: "sk_debug k = None \<or> ?pkt \<noteq> []" using assms(2) sk(4) by (auto simp: buf_size_pos)
  have s1: "r_sinks ?r1 s = Some k" using sk(2) by simp
  obtain dbg where call: "call_sink s ?pkt ?r1 =
      ?r1\<lparr>r_sinks := (r_sinks ?r1)(s \<mapsto> k\<lparr>sk_debug := dbg\<rparr>), r_dc_sent := r_dc_sent ?r1 @ [(dc, ?pkt)]\<rparr>"
    and dbg: "sk_debug k = None \<longrightarrow> dbg = None"
    using call_sink_forwards[OF s1 sk(3) nd] by (elim exE conjE) (rule that)
  have "relay_run cfg [Datagram d src, CallSink] r = Some (call_sink s ?pkt ?r1)"
    using st c by (simp add: relay_step_def rr)
  moreover have "forwarding cfg dc (call_sink s ?pkt ?r1)"
    using sk dbg st facts(1,2) unfolding call by (auto simp: forwarding_def buf_ok_def)
  ultimately show ?thesis using call by simp
qed

definition datagram_events :: "(packet \<times> udp_addr) list \<Rightarrow> relay_event list" where
  "datagram_events ds = concat (map (\<lambda>(d, src). [Datagram d src, CallSink]) ds)"

lemma relay_run_append:
  "relay_run cfg (xs @ ys) r = (case relay_run cfg xs r of None \<Rightarrow> None | Some r' \<Rightarrow> relay_run cfg ys r')"
  by (induction xs arbitrary: r) (auto split: option.splits)

lemma forwarding_datagrams:
  "forwarding cfg dc r \<Longrightarrow> rc_debug cfg \<longrightarrow> [] \<notin> fst ` set ds \<Longrightarrow>
     \<exists>r'. relay_run cfg (datagram_events ds) r = Some r' \<and>
          r_dc_sent r' = r_dc_sent r @ map (\<lambda>d. (dc, take buf_size (fst d))) ds"
proof (induction ds arbitrary: r)
  case Nil
  then show ?case by (simp add: datagram_events_def)
next
  case (Cons d ds)
  obtain p src where d: "d = (p, src)" by (cases d)
  have "rc_debug cfg \<longrightarrow> p \<noteq> []" using Cons.prems(2) d by auto
  then obtain r1 where r1: "relay_run cfg [Datagram p src, CallSink] r = Some r1" "forwarding cfg dc r1"
    "r_dc_sent r1 = r_dc_sent r @ [(dc, take buf_size p)]"
    using forwarding_datagram[OF Cons.prems(1)] by blast
  then obtain r' where "relay_run cfg (datagram_events ds) r1 = Some r'"
    "r_dc_sent r' = r_dc_sent r1 @ map (\<lambda>d. (dc, take buf_size (fst d))) ds"
    using Cons.IH[OF r1(2)] Cons.prems(2) by auto
  moreover have "datagram_events (d # ds) = [Datagram p src, CallSink] @ datagram_events ds"
    by (simp add: datagram_events_def d)
  ultimately have "relay_run cfg (datagram_events (d # ds)) r = Some r'"
    by (simp only: relay_run_append r1(1) option.case)
  with r1(3) \<open>r_dc_sent r' = _\<close> show ?case by (simp add: d)
qed

section \<open>Properties\<close>

text \<open>
  C17: the relay leaks nothing, whatever order messages, callbacks, datagrams and reconnects come
  in: a peer connection that is not closed is the current one of a running loop, the operating
  system's resources held are exactly those of the current camera, a camera runs only beside a
  connection, and once the loop has ended no connection is open and nothing is held.
\<close>

theorem relay_leaks_nothing:
  assumes "relay_run cfg evs (start_relay cfg u) = Some r"
  shows "(\<forall>i p. r_pcs r i = Some p \<longrightarrow> pc_open p \<longrightarrow> r_ended r = None \<and> r_pc r = Some i) \<and>
    (if r_ended r = None
     then r_held r = (case r_camera r of None \<Rightarrow> {} | Some v \<Rightarrow> video_resources (vs_id v)) \<and>
          (r_camera r \<noteq> None \<longrightarrow> r_pc r \<noteq> None)
     else r_held r = {})"
proof -
  have inv: "relay_inv r" by (rule relay_inv_started[OF assms])
  show ?thesis
  proof (cases "r_ended r = None")
    case True
    with inv have l: "pcs_ok r" "camera_ok r" "r_camera r \<noteq> None \<longrightarrow> r_pc r \<noteq> None"
      by (simp_all add: relay_inv_def loop_inv_def)
    from l(2,3) True pcs_okD(2)[OF l(1)] show ?thesis by (simp add: camera_ok_def)
  next
    case False
    with inv show ?thesis by (auto simp: relay_inv_def idle_inv_def)
  qed
qed

definition fine_pion :: pion where
  "fine_pion =
     \<lparr>px_codecs = None, px_nack = None, px_reports = None, px_new = None, px_set_remote = None,
      px_video = demo_video_env, px_add_track = None, px_answer = Inr ''v=0'', px_set_local = None,
      px_write = None, px_candidate = (\<lambda>c. None), px_add_ice = None\<rparr>"

definition demo_config :: "bool \<Rightarrow> string \<Rightarrow> relay_config" where
  "demo_config debug camera = default_config\<lparr>rc_debug := debug, rc_camera_dev := camera\<rparr>"

definition demo_bridge :: "nat udp" where
  "demo_bridge = \<lparr>u_endpoint = None, u_on_pkt = None, u_closed = False\<rparr>"

definition ack_event :: "string \<Rightarrow> relay_event" where
  "ack_event s = WsMessage fine_pion (encode_session_ack
     \<lparr>ack_kind = KindSessionAck, ack_session = s, ack_peer = ''pilot1'', ack_ice_servers = Some [], ack_initiator = False\<rparr>)"

definition offer_event :: "string \<Rightarrow> relay_event" where
  "offer_event s = WsMessage fine_pion (encode_sdp
     \<lparr>sdp_kind = KindPeerSDP, sdp_session = s, sdp_role = ''offer'', sdp_sdp = ''o''\<rparr>)"

lemma kinds_differ [simp]:
  "KindSessionAck \<noteq> KindHelloOK" "KindPeerSDP \<noteq> KindHelloOK" "KindPeerSDP \<noteq> KindSessionAck"
  by (simp_all add: kind_defs)

lemma envelope_peer_sdp: "unmarshal_envelope (encode_sdp d) = Inr \<lparr>env_kind = sdp_kind d\<rparr>"
  by (rule envelope_of_client(3))

lemma ack_step:
  "\<not> r_crashed r \<Longrightarrow> r_ended r = None \<Longrightarrow>
     relay_step cfg (ack_event s) r =
       Some ((ack_base cfg s r)\<lparr>r_pcs := (r_pcs (ack_base cfg s r))(r_next (ack_base cfg s r) \<mapsto>
               \<lparr>pc_session = s, pc_ice = [], pc_open = True, pc_log = []\<rparr>),
             r_next := Suc (r_next (ack_base cfg s r)), r_pc := Some (r_next (ack_base cfg s r))\<rparr>)"
  by (simp add: relay_step_def ack_event_def ws_round_def envelope_of_server server_roundtrips
      on_session_ack_eq newPeerConn_def fine_pion_def)

lemma ack_base_simps [simp]:
  "r_pc (ack_base cfg s r) = None" "r_session (ack_base cfg s r) = s" "r_ended (ack_base cfg s r) = r_ended r"
  "r_camera (ack_base cfg s r) = None" "r_sent (ack_base cfg s r) = r_sent r" "r_crashed (ack_base cfg s r) = r_crashed r"
  "r_channels (ack_base cfg s r) = r_channels r" "r_pending (ack_base cfg s r) = r_pending r"
  by (simp_all add: ack_base_def shut_pc_def drop_camera_def close_pc_def split: option.splits)

lemma ack_base_next: "\<not> rc_debug cfg \<or> r_pc r = None \<Longrightarrow> r_next (ack_base cfg s r) = r_next r"
  by (auto simp: ack_base_def installTelemetryHandler_def)

lemma ack_base_pcs:
  "r_pcs (ack_base cfg s r) = (case r_pc r of None \<Rightarrow> r_pcs r
     | Some i \<Rightarrow> (case r_pcs r i of None \<Rightarrow> r_pcs r | Some p \<Rightarrow> (r_pcs r)(i \<mapsto> p\<lparr>pc_open := False\<rparr>)))"
  by (simp add: ack_base_def shut_pc_def close_pc_def split: option.splits)

lemma offer_step:
  "\<not> r_crashed r \<Longrightarrow> r_ended r = None \<Longrightarrow> r_pc r = Some i \<Longrightarrow>
     relay_step cfg (offer_event s) r =
       (let r2 = pc_do (LocalSdp ''answer'' ''v=0'') i (add_camera cfg fine_pion i (pc_do (RemoteSdp ''offer'' ''o'') i r))
        in Some (r2\<lparr>r_sent := r_sent r2 @ [encode_sdp \<lparr>sdp_kind = KindSDP, sdp_session = r_session r2,
                      sdp_role = ''answer'', sdp_sdp = ''v=0''\<rparr>]\<rparr>))"
  by (simp add: relay_step_def offer_event_def ws_round_def envelope_peer_sdp server_roundtrips
      on_peer_sdp_def fine_pion_def Let_def)

abbreviation demo_start :: "string \<Rightarrow> relay" where
  "demo_start camera \<equiv> start_relay (demo_config False camera) demo_bridge"

lemma demo_start_simps [simp]:
  "r_pc (demo_start c) = None" "r_ended (demo_start c) = None" "r_next (demo_start c) = 0" "\<not> r_crashed (demo_start c)"
  "r_pcs (demo_start c) = Map.empty" "r_sent (demo_start c) = []" "r_channels (demo_start c) = Map.empty"
  "r_pending (demo_start c) = None"
  by (simp_all add: start_relay_def demo_config_def default_config_def new_relay_def)

text \<open>The fields the demonstrations look at.\<close>

definition ready :: "nat option \<Rightarrow> string \<Rightarrow> nat \<Rightarrow> nat set \<Rightarrow> (nat \<rightharpoonup> string) \<Rightarrow> json list \<Rightarrow> relay \<Rightarrow> bool" where
  "ready pc sid n pcs chs sent r \<longleftrightarrow>
     \<not> r_crashed r \<and> r_ended r = None \<and> r_pending r = None \<and> r_camera r = None \<and> r_pc r = pc \<and> r_session r = sid \<and>
     r_next r = n \<and> dom (r_pcs r) = pcs \<and> r_channels r = chs \<and> r_sent r = sent"

lemma ready_start: "ready None '''' 0 {} Map.empty [] (demo_start c)"
  by (simp add: ready_def) (simp add: start_relay_def demo_config_def default_config_def new_relay_def)

lemma ready_ack:
  assumes "ready pc sid n pcs chs sent r" and "\<not> rc_debug cfg \<or> pc = None"
  shows "\<exists>r'. relay_step cfg (ack_event s) r = Some r' \<and> ready (Some n) s (Suc n) (insert n pcs) chs sent r'"
proof -
  have "dom (r_pcs (ack_base cfg s r)) = pcs"
    using assms(1) by (auto simp: ready_def ack_base_pcs split: option.splits if_splits)
  then show ?thesis
    using assms by (auto simp: ready_def ack_step ack_base_next)
qed

lemma ready_offer:
  assumes "ready (Some i) sid n pcs chs sent r" and "rc_camera_dev cfg = ''''"
  shows "\<exists>r'. relay_step cfg (offer_event s) r = Some r' \<and>
    ready (Some i) sid n pcs chs (sent @ [encode_sdp \<lparr>sdp_kind = KindSDP, sdp_session = sid,
      sdp_role = ''answer'', sdp_sdp = ''v=0''\<rparr>]) r'"
proof -
  have "dom (r_pcs (pc_do a i r')) = dom (r_pcs r')" "r_crashed (pc_do a i r') = r_crashed r'"
    "r_pending (pc_do a i r') = r_pending r'" for a r'
    by (auto simp: pc_do_def split: option.splits)
  then show ?thesis
    using assms by (simp add: ready_def offer_step add_camera_def Let_def)
qed

lemma demo_config_simps [simp]: "\<not> rc_debug (demo_config False c)" "rc_camera_dev (demo_config d c) = c" "rc_debug (demo_config True c)"
  by (simp_all add: demo_config_def)

lemma demo_one_session:
  "\<exists>r. relay_run (demo_config False '''') [ack_event ''s1''] (demo_start '''') = Some r \<and>
       ready (Some 0) ''s1'' 1 {0} Map.empty [] r"
  using ready_ack[OF ready_start, of "demo_config False ''''" "''s1''" "''''"] by auto

lemma demo_two_sessions:
  "\<exists>r. relay_run (demo_config False '''') [ack_event ''s1'', ack_event ''s2''] (demo_start '''') = Some r \<and>
       ready (Some 1) ''s2'' 2 {0, 1} Map.empty [] r"
proof -
  obtain r1 where "relay_step (demo_config False '''') (ack_event ''s1'') (demo_start '''') = Some r1"
    and "ready (Some 0) ''s1'' (Suc 0) {0} Map.empty [] r1"
    using ready_ack[OF ready_start, of "demo_config False ''''" "''s1''" "''''"] by auto
  with ready_ack[OF this(2), of "demo_config False ''''" "''s2''"] show ?thesis
    by (auto simp: numeral_2_eq_2 insert_commute)
qed

theorem relay_leaks_nothing_witness:
  "\<exists>r. relay_run (demo_config False '''') [ack_event ''s1''] (demo_start '''') = Some r \<and> r_pcs r 0 \<noteq> None \<and>
     (\<forall>i p. r_pcs r i = Some p \<longrightarrow> pc_open p \<longrightarrow> r_pc r = Some i)"
proof -
  obtain r where run: "relay_run (demo_config False '''') [ack_event ''s1''] (demo_start '''') = Some r"
    and "ready (Some 0) ''s1'' 1 {0} Map.empty [] r"
    using demo_one_session by blast
  then have "r_pcs r 0 \<noteq> None" by (auto simp: ready_def dom_def)
  with relay_leaks_nothing[OF run] run show ?thesis by blast
qed

text \<open>
  C30: the relay speaks only as an answerer and only for sessions it was given: every message it
  writes after its hello is an SDP answer or an ICE candidate, in a session some peer connection
  of its own was made for.
\<close>

theorem relay_speaks_for_its_sessions:
  assumes "relay_run cfg evs (start_relay cfg u) = Some r" and "j \<in> set (r_sent r)"
  shows "\<exists>i p. r_pcs r i = Some p \<and>
    ((\<exists>answer. j = encode_sdp \<lparr>sdp_kind = KindSDP, sdp_session = pc_session p, sdp_role = ''answer'', sdp_sdp = answer\<rparr>) \<or>
     (\<exists>c. j = encode_ice \<lparr>icem_kind = KindICE, icem_session = pc_session p, icem_cand = c\<rparr>))"
proof -
  have "sent_ok r"
    using relay_inv_started[OF assms(1)] by (simp add: relay_inv_def loop_inv_def idle_inv_def split: if_splits)
  then obtain s where "s \<in> known r" "relay_msg s j" using assms(2) by (auto simp: sent_ok_def)
  then show ?thesis unfolding known_iff relay_msg_def by blast
qed

theorem relay_speaks_for_its_sessions_witness:
  "\<exists>r. relay_run (demo_config False '''') [ack_event ''s1'', offer_event ''s1''] (demo_start '''') = Some r \<and>
     r_sent r \<noteq> [] \<and> (\<exists>i p. r_pcs r i = Some p \<and> relay_msg (pc_session p) (hd (r_sent r)))"
proof -
  obtain r1 where r1: "relay_step (demo_config False '''') (ack_event ''s1'') (demo_start '''') = Some r1"
    "ready (Some 0) ''s1'' (Suc 0) {0} Map.empty [] r1"
    using ready_ack[OF ready_start, of "demo_config False ''''" "''s1''" "''''"] by auto
  obtain r where "relay_step (demo_config False '''') (offer_event ''s1'') r1 = Some r" and ne: "r_sent r \<noteq> []"
    using ready_offer[OF r1(2), of "demo_config False ''''" "''s1''"] by (auto simp: ready_def)
  with r1(1) have run: "relay_run (demo_config False '''') [ack_event ''s1'', offer_event ''s1''] (demo_start '''') = Some r"
    by simp
  from relay_speaks_for_its_sessions[OF run hd_in_set[OF ne]] run ne show ?thesis
    unfolding relay_msg_def by blast
qed


text \<open>
  C24: the autopilot gets the phone's commands and nothing else: what the relay has sent over UDP
  is exactly the payloads of the binary messages on channels labelled \<open>cmd\<close>, in order and
  unchanged, from the moment a datagram from the autopilot has been received; text messages and
  other channels never reach it.
\<close>

theorem autopilot_gets_exactly_the_commands:
  assumes "relay_run cfg evs (start_relay cfg u) = Some r" and "u_endpoint u = None"
  shows "map snd (r_udp_sent r) = commands Map.empty False evs"
proof -
  have "r_udp_sent (start_relay cfg u) = []" "r_channels (start_relay cfg u) = Map.empty"
    "u_endpoint (r_bridge (start_relay cfg u)) = None"
    using assms(2) by (simp_all add: start_relay_def) (simp_all add: new_relay_def)
  with run_commands[OF assms(1)] show ?thesis by simp
qed

theorem autopilot_gets_exactly_the_commands_witness:
  "\<exists>r. relay_run (demo_config False '''')
     [ack_event ''s1'', ChannelArrives 0 7 ''cmd'', ChannelMessage 7 False [1], Datagram [9] (demo_addr 5),
      ChannelMessage 7 True [2], ChannelMessage 7 False [3]] (demo_start '''') = Some r \<and>
     map snd (r_udp_sent r) = [[3]]"
proof -
  let ?rest = "[ChannelArrives 0 7 ''cmd'', ChannelMessage 7 False [1], Datagram [9] (demo_addr 5),
      ChannelMessage 7 True [2], ChannelMessage 7 False [3]]"
  obtain r1 where r1: "relay_step (demo_config False '''') (ack_event ''s1'') (demo_start '''') = Some r1"
    "ready (Some 0) ''s1'' (Suc 0) {0} Map.empty [] r1"
    using ready_ack[OF ready_start, of "demo_config False ''''" "''s1''" "''''"] by auto
  have "r_pcs r1 0 \<noteq> None" using r1(2) by (auto simp: ready_def dom_def)
  then have "relay_run (demo_config False '''') ?rest r1 \<noteq> None"
    using r1(2)
    by (simp add: ready_def relay_step_def on_data_channel_def channel_message_eq wireCommand_message_def
        split: prod.splits option.splits)
  with r1(1) obtain r where run: "relay_run (demo_config False '''') (ack_event ''s1'' # ?rest) (demo_start '''') = Some r"
    by auto
  from autopilot_gets_exactly_the_commands[OF run] run show ?thesis
    by (simp add: demo_bridge_def ack_event_def)
qed




end
