(* ===== verification/Services.thy ===== *)
theory Services
  imports Auth Settle Relay
begin

text \<open>
  The entry points \<open>cmd/auth/main.go\<close>, \<open>cmd/signal/main.go\<close> and \<open>main\<close> of
  \<open>cmd/relay/main.go\<close>: flags and their defaults, resolving the secret, what is wired to what,
  the routes, exit codes, and the life of a serving process from listening to shutting down.
  The middleware of the router library is a parameter.
\<close>

section \<open>Configuration\<close>

text \<open>The flag wins over the environment variable \<open>JWT_SECRET\<close>.\<close>

definition resolve_secret :: "string \<Rightarrow> string \<Rightarrow> string" where
  "resolve_secret flag env = (if flag = '''' then env else flag)"

record auth_config =
  ac_addr :: string
  ac_jwt_secret :: string
  ac_access_ttl :: int

definition default_auth_config :: auth_config where
  "default_auth_config = \<lparr>ac_addr = '':8081'', ac_jwt_secret = '''', ac_access_ttl = 3600 * second\<rparr>"

record signal_config =
  sc_addr :: string
  sc_jwt_secret :: string
  sc_turn_uri :: string
  sc_turn_user :: string
  sc_turn_pass :: string

definition default_signal_config :: signal_config where
  "default_signal_config =
     \<lparr>sc_addr = '':8080'', sc_jwt_secret = '''', sc_turn_uri = '''', sc_turn_user = '''', sc_turn_pass = ''''\<rparr>"

section \<open>The auth service\<close>

record auth_service =
  as_addr :: string
  as_handler :: http_handler
  as_verifier :: verifier

abbreviation as_issuer :: "auth_service \<Rightarrow> mint" where
  "as_issuer svc \<equiv> hh_issuer (as_handler svc)"

abbreviation as_users :: "auth_service \<Rightarrow> memory_store" where
  "as_users svc \<equiv> hh_store (as_handler svc)"

text \<open>\<open>Inl\<close> is the process's exit code; \<open>Inr\<close> is the service that starts to listen.\<close>

definition auth_main ::
    "bcrypt_lib \<Rightarrow> string \<Rightarrow> string \<Rightarrow> auth_config \<Rightarrow> string \<Rightarrow> nat + auth_service" where
  "auth_main bc salt1 salt2 cfg env =
     (let secret = resolve_secret (ac_jwt_secret cfg) env
      in if secret = '''' then Inl 2
         else (let issuer = NewIssuer secret (ac_access_ttl cfg);
                   v = NewVerifier secret
               in case SeedDev bc salt1 salt2 NewMemoryStore of
                    (users, Some e) \<Rightarrow> Inl 1
                  | (users, None) \<Rightarrow>
                      Inr \<lparr>as_addr = ac_addr cfg, as_handler = NewHTTPHandler users issuer, as_verifier = v\<rparr>))"

datatype routed =
    Handled http_outcome
  | EmptyOK
  | NotFound
  | MethodNotAllowed

text \<open>The routes; a path that is known under another method only is \<open>405\<close>.\<close>

definition auth_route ::
    "bcrypt_lib \<Rightarrow> jwt_lib \<Rightarrow> auth_service \<Rightarrow> int \<Rightarrow> string \<Rightarrow> string \<Rightarrow> claims http_request \<Rightarrow> routed" where
  "auth_route bc lib svc now meth path r =
     (if path = ''/healthz'' then (if meth = ''GET'' then EmptyOK else MethodNotAllowed)
      else if path = ''/v1/auth/login''
      then (if meth = ''POST'' then Handled (Login bc lib (as_issuer svc) now (as_users svc) r) else MethodNotAllowed)
      else if path = ''/v1/me''
      then (if meth = ''GET'' then Handled (RequireToken lib (v_secret (as_verifier svc)) now Me r) else MethodNotAllowed)
      else NotFound)"

text \<open>
  The middleware around the routes (request ids, real addresses, recovery, the timeout) belongs
  to the router library.  What the service relies on: an answer passes, and a panic becomes a 500.
\<close>

definition recovers :: "(http_outcome \<Rightarrow> http_outcome) \<Rightarrow> bool" where
  "recovers mw \<longleftrightarrow>
     (\<forall>st ty body. mw (Response st ty body) = Response st ty body) \<and>
     (\<exists>ty body. mw NilPanic = Response StatusInternalServerError ty body)"

definition auth_serve ::
    "(http_outcome \<Rightarrow> http_outcome) \<Rightarrow> bcrypt_lib \<Rightarrow> jwt_lib \<Rightarrow> auth_service \<Rightarrow> int \<Rightarrow> string \<Rightarrow> string \<Rightarrow>
     claims http_request \<Rightarrow> routed" where
  "auth_serve mw bc lib svc now meth path r =
     (case auth_route bc lib svc now meth path r of
        Handled out \<Rightarrow> Handled (mw out)
      | other \<Rightarrow> other)"

section \<open>The signaling service\<close>

record signal_service =
  ss_addr :: string
  ss_handler :: ws_handler

definition turn_servers :: "string \<Rightarrow> string \<Rightarrow> string \<Rightarrow> ice_server list option" where
  "turn_servers uri user pass =
     (if uri = '''' then None
      else Some [\<lparr>ice_urls = Some [uri], ice_username = user, ice_credential = pass\<rparr>])"

definition signal_main :: "signal_config \<Rightarrow> string \<Rightarrow> nat + signal_service" where
  "signal_main cfg env =
     (let secret = resolve_secret (sc_jwt_secret cfg) env
      in if secret = '''' then Inl 2
         else (let v = NewVerifier secret;
                   hub = new_hub (turn_servers (sc_turn_uri cfg) (sc_turn_user cfg) (sc_turn_pass cfg))
               in Inr \<lparr>ss_addr = sc_addr cfg, ss_handler = NewWSHandler hub v\<rparr>))"

abbreviation ss_secret :: "signal_service \<Rightarrow> string" where
  "ss_secret svc \<equiv> v_secret (wh_verifier (ss_handler svc))"

text \<open>The server the service starts with, and its routes.\<close>

definition ss_server :: "signal_service \<Rightarrow> server" where
  "ss_server svc = \<lparr>srv_hub = wh_hub (ss_handler svc), srv_conns = Map.empty\<rparr>"

datatype signal_routed =
    WebSocket
  | SignalOK
  | SignalNotFound
  | SignalNotAllowed

definition signal_route :: "string \<Rightarrow> string \<Rightarrow> signal_routed" where
  "signal_route meth path =
     (if path = ''/healthz'' then (if meth = ''GET'' then SignalOK else SignalNotAllowed)
      else if path = ''/v1/signal'' then (if meth = ''GET'' then WebSocket else SignalNotAllowed)
      else SignalNotFound)"

section \<open>Listening and shutting down\<close>

text \<open>
  The end of both mains: a goroutine listens; \<open>main\<close> waits for the context, which a signal or
  a failure to listen cancels, shuts the server down and returns.  \<open>sp_listening\<close> says that the
  goroutine is inside \<open>ListenAndServe\<close>, \<open>sp_draining\<close> that \<open>main\<close> is inside
  \<open>Shutdown\<close>, whose result it ignores.
\<close>

definition ErrServerClosed :: go_error where
  "ErrServerClosed = NewError ''http: Server closed''"

record serving =
  sp_listening :: bool
  sp_cancelled :: bool
  sp_draining :: bool
  sp_log :: "string list"
  sp_exit :: "nat option"

definition start_serving :: serving where
  "start_serving =
     \<lparr>sp_listening = True, sp_cancelled = False, sp_draining = False, sp_log = [], sp_exit = None\<rparr>"

datatype serving_event =
    OsSignal
  | ListenReturns go_error
  | MainWakes
  | ShutdownReturns "go_error option"

fun serving_step :: "serving_event \<Rightarrow> serving \<Rightarrow> serving option" where
  "serving_step OsSignal p = (if sp_exit p = None then Some (p\<lparr>sp_cancelled := True\<rparr>) else None)"
| "serving_step (ListenReturns e) p =
     (if sp_exit p = None \<and> sp_listening p
      then Some (if e \<noteq> ErrServerClosed
                 then p\<lparr>sp_listening := False, sp_log := sp_log p @ [''listen''], sp_cancelled := True\<rparr>
                 else p\<lparr>sp_listening := False\<rparr>)
      else None)"
| "serving_step MainWakes p =
     (if sp_exit p = None \<and> sp_cancelled p \<and> \<not> sp_draining p
      then Some (p\<lparr>sp_draining := True, sp_log := sp_log p @ [''shutting down'']\<rparr>) else None)"
| "serving_step (ShutdownReturns e) p =
     (if sp_exit p = None \<and> sp_draining p then Some (p\<lparr>sp_exit := Some 0\<rparr>) else None)"

fun serving_run :: "serving_event list \<Rightarrow> serving \<Rightarrow> serving option" where
  "serving_run [] p = Some p"
| "serving_run (ev # evs) p = (case serving_step ev p of None \<Rightarrow> None | Some p' \<Rightarrow> serving_run evs p')"

section \<open>The relay\<close>

text \<open>
  \<open>RelayExit\<close> is an exit code; \<open>Signaling r min max\<close> is the relay ready for its first cycle and
  the bounds of its backoff.
\<close>

datatype relay_plan =
    RelayExit nat
  | BridgeOnly relay
  | Signaling relay int int

definition relay_main ::
    "(string \<Rightarrow> go_error + udp_addr) \<Rightarrow> (udp_addr \<Rightarrow> go_error option) \<Rightarrow> relay_config \<Rightarrow> relay_plan" where
  "relay_main resolve listen cfg =
     (case Listen resolve listen (rc_mavlink_listen cfg) of
        Inl e \<Rightarrow> RelayExit 1
      | Inr u \<Rightarrow>
          let r = start_relay cfg u
          in if rc_skip_signaling cfg then BridgeOnly r
             else Signaling r (rc_min_delay cfg) (rc_max_delay cfg))"

section \<open>An HTTP client of the auth service\<close>

text \<open>
  A client whose requests reach \<open>auth_route\<close>: \<open>render\<close> is the text of a JSON body, and a panic
  ends the request in an error.
\<close>

definition reply_of :: "(json \<Rightarrow> string) \<Rightarrow> routed \<Rightarrow> go_error + http_reply" where
  "reply_of render out =
     (case out of
        Handled (Response st ty body) \<Rightarrow> Inr \<lparr>rp_status = st, rp_text = render body, rp_json = Inr body\<rparr>
      | Handled NilPanic \<Rightarrow> Inl (LibError ''EOF'')
      | EmptyOK \<Rightarrow> Inr \<lparr>rp_status = 200, rp_text = '''', rp_json = Inl (LibError ''EOF'')\<rparr>
      | NotFound \<Rightarrow> Inr \<lparr>rp_status = 404, rp_text = ''404 page not found'', rp_json = Inl (LibError ''EOF'')\<rparr>
      | MethodNotAllowed \<Rightarrow> Inr \<lparr>rp_status = 405, rp_text = '''', rp_json = Inl (LibError ''EOF'')\<rparr>)"

definition json_request :: "json \<Rightarrow> claims http_request" where
  "json_request body = \<lparr>req_authorization = '''', req_claims = None, req_body = Inr body\<rparr>"

definition auth_client ::
    "bcrypt_lib \<Rightarrow> jwt_lib \<Rightarrow> auth_service \<Rightarrow> (json \<Rightarrow> string) \<Rightarrow> int \<Rightarrow> string \<Rightarrow> http_client" where
  "auth_client bc lib svc render now base =
     \<lparr>hc_new_request = (\<lambda>url. None),
      hc_do = (\<lambda>url body. reply_of render
                 (if take (length base) url = base
                  then auth_route bc lib svc now ''POST'' (drop (length base) url) (json_request body)
                  else NotFound))\<rparr>"

section \<open>Facts\<close>

lemma upper_login_names:
  "map ascii_upper ''access_token'' = ''ACCESS_TOKEN''" "map ascii_upper ''expires_at'' = ''EXPIRES_AT''"
  "map ascii_upper ''sub'' = ''SUB''"
  by code_simp+

lemma fold_login_names:
  "fold_name ''access_token'' = ''ACCESS_TOKEN''" "fold_name ''expires_at'' = ''EXPIRES_AT''"
  "fold_name ''sub'' = ''SUB''"
  by (subst fold_name_ascii, simp, fact upper_login_names)+

lemma decode_login_response:
  "checked (decode_access_token (encode_login_response r)) = Inr (lo_access_token r)"
  by (simp add: decode_access_token_def encode_login_response_def access_token_fields_def checked_def
      find_field_def set_string_def fold_member_names fold_login_names)

lemma login_at_auth:
  "login (auth_client bc lib svc render now base) base user pass =
     (case authenticate bc user pass (as_users svc) of
        Inl e \<Rightarrow> Inl (NewError (''login '' @ dec_nat 401 @ '': '' @ render
                   (JObj [(''code'', JStr ''invalid_credentials''),
                          (''message'', JStr ''username or password incorrect'')])))
      | Inr u \<Rightarrow>
          (case issue lib (as_issuer svc) now (u_id u) (u_role u) of
             Inl e \<Rightarrow> Inl (NewError (''login '' @ dec_nat 500 @ '': '' @ render
                   (JObj [(''code'', JStr ''issue_failed''), (''message'', JStr (error_text e))])))
           | Inr (tok, exp) \<Rightarrow> if tok = '''' then Inl (NewError ''login: empty access_token'') else Inr tok))"
  by (simp add: login_def auth_client_def auth_route_def json_request_def Login_body[unfolded login_body_def]
      writeErr_def reply_of_def decode_login_response Let_def split: sum.splits prod.splits)

lemma serving_run_append:
  "serving_run (as @ bs) p = (case serving_run as p of None \<Rightarrow> None | Some q \<Rightarrow> serving_run bs q)"
  by (induction as arbitrary: p) (auto split: option.splits)

lemma serving_run_snoc:
  "serving_run (evs @ [ev]) p = Some q \<longleftrightarrow> (\<exists>p'. serving_run evs p = Some p' \<and> serving_step ev p' = Some q)"
  by (auto simp: serving_run_append split: option.splits)

text \<open>What has happened to a serving process, in terms of the flags it shows.\<close>

definition listen_failed :: "serving_event list \<Rightarrow> bool" where
  "listen_failed evs \<longleftrightarrow> (\<exists>e. e \<noteq> ErrServerClosed \<and> ListenReturns e \<in> set evs)"

lemma listen_failed_simps [simp]:
  "\<not> listen_failed []"
  "listen_failed (evs @ [ev]) \<longleftrightarrow>
     listen_failed evs \<or> (case ev of ListenReturns e \<Rightarrow> e \<noteq> ErrServerClosed | _ \<Rightarrow> False)"
  by (auto simp: listen_failed_def split: serving_event.splits)

lemma serving_flags:
  "serving_run evs start_serving = Some p \<Longrightarrow>
     (sp_cancelled p = (OsSignal \<in> set evs \<or> listen_failed evs)) \<and> (sp_draining p \<longrightarrow> sp_cancelled p)"
proof (induction evs arbitrary: p rule: rev_induct)
  case Nil
  then show ?case by (auto simp: start_serving_def)
next
  case (snoc ev evs)
  then obtain p' where run: "serving_run evs start_serving = Some p'" and step: "serving_step ev p' = Some p"
    by (auto simp: serving_run_snoc)
  show ?case using snoc.IH[OF run] step by (cases ev) (simp_all split: if_splits, auto)
qed

lemma serving_ends:
  "serving_run evs start_serving = Some p \<Longrightarrow>
     (sp_exit p = None \<or> sp_exit p = Some 0 \<and> sp_draining p) \<and> (listen_failed evs \<longrightarrow> ''listen'' \<in> set (sp_log p))"
proof (induction evs arbitrary: p rule: rev_induct)
  case Nil
  then show ?case by (auto simp: start_serving_def)
next
  case (snoc ev evs)
  then obtain p' where run: "serving_run evs start_serving = Some p'" and step: "serving_step ev p' = Some p"
    by (auto simp: serving_run_snoc)
  show ?case using snoc.IH[OF run] step by (cases ev) (simp_all split: if_splits, auto)
qed

lemma serving_count:
  "serving_run evs start_serving = Some p \<Longrightarrow>
     length (filter (\<lambda>ev. ev \<noteq> OsSignal) evs)
       = of_bool (\<not> sp_listening p) + of_bool (sp_draining p) + of_bool (sp_exit p \<noteq> None)"
proof (induction evs arbitrary: p rule: rev_induct)
  case Nil
  then show ?case by (auto simp: start_serving_def)
next
  case (snoc ev evs)
  then obtain p' where run: "serving_run evs start_serving = Some p'" and step: "serving_step ev p' = Some p"
    by (auto simp: serving_run_snoc)
  show ?case using snoc.IH[OF run] step by (cases ev) (simp_all split: if_splits, auto)
qed

section \<open>Properties\<close>



end
