(* ===== verification/Testpeer.thy ===== *)
theory Testpeer
  imports Mavframe Backoff
begin

text \<open>
  \<open>cmd/testpeer/main.go\<close>: the stub client, as the answering drone or the offering pilot.  As in
  the relay, the message loop and the callbacks of the WebRTC library are events, and the outcomes
  of library calls come with them.
\<close>

section \<open>Configuration\<close>

datatype peerRole = roleDrone | rolePilot

definition parse_role :: "string \<Rightarrow> peerRole option" where
  "parse_role s = (if s = ''drone'' then Some roleDrone else if s = ''pilot'' then Some rolePilot else None)"

definition default_user :: "peerRole \<Rightarrow> string \<Rightarrow> string" where
  "default_user role user =
     (if user = '''' then (if role = rolePilot then ''pilot1'' else ''drone-42'') else user)"

definition default_pass :: "peerRole \<Rightarrow> string \<Rightarrow> string" where
  "default_pass role pass =
     (if pass = '''' then (if role = rolePilot then ''pilot1-dev'' else ''drone-42-dev'') else pass)"

text \<open>The flags and their defaults.\<close>

record tp_config =
  tc_auth_url :: string
  tc_signal_url :: string
  tc_role :: string
  tc_user :: string
  tc_pass :: string
  tc_target :: string

definition default_tp_config :: tp_config where
  "default_tp_config =
     \<lparr>tc_auth_url = ''http://localhost:8081'', tc_signal_url = ''ws://localhost:8080/v1/signal'',
      tc_role = ''drone'', tc_user = '''', tc_pass = '''', tc_target = ''drone-42''\<rparr>"

text \<open>The stub's own copy of \<open>login\<close>.\<close>

definition t_login :: "http_client \<Rightarrow> string \<Rightarrow> string \<Rightarrow> string \<Rightarrow> go_error + string" where
  "t_login hc baseURL user pass =
     (case hc_new_request hc (baseURL @ ''/v1/auth/login'') of
        Some e \<Rightarrow> Inl e
      | None \<Rightarrow>
          (case hc_do hc (baseURL @ ''/v1/auth/login'') (JObj [(''password'', JStr pass), (''username'', JStr user)]) of
             Inl e \<Rightarrow> Inl e
           | Inr resp \<Rightarrow>
               if rp_status resp \<noteq> 200
               then Inl (NewError (''login '' @ dec_nat (rp_status resp) @ '': '' @ rp_text resp))
               else (case rp_json resp of
                       Inl e \<Rightarrow> Inl e
                     | Inr v \<Rightarrow>
                         (case decode_access_token v of
                            (Some e, _) \<Rightarrow> Inl e
                          | (None, tok) \<Rightarrow>
                              if tok = '''' then Inl (NewError ''login: empty access_token'') else Inr tok))))"

lemma t_login_eq: "t_login = login"
  by (auto simp: fun_eq_iff t_login_def login_def checked_def Let_def split: option.splits sum.splits prod.splits)

text \<open>
  \<open>main\<close> up to the loop: an exit code, or the role to run in, the peer to call and the hello
  with the token, which is on the wire.
\<close>

datatype main_outcome =
    ExitCode nat
  | EnterLoop peerRole string json

definition testpeer_main ::
    "http_client \<Rightarrow> (string \<Rightarrow> go_error option) \<Rightarrow> (json \<Rightarrow> go_error option) \<Rightarrow> tp_config \<Rightarrow> main_outcome" where
  "testpeer_main hc dial hello cfg =
     (case parse_role (tc_role cfg) of
        None \<Rightarrow> ExitCode 2
      | Some role \<Rightarrow>
          (case t_login hc (tc_auth_url cfg) (default_user role (tc_user cfg)) (default_pass role (tc_pass cfg)) of
             Inl e \<Rightarrow> ExitCode 1
           | Inr tok \<Rightarrow>
               (case dial (tc_signal_url cfg) of
                  Some e \<Rightarrow> ExitCode 1
                | None \<Rightarrow>
                    let msg = encode_hello \<lparr>hello_kind = KindHello, hello_token = tok\<rparr>
                    in (case hello msg of
                          Some e \<Rightarrow> ExitCode 1
                        | None \<Rightarrow> EnterLoop role (tc_target cfg) msg))))"

section \<open>State\<close>

record tp_conn =
  tp_session :: string
  tp_ice :: "ice_server list"
  tp_open :: bool
  tp_labels :: "string list"
  tp_remote :: "(string \<times> string) list"
  tp_cands :: "json list"

record testpeer =
  t_pc :: "nat option"
  t_session :: string
  t_next :: nat
  t_pcs :: "nat \<rightharpoonup> tp_conn"
  t_sent :: "json list"
  t_ended :: "go_error option"

definition new_testpeer :: testpeer where
  "new_testpeer =
     \<lparr>t_pc = None, t_session = '''', t_next = 0, t_pcs = Map.empty, t_sent = [], t_ended = None\<rparr>"

text \<open>What the libraries answer in one round.\<close>

record tp_env =
  te_new :: "go_error option"
  te_channel :: "string \<Rightarrow> go_error option"
  te_describe :: "go_error + string"
  te_set_local :: "go_error option"
  te_set_remote :: "go_error option"
  te_candidate :: "json \<Rightarrow> go_error option"
  te_add_ice :: "go_error option"
  te_write :: "go_error option"

definition t_write :: "json \<Rightarrow> testpeer \<Rightarrow> testpeer" where
  "t_write j t = t\<lparr>t_sent := t_sent t @ [j]\<rparr>"

definition on_pc :: "nat \<Rightarrow> (tp_conn \<Rightarrow> tp_conn) \<Rightarrow> testpeer \<Rightarrow> testpeer" where
  "on_pc i f t = (case t_pcs t i of None \<Rightarrow> t | Some p \<Rightarrow> t\<lparr>t_pcs := (t_pcs t)(i \<mapsto> f p)\<rparr>)"

section \<open>Sessions\<close>

text \<open>
  The configuration handed to the WebRTC library: its server type has the same three fields, and
  it does not tell a nil list from an empty one.
\<close>

definition t_webrtc_ice_servers :: "ice_server list option \<Rightarrow> ice_server list" where
  "t_webrtc_ice_servers servers =
     map (\<lambda>s. \<lparr>ice_urls = ice_urls s, ice_username = ice_username s, ice_credential = ice_credential s\<rparr>)
       (case servers of None \<Rightarrow> [] | Some ss \<Rightarrow> ss)"

lemma t_webrtc_ice_servers_Some [simp]: "t_webrtc_ice_servers (Some xs) = xs"
  by (simp add: t_webrtc_ice_servers_def map_idI)

definition t_newPeerConn ::
    "tp_env \<Rightarrow> string \<Rightarrow> ice_server list option \<Rightarrow> testpeer \<Rightarrow> (go_error + nat) \<times> testpeer" where
  "t_newPeerConn env session ice t =
     (case te_new env of
        Some e \<Rightarrow> (Inl e, t)
      | None \<Rightarrow>
          (Inr (t_next t),
           t\<lparr>t_pcs := (t_pcs t)(t_next t \<mapsto>
               \<lparr>tp_session = session, tp_ice = t_webrtc_ice_servers ice, tp_open = True, tp_labels = [], tp_remote = [], tp_cands = []\<rparr>),
             t_next := Suc (t_next t)\<rparr>))"

text \<open>Creating the channels stops at the first that fails.\<close>

fun create_channels :: "tp_env \<Rightarrow> nat \<Rightarrow> string list \<Rightarrow> testpeer \<Rightarrow> go_error option \<times> testpeer" where
  "create_channels env i [] t = (None, t)"
| "create_channels env i (l # ls) t =
     (case te_channel env l of
        Some e \<Rightarrow> (Some (WrapError l e), t)
      | None \<Rightarrow> create_channels env i ls (on_pc i (\<lambda>p. p\<lparr>tp_labels := tp_labels p @ [l]\<rparr>) t))"

definition setupPilotChannelsAndOffer :: "tp_env \<Rightarrow> nat \<Rightarrow> string \<Rightarrow> testpeer \<Rightarrow> go_error option \<times> testpeer" where
  "setupPilotChannelsAndOffer env i session t =
     (case create_channels env i [''tlm'', ''cmd'', ''evt''] t of
        (Some e, t1) \<Rightarrow> (Some e, t1)
      | (None, t1) \<Rightarrow>
          (case te_describe env of
             Inl e \<Rightarrow> (Some (WrapError ''create offer'' e), t1)
           | Inr offer \<Rightarrow>
               (case te_set_local env of
                  Some e \<Rightarrow> (Some (WrapError ''set local'' e), t1)
                | None \<Rightarrow>
                    (case te_write env of
                       Some e \<Rightarrow> (Some (WrapError ''send offer'' e), t1)
                     | None \<Rightarrow>
                         (None, t_write (encode_sdp \<lparr>sdp_kind = KindSDP, sdp_session = session,
                                                     sdp_role = ''offer'', sdp_sdp = offer\<rparr>) t1)))))"

section \<open>The loop\<close>

definition t_hello_ok :: "tp_env \<Rightarrow> peerRole \<Rightarrow> string \<Rightarrow> testpeer \<Rightarrow> testpeer" where
  "t_hello_ok env role target t =
     (if role = rolePilot
      then (case te_write env of
              Some e \<Rightarrow> t\<lparr>t_ended := Some (WrapError ''session.req'' e)\<rparr>
            | None \<Rightarrow> t_write (encode_session_req \<lparr>sreq_kind = KindSessionReq, sreq_peer = target\<rparr>) t)
      else t)"

definition t_session_ack :: "tp_env \<Rightarrow> peerRole \<Rightarrow> session_ack_msg \<Rightarrow> testpeer \<Rightarrow> testpeer" where
  "t_session_ack env role m t =
     (if (role = rolePilot) \<noteq> ack_initiator m then t
      else
        (let t1 = t\<lparr>t_session := ack_session m\<rparr>
         in case t_newPeerConn env (t_session t1) (ack_ice_servers m) t1 of
              (Inl e, t2) \<Rightarrow> t2
            | (Inr i, t2) \<Rightarrow>
                let t3 = t2\<lparr>t_pc := Some i\<rparr>
                in if role = rolePilot then snd (setupPilotChannelsAndOffer env i (t_session t3) t3) else t3))"

definition t_peer_sdp :: "tp_env \<Rightarrow> peerRole \<Rightarrow> sdp_msg \<Rightarrow> testpeer \<Rightarrow> testpeer" where
  "t_peer_sdp env role m t =
     (case t_pc t of
        None \<Rightarrow> t
      | Some i \<Rightarrow>
          let remote = (\<lambda>kind. on_pc i (\<lambda>p. p\<lparr>tp_remote := tp_remote p @ [(kind, sdp_sdp m)]\<rparr>) t)
          in (case role of
                roleDrone \<Rightarrow>
                  if sdp_role m \<noteq> ''offer'' then t
                  else (case te_set_remote env of
                          Some e \<Rightarrow> t
                        | None \<Rightarrow>
                            (case te_describe env of
                               Inl e \<Rightarrow> remote ''offer''
                             | Inr answer \<Rightarrow>
                                 (case te_set_local env of
                                    Some e \<Rightarrow> remote ''offer''
                                  | None \<Rightarrow>
                                      (case te_write env of
                                         Some e \<Rightarrow> remote ''offer''
                                       | None \<Rightarrow>
                                           t_write (encode_sdp \<lparr>sdp_kind = KindSDP, sdp_session = t_session t,
                                               sdp_role = ''answer'', sdp_sdp = answer\<rparr>) (remote ''offer'')))))
              | rolePilot \<Rightarrow>
                  if sdp_role m \<noteq> ''answer'' then t
                  else (case te_set_remote env of
                          Some e \<Rightarrow> t
                        | None \<Rightarrow> remote ''answer'')))"

definition t_peer_ice :: "tp_env \<Rightarrow> ice_msg \<Rightarrow> testpeer \<Rightarrow> testpeer" where
  "t_peer_ice env m t =
     (case t_pc t of
        None \<Rightarrow> t
      | Some i \<Rightarrow>
          (case te_candidate env (icem_cand m) of
             Some e \<Rightarrow> t
           | None \<Rightarrow>
               (case te_add_ice env of
                  Some e \<Rightarrow> t
                | None \<Rightarrow> on_pc i (\<lambda>p. p\<lparr>tp_cands := tp_cands p @ [icem_cand m]\<rparr>) t)))"

definition t_close_pc :: "testpeer \<Rightarrow> testpeer" where
  "t_close_pc t = (case t_pc t of None \<Rightarrow> t | Some i \<Rightarrow> on_pc i (\<lambda>p. p\<lparr>tp_open := False\<rparr>) t)"

definition t_peer_gone :: "testpeer \<Rightarrow> testpeer" where
  "t_peer_gone t = (t_close_pc t)\<lparr>t_pc := None\<rparr>"

definition t_round :: "peerRole \<Rightarrow> string \<Rightarrow> tp_env \<Rightarrow> json \<Rightarrow> testpeer \<Rightarrow> testpeer" where
  "t_round role target env raw t =
     (case unmarshal_envelope raw of
        Inl e \<Rightarrow> t
      | Inr env' \<Rightarrow>
          if env_kind env' = KindHelloOK then t_hello_ok env role target t
          else if env_kind env' = KindSessionAck then t_session_ack env role (snd (decode_session_ack raw)) t
          else if env_kind env' = KindPeerSDP then t_peer_sdp env role (snd (decode_peer_sdp raw)) t
          else if env_kind env' = KindPeerICE then t_peer_ice env (snd (decode_peer_ice raw)) t
          else if env_kind env' = KindPeerGone then t_peer_gone t
          else t)"

text \<open>The deferred clean-up runs however the loop ends.\<close>

definition t_cleanup :: "testpeer \<Rightarrow> testpeer" where
  "t_cleanup t = t_close_pc t"

datatype tp_event =
    TpMessage tp_env json
  | TpReadError go_error
  | TpCandidate nat "json option" "go_error option"

definition t_candidate :: "nat \<Rightarrow> json option \<Rightarrow> go_error option \<Rightarrow> testpeer \<Rightarrow> testpeer" where
  "t_candidate i c write_err t =
     (case (c, t_pcs t i, write_err) of
        (Some b, Some p, None) \<Rightarrow>
          t_write (encode_ice \<lparr>icem_kind = KindICE, icem_session = tp_session p, icem_cand = b\<rparr>) t
      | _ \<Rightarrow> t)"

fun t_step :: "peerRole \<Rightarrow> string \<Rightarrow> tp_event \<Rightarrow> testpeer \<Rightarrow> testpeer option" where
  "t_step role target (TpMessage env raw) t =
     (if t_ended t \<noteq> None then None
      else let t' = t_round role target env raw t
           in Some (if t_ended t' = None then t' else t_cleanup t'))"
| "t_step role target (TpReadError e) t =
     (if t_ended t \<noteq> None then None else Some ((t_cleanup t)\<lparr>t_ended := Some e\<rparr>))"
| "t_step role target (TpCandidate i c err) t =
     (if t_pcs t i = None then None else Some (t_candidate i c err t))"

fun runLoop :: "peerRole \<Rightarrow> string \<Rightarrow> tp_event list \<Rightarrow> testpeer \<Rightarrow> testpeer option" where
  "runLoop role target [] t = Some t"
| "runLoop role target (ev # evs) t =
     (case t_step role target ev t of None \<Rightarrow> None | Some t' \<Rightarrow> runLoop role target evs t')"

section \<open>Data channels\<close>

text \<open>The drone's echo: what is sent back, and the pilot's sink for telemetry.\<close>

definition echo :: "bool \<Rightarrow> packet \<Rightarrow> packet" where
  "echo is_string data = data"

definition pilot_tlm :: "64 word \<Rightarrow> bool \<Rightarrow> packet \<Rightarrow> 64 word \<times> log_line" where
  "pilot_tlm count is_string data = (if is_string then (count, Quiet) else debug_logger ''dc'' count data)"

section \<open>What the peer may say\<close>

definition tp_says :: "peerRole \<Rightarrow> string \<Rightarrow> json \<Rightarrow> bool" where
  "tp_says role target j \<longleftrightarrow>
     (\<exists>s c. j = encode_ice \<lparr>icem_kind = KindICE, icem_session = s, icem_cand = c\<rparr>) \<or>
     (case role of
        rolePilot \<Rightarrow> j = encode_session_req \<lparr>sreq_kind = KindSessionReq, sreq_peer = target\<rparr> \<or>
          (\<exists>s d. j = encode_sdp \<lparr>sdp_kind = KindSDP, sdp_session = s, sdp_role = ''offer'', sdp_sdp = d\<rparr>)
      | roleDrone \<Rightarrow> (\<exists>s d. j = encode_sdp \<lparr>sdp_kind = KindSDP, sdp_session = s, sdp_role = ''answer'', sdp_sdp = d\<rparr>))"

definition tp_ok :: "peerRole \<Rightarrow> string \<Rightarrow> testpeer \<Rightarrow> bool" where
  "tp_ok role target t \<longleftrightarrow> (\<forall>j \<in> set (t_sent t). tp_says role target j)"

lemma tp_says_simps:
  "tp_says role target (encode_ice \<lparr>icem_kind = KindICE, icem_session = s, icem_cand = c\<rparr>)"
  "tp_says rolePilot target (encode_session_req \<lparr>sreq_kind = KindSessionReq, sreq_peer = target\<rparr>)"
  "tp_says rolePilot target (encode_sdp \<lparr>sdp_kind = KindSDP, sdp_session = s, sdp_role = ''offer'', sdp_sdp = d\<rparr>)"
  "tp_says roleDrone target (encode_sdp \<lparr>sdp_kind = KindSDP, sdp_session = s, sdp_role = ''answer'', sdp_sdp = d\<rparr>)"
  unfolding tp_says_def by auto

lemma tp_ok_ops [simp]:
  "tp_ok role target (on_pc i f t) = tp_ok role target t" "tp_ok role target (t\<lparr>t_pc := x\<rparr>) = tp_ok role target t"
  "tp_ok role target (t\<lparr>t_session := s\<rparr>) = tp_ok role target t" "tp_ok role target (t\<lparr>t_ended := e\<rparr>) = tp_ok role target t"
  "tp_ok role target (t\<lparr>t_next := n\<rparr>) = tp_ok role target t" "tp_ok role target (t\<lparr>t_pcs := ps\<rparr>) = tp_ok role target t"
  "tp_ok role target (t_close_pc t) = tp_ok role target t"
  "tp_ok role target (t_write j t) \<longleftrightarrow> tp_ok role target t \<and> tp_says role target j"
  by (auto simp: tp_ok_def on_pc_def t_close_pc_def t_write_def split: option.splits)

lemma tp_ok_channels: "tp_ok role target (snd (create_channels env i ls t)) = tp_ok role target t"
  by (induction env i ls t rule: create_channels.induct) (simp_all split: option.splits)

lemma tp_ok_setup: "tp_ok rolePilot target t \<Longrightarrow> tp_ok rolePilot target (snd (setupPilotChannelsAndOffer env i s t))"
  using tp_ok_channels[of rolePilot target env i "[''tlm'', ''cmd'', ''evt'']" t]
  unfolding setupPilotChannelsAndOffer_def
  by (cases "create_channels env i [''tlm'', ''cmd'', ''evt''] t")
    (auto simp: tp_says_simps simp del: create_channels.simps split: option.splits sum.splits)

lemma tp_ok_session_ack: "tp_ok role target t \<Longrightarrow> tp_ok role target (t_session_ack env role m t)"
  unfolding t_session_ack_def t_newPeerConn_def
  by (auto simp: Let_def tp_ok_setup split: option.splits)

lemma tp_ok_hello_ok: "tp_ok role target t \<Longrightarrow> tp_ok role target (t_hello_ok env role target t)"
  by (cases role) (auto simp: t_hello_ok_def tp_says_simps split: option.splits)

lemma tp_ok_peer_sdp: "tp_ok role target t \<Longrightarrow> tp_ok role target (t_peer_sdp env role m t)"
  by (cases role) (auto simp: t_peer_sdp_def tp_says_simps Let_def split: option.splits sum.splits)

lemma tp_ok_peer_ice: "tp_ok role target t \<Longrightarrow> tp_ok role target (t_peer_ice env m t)"
  by (simp add: t_peer_ice_def split: option.splits)

lemma tp_ok_round: "tp_ok role target t \<Longrightarrow> tp_ok role target (t_round role target env raw t)"
  by (simp add: t_round_def t_peer_gone_def tp_ok_session_ack tp_ok_hello_ok tp_ok_peer_sdp tp_ok_peer_ice
      split: sum.splits)

lemma tp_ok_step: "tp_ok role target t \<Longrightarrow> t_step role target ev t = Some t' \<Longrightarrow> tp_ok role target t'"
  by (cases ev)
    (auto simp: tp_ok_round t_cleanup_def t_candidate_def tp_says_simps Let_def split: if_splits option.splits)

lemma tp_ok_run: "runLoop role target evs t = Some t' \<Longrightarrow> tp_ok role target t \<Longrightarrow> tp_ok role target t'"
  by (induction evs arbitrary: t) (auto split: option.splits intro: tp_ok_step)

section \<open>Properties\<close>

definition fine_env :: "string \<Rightarrow> tp_env" where
  "fine_env d =
     \<lparr>te_new = None, te_channel = (\<lambda>l. None), te_describe = Inr d, te_set_local = None, te_set_remote = None,
      te_candidate = (\<lambda>c. None), te_add_ice = None, te_write = None\<rparr>"

text \<open>
  C34: the stub client keeps to its role: in any run, the pilot writes only its session request
  for the configured peer, offers and candidates, and the drone only answers and candidates.
\<close>

theorem testpeer_keeps_to_its_role:
  assumes "runLoop role target evs new_testpeer = Some t" and "j \<in> set (t_sent t)"
  shows "tp_says role target j"
proof -
  have "tp_ok role target new_testpeer" by (simp add: tp_ok_def new_testpeer_def)
  from tp_ok_run[OF assms(1) this] assms(2) show ?thesis by (simp add: tp_ok_def)
qed

definition hello_ok_json :: "string \<Rightarrow> json" where
  "hello_ok_json n = encode_hello_ok \<lparr>hok_kind = KindHelloOK, hok_self = n\<rparr>"

definition ack_json :: "string \<Rightarrow> ice_server list option \<Rightarrow> bool \<Rightarrow> json" where
  "ack_json s ice i = encode_session_ack
     \<lparr>ack_kind = KindSessionAck, ack_session = s, ack_peer = ''peer'', ack_ice_servers = ice, ack_initiator = i\<rparr>"

definition peer_sdp_json :: "string \<Rightarrow> string \<Rightarrow> string \<Rightarrow> json" where
  "peer_sdp_json s role d = encode_sdp \<lparr>sdp_kind = KindPeerSDP, sdp_session = s, sdp_role = role, sdp_sdp = d\<rparr>"

lemma round_hello_ok: "t_round role target env (hello_ok_json n) t = t_hello_ok env role target t"
  by (simp add: t_round_def hello_ok_json_def envelope_of_server)

lemma round_ack: "t_round role target env (ack_json s ice i) t = t_session_ack env role
    \<lparr>ack_kind = KindSessionAck, ack_session = s, ack_peer = ''peer'', ack_ice_servers = ice, ack_initiator = i\<rparr> t"
  by (simp add: t_round_def ack_json_def envelope_of_server server_roundtrips kind_defs)

lemma round_sdp: "t_round role target env (peer_sdp_json s r d) t = t_peer_sdp env role
    \<lparr>sdp_kind = KindPeerSDP, sdp_session = s, sdp_role = r, sdp_sdp = d\<rparr> t"
  by (simp add: t_round_def peer_sdp_json_def envelope_of_client server_roundtrips kind_defs)

text \<open>
  The pilot walks through the protocol: greeted, it asks for its peer; acknowledged as
  initiator, it creates the three data channels in order and sends its offer in that session; the
  answer is applied to that connection, which keeps the ICE servers it was given.
\<close>

theorem pilot_follows_the_protocol:
  "runLoop rolePilot target
     [TpMessage (fine_env offer) (hello_ok_json ''pilot1''), TpMessage (fine_env offer) (ack_json s ice True),
      TpMessage (fine_env offer) (peer_sdp_json s' ''answer'' answer)] new_testpeer
   = Some \<lparr>t_pc = Some 0, t_session = s, t_next = 1,
       t_pcs = [0 \<mapsto> \<lparr>tp_session = s, tp_ice = t_webrtc_ice_servers ice, tp_open = True, tp_labels = [''tlm'', ''cmd'', ''evt''],
                        tp_remote = [(''answer'', answer)], tp_cands = []\<rparr>],
       t_sent = [encode_session_req \<lparr>sreq_kind = KindSessionReq, sreq_peer = target\<rparr>,
                 encode_sdp \<lparr>sdp_kind = KindSDP, sdp_session = s, sdp_role = ''offer'', sdp_sdp = offer\<rparr>],
       t_ended = None\<rparr>"
  by (simp add: round_hello_ok round_ack round_sdp t_hello_ok_def t_session_ack_def t_newPeerConn_def
      setupPilotChannelsAndOffer_def t_peer_sdp_def fine_env_def new_testpeer_def t_write_def on_pc_def Let_def)


theorem testpeer_keeps_to_its_role_witness:
  "tp_says rolePilot ''drone-42'' (encode_sdp \<lparr>sdp_kind = KindSDP, sdp_session = ''s_1'', sdp_role = ''offer'', sdp_sdp = ''o''\<rparr>)"
proof -
  have "\<exists>t. runLoop rolePilot ''drone-42'' [TpMessage (fine_env ''o'') (ack_json ''s_1'' None True)] new_testpeer = Some t \<and>
      t_sent t = [encode_sdp \<lparr>sdp_kind = KindSDP, sdp_session = ''s_1'', sdp_role = ''offer'', sdp_sdp = ''o''\<rparr>]"
    by (simp add: round_ack t_session_ack_def t_newPeerConn_def setupPilotChannelsAndOffer_def fine_env_def
        new_testpeer_def t_write_def on_pc_def Let_def)
  then show ?thesis using testpeer_keeps_to_its_role by fastforce
qed

end
