(* ===== verification/Mail.thy ===== *)
theory Mail
  imports Server
begin

text \<open>
  What the signaling server puts on its connections.  A discipline is a predicate on outgoing
  messages that everything a goroutine sends satisfies; it then holds of every message that is
  owed, queued or written anywhere, in every reachable state.  The discipline the code keeps:
  each message has the kind of its struct, every name it tells is the subject of a verified token,
  and every \<open>session.ack\<close> carries the ICE servers the hub was configured with.
\<close>

section \<open>Mail\<close>

text \<open>
  A predicate on receivers and messages, of the messages a connection still has to send, has
  queued, and has written.
\<close>

definition mail_conn :: "(nat \<Rightarrow> out_msg \<Rightarrow> bool) \<Rightarrow> nat \<Rightarrow> conn \<Rightarrow> bool" where
  "mail_conn P c k \<longleftrightarrow>
     (\<forall>m \<in> set (p_send (c_peer k)). P c m) \<and> (\<forall>(q, m) \<in> set (c_todo k). P q m) \<and>
     (\<forall>j \<in> set (concat (map frame_data (c_wire k))). \<exists>m. j = encode_out m \<and> P c m)"

definition all_mail :: "(nat \<Rightarrow> out_msg \<Rightarrow> bool) \<Rightarrow> server \<Rightarrow> bool" where
  "all_mail P s \<longleftrightarrow> (\<forall>c k. srv_conns s c = Some k \<longrightarrow> mail_conn P c k)"

lemma mail_conn_send: "mail_conn P c k \<Longrightarrow> P c m \<Longrightarrow> mail_conn P c (k\<lparr>c_peer := send_msg m (c_peer k)\<rparr>)"
  by (auto simp: mail_conn_def send_msg_def close_peer_def)

lemma mail_conn_write:
  "mail_conn P c k \<Longrightarrow> write_round ev (c_peer k) = Some (p', fs, go) \<Longrightarrow>
     mail_conn P c (k\<lparr>c_peer := p', c_wire := c_wire k @ fs, c_writing := go\<rparr>)"
  by (cases ev) (auto simp: mail_conn_def recv_msg_def close_peer_def split: list.splits if_splits)

lemma mail_conn_todo: "mail_conn P c k \<Longrightarrow> \<forall>(q, m) \<in> set td. P q m \<Longrightarrow> mail_conn P c (k\<lparr>c_todo := td\<rparr>)"
  by (simp add: mail_conn_def)

lemma mail_conn_flags [simp]:
  "mail_conn P c (k\<lparr>c_phase := ph\<rparr>) = mail_conn P c k" "mail_conn P c (k\<lparr>c_reading := r\<rparr>) = mail_conn P c k"
  "mail_conn P c (k\<lparr>c_writing := r\<rparr>) = mail_conn P c k" "mail_conn P c (k\<lparr>c_cancelled := r\<rparr>) = mail_conn P c k"
  "mail_conn P c (k\<lparr>c_phase := ph, c_todo := td\<rparr>) = mail_conn P c (k\<lparr>c_todo := td\<rparr>)"
  by (simp_all add: mail_conn_def)

lemma mail_conn_mono: "mail_conn P c k \<Longrightarrow> (\<And>q m. P q m \<Longrightarrow> Q q m) \<Longrightarrow> mail_conn Q c k"
  unfolding mail_conn_def by blast

lemma mail_connD:
  assumes "mail_conn P c k"
  shows "DataFrame j \<in> set (c_wire k) \<Longrightarrow> \<exists>m. j = encode_out m \<and> P c m"
    and "m \<in> set (p_send (c_peer k)) \<Longrightarrow> P c m" and "(q, m) \<in> set (c_todo k) \<Longrightarrow> P q m"
proof -
  from assms show "m \<in> set (p_send (c_peer k)) \<Longrightarrow> P c m" and "(q, m) \<in> set (c_todo k) \<Longrightarrow> P q m"
    by (auto simp: mail_conn_def)
  assume "DataFrame j \<in> set (c_wire k)"
  then have "j \<in> set (concat (map frame_data (c_wire k)))" by force
  with assms show "\<exists>m. j = encode_out m \<and> P c m" unfolding mail_conn_def by blast
qed

lemma all_mail_conn: "all_mail P s \<Longrightarrow> srv_conns s c = Some k \<Longrightarrow> mail_conn P c k"
  by (simp add: all_mail_def)

lemma all_mail_put: "all_mail P s \<Longrightarrow> mail_conn P c k \<Longrightarrow> all_mail P (put_conn c k s)"
  by (simp add: all_mail_def)

lemma all_mail_put_hub [simp]: "all_mail P (put_hub h s) = all_mail P s"
  by (simp add: all_mail_def)

lemma all_mail_init [simp]: "all_mail P (init_server ice)" "all_mail P \<lparr>srv_hub = h, srv_conns = Map.empty\<rparr>"
  by (simp_all add: all_mail_def init_server_def)

lemma all_mail_send_to: "all_mail P s \<Longrightarrow> P q m \<Longrightarrow> all_mail P (send_to q m s)"
  by (auto simp: all_mail_def send_to_conns mail_conn_send split: if_splits)

lemma all_mail_send_one:
  assumes "all_mail P s" and "srv_conns s c = Some k" and "c_todo k = (q, m) # rest"
  shows "all_mail P (send_to q m (put_conn c (k\<lparr>c_todo := rest\<rparr>) s))"
proof -
  have "mail_conn P c k" by (rule all_mail_conn[OF assms(1,2)])
  then have "mail_conn P c (k\<lparr>c_todo := rest\<rparr>)" and "P q m" using assms(3) by (simp_all add: mail_conn_def)
  with assms(1) show ?thesis by (intro all_mail_send_to all_mail_put)
qed

lemma all_mail_mono: "all_mail P s \<Longrightarrow> (\<And>q m. P q m \<Longrightarrow> Q q m) \<Longrightarrow> all_mail Q s"
  unfolding all_mail_def using mail_conn_mono by blast

lemma mail_greeting [simp]: "mail_conn P c (greeting_conn c p ok) \<longleftrightarrow> (\<forall>m \<in> set (p_send p). P c m) \<and> P c ok"
  by (auto simp: mail_conn_def greeting_conn_def)

lemma mail_refused: "p_send p = [] \<Longrightarrow> P c err \<Longrightarrow> mail_conn P c (refused_conn p err)"
  by (auto simp: mail_conn_def refused_conn_def)

section \<open>Reading back what was written\<close>

text \<open>
  The member names of an encoded message tell its type, when the only map it may be is that of a
  \<open>pong\<close>, and the message can be read back.
\<close>

definition plain_out :: "out_msg \<Rightarrow> bool" where
  "plain_out m \<longleftrightarrow> (\<forall>kvs. m = StringMap kvs \<longrightarrow> length kvs = 1)"

fun member_names :: "json \<Rightarrow> string list" where
  "member_names (JObj ms) = map fst ms"
| "member_names _ = []"

lemma member_names_encoded:
  "member_names (encode_hello_ok m1) = [''kind'', ''self'']"
  "member_names (encode_session_ack a) = [''kind'', ''session'', ''peer'', ''ice_servers'', ''initiator'']"
  "member_names (encode_sdp d) = [''kind'', ''session'', ''role'', ''sdp'']"
  "member_names (encode_ice i) = [''kind'', ''session'', ''cand'']"
  "member_names (encode_err e) = [''kind'', ''code'', ''message'']"
  by (simp_all add: encode_hello_ok_def encode_session_ack_def encode_sdp_def encode_ice_def encode_err_def)

lemma member_names_gone: "member_names (encode_peer_gone g) \<in> {[''kind'', ''session''], [''kind'', ''session'', ''reason'']}"
  by (simp add: encode_peer_gone_def omitempty_def)

lemma encoders_inject:
  "encode_session_ack a = encode_session_ack a' \<longleftrightarrow> a = a'" "encode_sdp d = encode_sdp d' \<longleftrightarrow> d = d'"
  "encode_ice i = encode_ice i' \<longleftrightarrow> i = i'"
  using server_roundtrips by (metis snd_conv)+

lemma names_of_others:
  assumes "plain_out m" and "\<nexists>a. m = SessionAck a" and "\<nexists>d. m = PeerSDP d" and "\<nexists>i. m = PeerICE i"
  shows "member_names (encode_out m) \<notin>
    {[''kind'', ''session'', ''peer'', ''ice_servers'', ''initiator''], [''kind'', ''session'', ''role'', ''sdp''],
     [''kind'', ''session'', ''cand'']}"
proof (cases m)
  case (PeerGone g)
  then show ?thesis using member_names_gone[of g] by auto
next
  case (StringMap kvs)
  then have "length (member_names (encode_out m)) = 1" using assms(1) by (simp add: plain_out_def)
  then show ?thesis by auto
qed (use assms in \<open>simp_all add: member_names_encoded\<close>)

lemma names_tell:
  assumes "plain_out m"
  shows "member_names (encode_out m) = [''kind'', ''session'', ''peer'', ''ice_servers'', ''initiator''] \<Longrightarrow> \<exists>a. m = SessionAck a"
    and "member_names (encode_out m) = [''kind'', ''session'', ''role'', ''sdp''] \<Longrightarrow> \<exists>d. m = PeerSDP d"
    and "member_names (encode_out m) = [''kind'', ''session'', ''cand''] \<Longrightarrow> \<exists>i. m = PeerICE i"
  using names_of_others[OF assms] by (cases m; simp add: member_names_encoded)+

lemma encoded_inject:
  assumes "plain_out m"
  shows "encode_out (SessionAck a) = encode_out m \<Longrightarrow> m = SessionAck a"
    and "encode_out (PeerSDP d) = encode_out m \<Longrightarrow> m = PeerSDP d"
    and "encode_out (PeerICE i) = encode_out m \<Longrightarrow> m = PeerICE i"
proof -
  show "encode_out (SessionAck a) = encode_out m \<Longrightarrow> m = SessionAck a"
  proof -
    assume e: "encode_out (SessionAck a) = encode_out m"
    then have "member_names (encode_out m) = member_names (encode_session_ack a)" by simp
    then obtain x where "m = SessionAck x" using names_tell(1)[OF assms] by (auto simp: member_names_encoded)
    with e show ?thesis by (simp add: encoders_inject)
  qed
  show "encode_out (PeerSDP d) = encode_out m \<Longrightarrow> m = PeerSDP d"
  proof -
    assume e: "encode_out (PeerSDP d) = encode_out m"
    then have "member_names (encode_out m) = member_names (encode_sdp d)" by simp
    then obtain x where "m = PeerSDP x" using names_tell(2)[OF assms] by (auto simp: member_names_encoded)
    with e show ?thesis by (simp add: encoders_inject)
  qed
  show "encode_out (PeerICE i) = encode_out m \<Longrightarrow> m = PeerICE i"
  proof -
    assume e: "encode_out (PeerICE i) = encode_out m"
    then have "member_names (encode_out m) = member_names (encode_ice i)" by simp
    then obtain x where "m = PeerICE x" using names_tell(3)[OF assms] by (auto simp: member_names_encoded)
    with e show ?thesis by (simp add: encoders_inject)
  qed
qed

section \<open>Disciplines\<close>

text \<open>A name is vouched for when the verifier has accepted a token for it.\<close>

definition vouched :: "jwt_lib \<Rightarrow> string \<Rightarrow> string \<Rightarrow> bool" where
  "vouched lib secret n \<longleftrightarrow> (\<exists>now raw cl. verify lib secret now raw = Inr cl \<and> cl_subject cl = n)"

text \<open>
  The contract: what the accept path, a round of the read loop and unregistering send, given a
  predicate on the hub that they keep.
\<close>

locale mail_discipline =
  fixes lib :: jwt_lib and secret :: string and P :: "out_msg \<Rightarrow> bool" and I :: "nat hub \<Rightarrow> bool"
  assumes on_hello: "vouched lib secret n \<Longrightarrow> P (HelloOK \<lparr>hok_kind = KindHelloOK, hok_self = n\<rparr>)"
    and on_duplicate: "P (err_reply ''duplicate_peer'' ErrPeerAlreadyConnected)"
    and on_register: "I hub \<Longrightarrow> vouched lib secret n \<Longrightarrow> register n c hub = Inr hub' \<Longrightarrow> I hub'"
    and on_read: "I hub \<Longrightarrow> hub_peers hub pid = Some self \<Longrightarrow>
          read_round uuid self pid hub msg = Some (hub', sends) \<Longrightarrow>
          I hub' \<and> (\<forall>m \<in> snd ` set sends. P m)"
    and on_unregister: "I hub \<Longrightarrow> unregister order pid hub = (hub', sends) \<Longrightarrow>
          I hub' \<and> (\<forall>m \<in> snd ` set sends. P m)"
begin

definition disciplined :: "server \<Rightarrow> bool" where
  "disciplined s \<longleftrightarrow> I (srv_hub s) \<and> all_mail (\<lambda>_. P) s"

lemma disciplined_put: "disciplined s \<Longrightarrow> mail_conn (\<lambda>_. P) c k \<Longrightarrow> disciplined (put_conn c k s)"
  by (simp add: disciplined_def all_mail_put)

lemma disciplined_put_hub: "disciplined s \<Longrightarrow> I h \<Longrightarrow> disciplined (put_hub h s)"
  by (simp add: disciplined_def)

lemma disciplined_conn: "disciplined s \<Longrightarrow> srv_conns s c = Some k \<Longrightarrow> mail_conn (\<lambda>_. P) c k"
  unfolding disciplined_def using all_mail_conn by blast

lemma disciplined_step:
  assumes "srv_step lib secret s t" and "disciplined s" and "srv_inv lib secret s"
  shows "disciplined t"
  using assms
proof (induction rule: srv_step.induct)
  case (Connect s c now msg p h ok)
  note r = serve_hello_Registered[OF Connect.hyps(2)]
  have n: "vouched lib secret (p_id p)" using acceptHello_Inr[OF r(1)] unfolding vouched_def by metis
  have "I h" using on_register[OF _ n r(2)] Connect.prems by (simp add: disciplined_def)
  moreover have "mail_conn (\<lambda>_. P) c (greeting_conn c p ok)"
    using acceptHello_Inr[OF r(1)] on_hello[OF n] by (simp add: r(3))
  ultimately show ?case using Connect.prems by (intro disciplined_put disciplined_put_hub)
next
  case (Refuse s c now msg p err)
  note r = serve_hello_Duplicate[OF Refuse.hyps(2)]
  have "mail_conn (\<lambda>_. P) c (refused_conn p err)"
    using acceptHello_Inr[OF r(1)] on_duplicate unfolding r(3) by (intro mail_refused) simp_all
  then show ?case using Refuse.prems(1) by (intro disciplined_put)
next
  case (SendOne s c k q m rest)
  then show ?case by (simp add: disciplined_def all_mail_send_one)
next
  case (Read s c k uuid msg h sends)
  have "I h \<and> (\<forall>m \<in> snd ` set sends. P m)"
    using on_read[OF _ srv_inv_registered[OF Read.prems(2) Read.hyps(1)] Read.hyps(5)] Read.prems(1) Read.hyps(2)
    by (simp add: disciplined_def live_def)
  then show ?case
    using Read.prems(1) disciplined_conn[OF Read.prems(1) Read.hyps(1)]
    by (intro disciplined_put disciplined_put_hub mail_conn_todo) auto
next
  case (Write s c k ev p' fs go)
  then show ?case by (intro disciplined_put mail_conn_write) (auto simp: disciplined_conn)
next
  case (Unregister s c k order h sends)
  have "I h \<and> (\<forall>m \<in> snd ` set sends. P m)"
    using on_unregister[OF _ Unregister.hyps(8)] Unregister.prems(1) by (simp add: disciplined_def)
  then have "I h" "\<forall>(q, m) \<in> set sends. P m" by auto
  then show ?case
    using Unregister.prems(1) disciplined_conn[OF Unregister.prems(1) Unregister.hyps(1)]
    by (intro disciplined_put disciplined_put_hub) (simp_all add: mail_conn_todo)
qed (auto intro!: disciplined_put simp: disciplined_conn)

lemma disciplined_reach: "srv_reach lib secret ice s \<Longrightarrow> I (new_hub ice) \<Longrightarrow> disciplined s"
proof (induction rule: srv_reach.induct)
  case reach_init
  then show ?case by (simp add: disciplined_def init_server_def)
next
  case (reach_step s t)
  then show ?case by (blast intro: disciplined_step srv_reach_inv)
qed

text \<open>What a connection holds, in the words of a client of this contract.\<close>

lemma wire_disciplined:
  assumes "srv_reach lib secret ice s" and "I (new_hub ice)" and "srv_conns s c = Some k"
  shows "DataFrame j \<in> set (c_wire k) \<Longrightarrow> \<exists>m. j = encode_out m \<and> P m"
    and "m \<in> set (p_send (c_peer k)) \<Longrightarrow> P m" and "(q, m) \<in> set (c_todo k) \<Longrightarrow> P m"
  using mail_connD[OF disciplined_conn[OF disciplined_reach[OF assms(1,2)] assms(3)]] by blast+

end

section \<open>The discipline of the code\<close>

definition ice_list :: "ice_server list option \<Rightarrow> ice_server list" where
  "ice_list ice = (case ice of None \<Rightarrow> [] | Some xs \<Rightarrow> xs)"

lemma new_hub_ice: "hub_ice (new_hub ice) = Some (ice_list ice)"
  by (simp add: new_hub_def ice_list_def Let_def split: option.splits)

text \<open>Kinds as the structs demand them, names that are vouched for, and the configured ICE servers.\<close>

fun good_out :: "(string \<Rightarrow> bool) \<Rightarrow> ice_server list \<Rightarrow> out_msg \<Rightarrow> bool" where
  "good_out ok xs (HelloOK h) \<longleftrightarrow> hok_kind h = KindHelloOK \<and> ok (hok_self h)"
| "good_out ok xs (SessionAck a) \<longleftrightarrow> ack_kind a = KindSessionAck \<and> ok (ack_peer a) \<and> ack_ice_servers a = Some xs"
| "good_out ok xs (PeerSDP d) \<longleftrightarrow> sdp_kind d = KindPeerSDP"
| "good_out ok xs (PeerICE i) \<longleftrightarrow> icem_kind i = KindPeerICE"
| "good_out ok xs (PeerGone g) \<longleftrightarrow> gone_kind g = KindPeerGone"
| "good_out ok xs (StringMap kvs) \<longleftrightarrow> kvs = [(''kind'', KindPong)]"
| "good_out ok xs (ErrReply e) \<longleftrightarrow> err_kind e = KindErr"

lemma good_out_simps [simp]:
  "good_out ok xs (session_ack sid other ice i) \<longleftrightarrow> ok other \<and> ice = Some xs"
  "good_out ok xs (gone_msg sid r)" "good_out ok xs pong_msg" "good_out ok xs (err_reply code e)"
  by (simp_all add: session_ack_def gone_msg_def pong_msg_def err_reply_def)

definition good_hub :: "(string \<Rightarrow> bool) \<Rightarrow> ice_server list \<Rightarrow> 'p hub \<Rightarrow> bool" where
  "good_hub ok xs h \<longleftrightarrow> hub_ice h = Some xs \<and> (\<forall>n. hub_peers h n \<noteq> None \<longrightarrow> ok n)"

lemma good_close_session:
  "good_hub ok xs (fst (close_session sid pid r hub)) = good_hub ok xs hub"
  "(q, m) \<in> set (snd (close_session sid pid r hub)) \<Longrightarrow> good_out ok xs m"
  using close_session_sends by (fastforce simp: good_hub_def close_session_hub)+

lemma good_open_session:
  assumes "open_session uuid pid t hub = Inr (sid, p, hub')" and "good_hub ok xs hub"
  shows "good_hub ok xs hub' \<and> ok t \<and> hub_ice hub' = Some xs"
  using assms by (auto simp: good_hub_def open_session_def Let_def split: option.splits)

lemma good_dispatch:
  assumes "dispatch uuid self pid hub kind raw = (hub', sends, e)" and "good_hub ok xs hub" and "ok pid"
  shows "good_hub ok xs hub' \<and> (\<forall>m \<in> snd ` set sends. good_out ok xs m)"
proof -
  consider "kind = KindSessionReq" | "kind = KindBye" | "kind \<noteq> KindSessionReq" "kind \<noteq> KindBye"
    by blast
  then show ?thesis
  proof cases
    case 1
    then show ?thesis
      using assms by (auto simp: dispatch_session_req_def IceServers_def split: sum.splits dest!: good_open_session)
  next
    case 2
    then show ?thesis
      using assms good_close_session[where ok = ok and xs = xs]
      by (auto simp: dispatch_bye_def split_beta split: sum.splits)
  next
    case 3
    then show ?thesis
      using assms by (auto simp: dispatch_def dispatch_sdp_def dispatch_ice_def split: sum.splits if_splits)
  qed
qed

lemma good_read_round:
  assumes "read_round uuid self pid hub msg = Some (hub', sends)" and "good_hub ok xs hub" and "ok pid"
  shows "good_hub ok xs hub' \<and> (\<forall>m \<in> snd ` set sends. good_out ok xs m)"
proof (cases msg)
  case (Inr raw)
  show ?thesis
  proof (cases "unmarshal_envelope raw")
    case (Inr env)
    obtain hub1 sends1 e where d: "dispatch uuid self pid hub (env_kind env) raw = (hub1, sends1, e)"
      by (metis prod_cases3)
    show ?thesis
      using assms(1) good_dispatch[OF d assms(2,3)] d Inr \<open>msg = Inr raw\<close> by (cases e) (auto simp: read_round_def)
  qed (use assms Inr in \<open>auto simp: read_round_def\<close>)
qed (use assms in \<open>simp add: read_round_def\<close>)

lemma good_unregister:
  assumes "unregister order pid hub = (hub', sends)" and "good_hub ok xs hub"
  shows "good_hub ok xs hub' \<and> (\<forall>m \<in> snd ` set sends. good_out ok xs m)"
  using assms by (auto simp: good_hub_def unregister_def unregister_locked_def Let_def split: prod.splits if_splits)

interpretation honest: mail_discipline lib secret "good_out (vouched lib secret) xs" "good_hub (vouched lib secret) xs"
  for lib secret xs
proof
  fix hub hub' :: "nat hub" and n c
  assume "good_hub (vouched lib secret) xs hub" and "vouched lib secret n" and "register n c hub = Inr hub'"
  then show "good_hub (vouched lib secret) xs hub'"
    by (auto simp: good_hub_def register_def split: option.splits if_splits)
next
  fix hub hub' :: "nat hub" and uuid self pid msg sends
  assume "good_hub (vouched lib secret) xs hub" and "hub_peers hub pid = Some self"
    and "read_round uuid self pid hub msg = Some (hub', sends)"
  then show "good_hub (vouched lib secret) xs hub' \<and> (\<forall>m \<in> snd ` set sends. good_out (vouched lib secret) xs m)"
    by (intro good_read_round) (auto simp: good_hub_def)
next
  fix hub hub' :: "nat hub" and order pid sends
  assume "good_hub (vouched lib secret) xs hub" and "unregister order pid hub = (hub', sends)"
  then show "good_hub (vouched lib secret) xs hub' \<and> (\<forall>m \<in> snd ` set sends. good_out (vouched lib secret) xs m)"
    by (intro good_unregister)
qed simp_all

lemma good_new_hub: "good_hub ok (ice_list ice) (new_hub ice)"
  by (auto simp: good_hub_def new_hub_ice) (simp add: new_hub_def Let_def)

lemmas honest_wire = honest.wire_disciplined[OF _ good_new_hub]

section \<open>Properties\<close>

text \<open>
  C5: what the server tells is true: in every reachable state, each message that a goroutine
  owes, that is queued or that is on the wire has the kind of its struct, every name it tells (in
  a \<open>hello.ok\<close> or a \<open>session.ack\<close>) is the subject of a token the verifier accepted, and every
  \<open>session.ack\<close> carries exactly the list of ICE servers the hub was created with, as a list
  and never as \<open>null\<close> (a hub made from no list acknowledges with the empty one).
\<close>

theorem messages_tell_the_truth:
  assumes "srv_reach lib secret ice s" and "srv_conns s c = Some k"
  shows "(\<forall>j. DataFrame j \<in> set (c_wire k) \<longrightarrow> (\<exists>m. j = encode_out m \<and> good_out (vouched lib secret) (ice_list ice) m)) \<and>
    (\<forall>m. m \<in> set (p_send (c_peer k)) \<or> m \<in> snd ` set (c_todo k) \<longrightarrow> good_out (vouched lib secret) (ice_list ice) m) \<and>
    (\<forall>a. SessionAck a \<in> set (p_send (c_peer k)) \<longrightarrow>
        encode_slice encode_ice_server (ack_ice_servers a)
          = JArr (map encode_ice_server (case ice of None \<Rightarrow> [] | Some xs \<Rightarrow> xs)))"
proof -
  note D = honest_wire[OF assms]
  have "encode_slice encode_ice_server (ack_ice_servers a)
          = JArr (map encode_ice_server (case ice of None \<Rightarrow> [] | Some xs \<Rightarrow> xs))"
    if "SessionAck a \<in> set (p_send (c_peer k))" for a
    using D(2)[OF that] by (simp add: encode_slice_def ice_list_def)
  then show ?thesis using D by auto
qed

theorem messages_tell_the_truth_witness:
  "vouched run_jwt ''key'' ''b'' \<and> encode_slice encode_ice_server (Some []) = JArr []"
  using messages_tell_the_truth[OF run_reaches_final run_final_conns(1)]
  by (simp add: run_conn_simps run_ack_def session_ack_def)

end
