(* ===== verification/Typing.thy ===== *)
theory Typing
  imports Mail
begin

text \<open>
  A type system for the signaling protocol.  A schema per message kind is read off the structs
  of \<open>internal/signal/messages.go\<close>; a value conforms to it when it has the members in the
  order the encoder writes them, each of its type, with members tagged \<open>omitempty\<close> optional.
  Preservation: everything the server writes conforms to the schema of its kind.  Progress: a
  conforming message is never refused as malformed by the decoders of the other side.
\<close>

section \<open>Types of JSON values\<close>

datatype jty =
    TTag string
  | TString
  | TBool
  | TAny
  | TList jty
  | TNullable jty
  | TObject "(string \<times> bool \<times> jty) list"

text \<open>The flag of a member says that it must be there.\<close>

inductive has_type :: "json \<Rightarrow> jty \<Rightarrow> bool"
  and members_typed :: "(string \<times> json) list \<Rightarrow> (string \<times> bool \<times> jty) list \<Rightarrow> bool"
where
  ty_tag: "has_type (JStr s) (TTag s)"
| ty_string: "has_type (JStr s) TString"
| ty_bool: "has_type (JBool b) TBool"
| ty_any: "has_type v TAny"
| ty_list: "\<forall>v \<in> set vs. has_type v t \<Longrightarrow> has_type (JArr vs) (TList t)"
| ty_null: "has_type JNull (TNullable t)"
| ty_nullable: "has_type v t \<Longrightarrow> has_type v (TNullable t)"
| ty_object: "members_typed ms fs \<Longrightarrow> has_type (JObj ms) (TObject fs)"
| mem_nil: "members_typed [] []"
| mem_cons: "has_type v t \<Longrightarrow> members_typed ms fs \<Longrightarrow> members_typed ((k, v) # ms) ((k, req, t) # fs)"
| mem_omit: "members_typed ms fs \<Longrightarrow> members_typed ms ((k, False, t) # fs)"

declare has_type_members_typed.intros [intro]

inductive_cases has_tagE [elim!]: "has_type v (TTag s)"
inductive_cases has_stringE [elim!]: "has_type v TString"
inductive_cases has_boolE [elim!]: "has_type v TBool"
inductive_cases has_listE [elim!]: "has_type v (TList t)"
inductive_cases has_nullableE [elim!]: "has_type v (TNullable t)"
inductive_cases has_objectE [elim!]: "has_type v (TObject fs)"
inductive_cases members_nilE [elim!]: "members_typed ms []"
inductive_cases members_requiredE [elim!]: "members_typed ms ((k, True, t) # fs)"
inductive_cases members_optionalE: "members_typed ms ((k, False, t) # fs)"

inductive_simps has_type_simps [simp]:
  "has_type v (TTag s)" "has_type v TString" "has_type v TBool" "has_type v TAny"
  "has_type v (TList t)" "has_type v (TNullable t)" "has_type v (TObject fs)"

inductive_simps members_typed_simps [simp]:
  "members_typed ms []" "members_typed ms ((k, True, t) # fs)" "members_typed [] ((k, req, t) # fs)"

section \<open>The schemas\<close>

definition message_ty :: "string \<Rightarrow> (string \<times> bool \<times> jty) list \<Rightarrow> jty" where
  "message_ty kind fs = TObject ((''kind'', True, TTag kind) # fs)"

definition ice_server_ty :: jty where
  "ice_server_ty =
     TObject [(''urls'', True, TNullable (TList TString)), (''username'', False, TString), (''credential'', False, TString)]"

definition client_schemas :: "(string \<times> (string \<times> bool \<times> jty) list) list" where
  "client_schemas =
     [(KindHello, [(''token'', True, TString)]),
      (KindSessionReq, [(''peer'', True, TString)]),
      (KindSDP, [(''session'', True, TString), (''role'', True, TString), (''sdp'', True, TString)]),
      (KindICE, [(''session'', True, TString), (''cand'', True, TAny)]),
      (KindBye, [(''session'', True, TString), (''reason'', False, TString)]),
      (KindPing, [])]"

definition server_schemas :: "(string \<times> (string \<times> bool \<times> jty) list) list" where
  "server_schemas =
     [(KindHelloOK, [(''self'', True, TString)]),
      (KindSessionAck, [(''session'', True, TString), (''peer'', True, TString),
                        (''ice_servers'', True, TNullable (TList ice_server_ty)), (''initiator'', True, TBool)]),
      (KindPeerSDP, [(''session'', True, TString), (''role'', True, TString), (''sdp'', True, TString)]),
      (KindPeerICE, [(''session'', True, TString), (''cand'', True, TAny)]),
      (KindPeerGone, [(''session'', True, TString), (''reason'', True, TString)]),
      (KindPong, []),
      (KindErr, [(''code'', True, TString), (''message'', True, TString)])]"

definition conforms :: "(string \<times> (string \<times> bool \<times> jty) list) list \<Rightarrow> json \<Rightarrow> bool" where
  "conforms schemas j \<longleftrightarrow> (\<exists>(kind, fs) \<in> set schemas. has_type j (message_ty kind fs))"

section \<open>Progress: decoders accept what conforms\<close>

text \<open>A setter accepts a type when it takes every value of it without an error.\<close>

definition accepts :: "'r setter \<Rightarrow> jty \<Rightarrow> bool" where
  "accepts put t \<longleftrightarrow> (\<forall>v st p r. has_type v t \<longrightarrow> fst (put st p v r) = None)"

definition table_accepts :: "(string \<times> 'r setter) list \<Rightarrow> (string \<times> bool \<times> jty) list \<Rightarrow> bool" where
  "table_accepts tab fs \<longleftrightarrow>
     distinct (map fst tab) \<and> list_all2 (\<lambda>(k, put) (k', req, t). k' = k \<and> accepts put t) tab fs"

lemma accepts_simps [simp]:
  "accepts (set_string u) TString" "accepts (set_string u) (TTag s)" "accepts (set_bool b) TBool"
  "accepts (set_raw w) t"
  by (auto simp: accepts_def set_string_def set_bool_def)

lemma accepts_slice:
  assumes "\<And>v st p. has_type v t \<Longrightarrow> fst (dec st p v z) = None"
  shows "accepts (set_slice ty dec z u) (TNullable (TList t))"
proof -
  have elems: "fst (decode_elems (dec st p) z vs) = None" if "\<forall>v \<in> set vs. has_type v t" for st p vs
    using that
  proof (induction vs)
    case (Cons v vs)
    then have "fst (dec st p v z) = None" "fst (decode_elems (dec st p) z vs) = None" using assms by auto
    then show ?case by (simp add: split_beta)
  qed simp
  then show ?thesis
    by (auto simp: accepts_def set_slice_def split_beta)
qed

lemma find_field_in:
  assumes "(k, put) \<in> set tab" and "distinct (map fst tab)"
  shows "find_field k tab = Some (k, put)"
proof -
  have "List.find (\<lambda>f. fst f = k) tab = Some (k, put)"
    using assms by (induction tab) (auto simp: image_iff)
  then show ?thesis by (simp add: find_field_def)
qed

lemma table_lookup:
  assumes "table_accepts tab fs" and "(k, req, t) \<in> set fs"
  shows "\<exists>put. find_field k tab = Some (k, put) \<and> accepts put t"
proof -
  obtain n where n: "n < length fs" "fs ! n = (k, req, t)" using assms(2) by (auto simp: in_set_conv_nth)
  with assms(1) have l: "n < length tab" by (auto simp: table_accepts_def dest: list_all2_lengthD)
  obtain k' put where put: "tab ! n = (k', put)" by fastforce
  have "k' = k" and "accepts put t"
    using assms(1) n l put list_all2_nthD[of _ tab fs n] by (fastforce simp: table_accepts_def)+
  moreover have "(k', put) \<in> set tab" using put l by (metis nth_mem)
  ultimately show ?thesis using find_field_in[of k put tab] assms(1) by (auto simp: table_accepts_def)
qed

lemma members_typed_mem: "members_typed ms fs \<Longrightarrow> (k, v) \<in> set ms \<Longrightarrow> \<exists>req t. (k, req, t) \<in> set fs \<and> has_type v t"
  by (induction rule: has_type_members_typed.inducts(2)[where ?P1.0 = "\<lambda>_ _. True"]) auto

lemma decode_members_accepts:
  assumes "table_accepts tab fs" and "\<forall>(k, v) \<in> set ms. \<exists>req t. (k, req, t) \<in> set fs \<and> has_type v t"
  shows "fst (decode_members st path tab ms None r) = None"
  using assms(2)
proof (induction ms arbitrary: r)
  case (Cons m ms)
  obtain k v where m: "m = (k, v)" by fastforce
  with Cons.prems obtain req t where t: "(k, req, t) \<in> set fs" "has_type v t" by auto
  obtain put where put: "find_field k tab = Some (k, put)" "accepts put t"
    using table_lookup[OF assms(1) t(1)] by blast
  obtain r' where "put st (join_path path k) v r = (None, r')"
    using put(2) t(2) by (metis accepts_def prod.collapse)
  with Cons put(1) m show ?case by simp
qed simp

lemma decode_typed:
  assumes "table_accepts tab fs" and "has_type j (TObject fs)"
  shows "fst (decode_nested pkg st tab ostr path j r) = None"
proof -
  from assms(2) obtain ms where ms: "j = JObj ms" "members_typed ms fs" by auto
  then show ?thesis
    using decode_members_accepts[OF assms(1), of ms] members_typed_mem[OF ms(2)]
    by (simp add: decode_nested_def split_beta)
qed

lemma conformsE:
  assumes "conforms schemas j"
  obtains kind fs ms where "(kind, fs) \<in> set schemas" and "j = JObj ((''kind'', JStr kind) # ms)" and "members_typed ms fs"
  using assms by (auto simp: conforms_def message_ty_def)

lemma conformsI: "(kind, fs) \<in> set schemas \<Longrightarrow> members_typed ms fs \<Longrightarrow> conforms schemas (JObj ((''kind'', JStr kind) # ms))"
  by (force simp: conforms_def message_ty_def)

text \<open>The envelope of a conforming message is its tag, whatever else it carries.\<close>

definition plain_names :: "(string \<times> bool \<times> jty) list \<Rightarrow> bool" where
  "plain_names fs \<longleftrightarrow> list_all (\<lambda>f. fold_name (fst f) \<noteq> ''KIND'') fs"

lemma schemas_plain:
  "(kind, fs) \<in> set client_schemas \<Longrightarrow> plain_names fs" "(kind, fs) \<in> set server_schemas \<Longrightarrow> plain_names fs"
  by (auto simp: client_schemas_def server_schemas_def plain_names_def fold_member_names)

lemma typed_envelope:
  assumes "plain_names fs" and "members_typed ms fs"
  shows "unmarshal_envelope (JObj ((''kind'', JStr kind) # ms)) = Inr \<lparr>env_kind = kind\<rparr>"
proof (rule unmarshal_envelope_kind)
  have "fold_name k \<noteq> ''KIND''" if "(k, v) \<in> set ms" for k v
    using members_typed_mem[OF assms(2) that] assms(1) by (force simp: plain_names_def list_all_iff)
  then show "list_all (\<lambda>(k, v). fold_name k \<noteq> ''KIND'') ms" by (auto simp: list_all_iff)
qed

lemma ice_server_table:
  "table_accepts ice_server_fields
     [(''urls'', True, TNullable (TList TString)), (''username'', False, TString), (''credential'', False, TString)]"
proof -
  have "accepts (set_slice ''[]string'' (set_string (\<lambda>s _. s)) '''' u) (TNullable (TList TString))"
    for u :: "string list option \<Rightarrow> ice_server \<Rightarrow> ice_server"
    by (rule accepts_slice) auto
  then show ?thesis by (simp add: table_accepts_def ice_server_fields_def)
qed

lemma accepts_ice_server:
  "has_type v ice_server_ty \<Longrightarrow>
     fst (decode_nested ''signal'' ''IceServer'' ice_server_fields st p v zero_ice_server) = None"
  unfolding ice_server_ty_def by (rule decode_typed[OF ice_server_table])

text \<open>The field tables of the structs accept the schemas of their kinds.\<close>

lemmas table_defs =
  hello_fields_def session_req_fields_def sdp_fields_def ice_fields_def bye_fields_def hello_ok_fields_def
  session_ack_fields_def peer_gone_fields_def err_fields_def

lemma tables_accept:
  "table_accepts hello_fields ((''kind'', True, TTag k) # [(''token'', True, TString)])"
  "table_accepts session_req_fields ((''kind'', True, TTag k) # [(''peer'', True, TString)])"
  "table_accepts sdp_fields ((''kind'', True, TTag k) # [(''session'', True, TString), (''role'', True, TString), (''sdp'', True, TString)])"
  "table_accepts ice_fields ((''kind'', True, TTag k) # [(''session'', True, TString), (''cand'', True, TAny)])"
  "table_accepts bye_fields ((''kind'', True, TTag k) # [(''session'', True, TString), (''reason'', False, TString)])"
  "table_accepts hello_ok_fields ((''kind'', True, TTag k) # [(''self'', True, TString)])"
  "table_accepts session_ack_fields ((''kind'', True, TTag k) #
     [(''session'', True, TString), (''peer'', True, TString),
      (''ice_servers'', True, TNullable (TList ice_server_ty)), (''initiator'', True, TBool)])"
  "table_accepts peer_gone_fields ((''kind'', True, TTag k) # [(''session'', True, TString), (''reason'', True, TString)])"
  "table_accepts err_fields ((''kind'', True, TTag k) # [(''code'', True, TString), (''message'', True, TString)])"
  by (simp_all add: table_accepts_def table_defs accepts_slice accepts_ice_server)

lemma decode_conforming:
  assumes "table_accepts tab ((''kind'', True, TTag k) # fs)" and "members_typed ms fs"
  shows "\<exists>m. decode_struct pkg st tab (JObj ((''kind'', JStr k) # ms)) z = (None, m)"
proof -
  have "fst (decode_nested pkg st tab '''' '''' (JObj ((''kind'', JStr k) # ms)) z) = None"
    using assms(2) by (intro decode_typed[OF assms(1)]) auto
  then show ?thesis unfolding decode_struct_def by (metis prod.collapse)
qed

lemma kinds_distinct [simp]: "distinct (client_kinds @ server_kinds)"
  by (simp add: client_kinds_def server_kinds_def kind_defs)

lemma map_of_schemas:
  "map_of client_schemas KindHello = Some [(''token'', True, TString)]"
  "map_of client_schemas KindSessionReq = Some [(''peer'', True, TString)]"
  "map_of client_schemas KindSDP = Some [(''session'', True, TString), (''role'', True, TString), (''sdp'', True, TString)]"
  "map_of client_schemas KindICE = Some [(''session'', True, TString), (''cand'', True, TAny)]"
  "map_of client_schemas KindBye = Some [(''session'', True, TString), (''reason'', False, TString)]"
  "map_of client_schemas KindPing = Some []"
  by (simp_all add: client_schemas_def kind_defs)

text \<open>
  A conforming client message, read: the errors the server can then answer with are about the
  state of the hub, or that a second hello was sent; never about the message itself.
\<close>

definition state_errors :: "go_error set" where
  "state_errors = {ErrTargetUnknown, ErrSessionUnknown, ErrNotMember, NewError ''hello already processed''}"

lemma open_session_error: "open_session uuid i t hub = Inl e \<Longrightarrow> e \<in> state_errors"
  by (auto simp: open_session_def state_errors_def Let_def split: option.splits)

lemma other_peer_error: "other_peer sid pid hub = Inl e \<Longrightarrow> e \<in> state_errors"
  by (auto simp: other_peer_def state_errors_def Let_def split: option.splits if_splits)

lemma typed_dispatch:
  assumes "(kind, fs) \<in> set client_schemas" and "members_typed ms fs"
    and "dispatch uuid self pid hub kind (JObj ((''kind'', JStr kind) # ms)) = (hub', sends, Some e)"
  shows "e \<in> state_errors"
proof -
  let ?j = "JObj ((''kind'', JStr kind) # ms)"
  have dec: "\<exists>m. decode_session_req ?j = (None, m)" if "kind = KindSessionReq"
    using decode_conforming[OF tables_accept(2)] assms(1,2) that
    by (auto simp: client_schemas_def decode_session_req_def kind_defs)
  have dec2: "\<exists>m. decode_sdp ?j = (None, m)" if "kind = KindSDP"
    using decode_conforming[OF tables_accept(3)] assms(1,2) that
    by (auto simp: client_schemas_def decode_sdp_def kind_defs)
  have dec3: "\<exists>m. decode_ice ?j = (None, m)" if "kind = KindICE"
    using decode_conforming[OF tables_accept(4)] assms(1,2) that
    by (auto simp: client_schemas_def decode_ice_def kind_defs)
  have dec4: "\<exists>m. decode_bye ?j = (None, m)" if "kind = KindBye"
    using decode_conforming[OF tables_accept(5)] assms(1,2) that
    by (auto simp: client_schemas_def decode_bye_def kind_defs)
  have "kind \<in> set client_kinds" using assms(1) by (auto simp: client_schemas_def client_kinds_def)
  then consider "kind = KindPing" | "kind = KindSessionReq" | "kind = KindSDP" | "kind = KindICE" | "kind = KindBye"
    | "kind = KindHello" by (auto simp: client_kinds_def)
  then show ?thesis
  proof cases
    case 2
    with dec assms(3) show ?thesis
      by (auto simp: dispatch_session_req_def open_session_error split: sum.splits prod.splits)
  next
    case 3
    with dec2 assms(3) show ?thesis by (auto simp: dispatch_sdp_def other_peer_error split: sum.splits)
  next
    case 4
    with dec3 assms(3) show ?thesis by (auto simp: dispatch_ice_def other_peer_error split: sum.splits)
  next
    case 5
    with dec4 assms(3) show ?thesis by (auto simp: dispatch_bye_def split: sum.splits prod.splits)
  next
    case 6
    with assms(3) show ?thesis by (simp add: dispatch_def kind_defs state_errors_def)
  qed (use assms(3) in simp)
qed

section \<open>Preservation: what the server sends conforms\<close>

definition typed_out :: "out_msg \<Rightarrow> bool" where
  "typed_out m \<longleftrightarrow> conforms server_schemas (encode_out m)"

lemma encode_ice_servers_typed: "has_type (encode_slice encode_ice_server xs) (TNullable (TList ice_server_ty))"
proof -
  have "has_type (encode_ice_server s) ice_server_ty" for s
    by (auto simp: encode_ice_server_def ice_server_ty_def encode_slice_def omitempty_def split: option.splits)
  then show ?thesis by (auto simp: encode_slice_def split: option.splits)
qed

text \<open>The discipline of theory Mail is enough.\<close>

lemma good_out_typed: "good_out ok xs m \<Longrightarrow> typed_out m"
proof (cases m)
  case (SessionAck a)
  assume "good_out ok xs m"
  then show ?thesis
    using SessionAck encode_ice_servers_typed[of "Some xs"]
    by (auto simp: typed_out_def encode_session_ack_def server_schemas_def intro!: conformsI)
qed (auto simp: typed_out_def encode_hello_ok_def encode_sdp_def encode_ice_def encode_peer_gone_def encode_err_def
      server_schemas_def intro!: conformsI)

section \<open>Progress on the client side\<close>

lemma decode_conforming_fst:
  assumes "table_accepts tab ((''kind'', True, TTag k) # fs)" and "members_typed ms fs"
  shows "fst (decode_struct pkg st tab (JObj ((''kind'', JStr k) # ms)) z) = None"
  using decode_conforming[OF assms, of pkg st z] by auto

text \<open>What the clients do with a conforming message: the envelope and the struct decode in full.\<close>

definition decodes :: "json \<Rightarrow> bool" where
  "decodes j \<longleftrightarrow>
     (\<exists>kind \<in> set server_kinds. unmarshal_envelope j = Inr \<lparr>env_kind = kind\<rparr> \<and>
        (kind = KindHelloOK \<longrightarrow> fst (decode_hello_ok j) = None) \<and>
        (kind = KindSessionAck \<longrightarrow> fst (decode_session_ack j) = None) \<and>
        (kind = KindPeerSDP \<longrightarrow> fst (decode_peer_sdp j) = None) \<and>
        (kind = KindPeerICE \<longrightarrow> fst (decode_peer_ice j) = None) \<and>
        (kind = KindPeerGone \<longrightarrow> fst (decode_peer_gone j) = None) \<and>
        (kind = KindErr \<longrightarrow> fst (decode_err j) = None))"

lemma conforming_decodes:
  assumes "conforms server_schemas j"
  shows "decodes j"
proof -
  obtain kind fs ms where j: "(kind, fs) \<in> set server_schemas" "j = JObj ((''kind'', JStr kind) # ms)" "members_typed ms fs"
    using conformsE[OF assms] .
  have env: "unmarshal_envelope j = Inr \<lparr>env_kind = kind\<rparr>"
    unfolding j(2) by (rule typed_envelope[OF schemas_plain(2)[OF j(1)] j(3)])
  have k: "kind \<in> set server_kinds" using j(1) by (auto simp: server_schemas_def server_kinds_def)
  show ?thesis
    unfolding decodes_def
  proof (intro bexI[of _ kind] conjI impI env k)
    assume "kind = KindHelloOK"
    then show "fst (decode_hello_ok j) = None"
      using j decode_conforming_fst[OF tables_accept(6)[of kind]] by (auto simp: decode_hello_ok_def server_schemas_def kind_defs)
  next
    assume "kind = KindSessionAck"
    then show "fst (decode_session_ack j) = None"
      using j decode_conforming_fst[OF tables_accept(7)[of kind]] by (auto simp: decode_session_ack_def server_schemas_def kind_defs)
  next
    assume "kind = KindPeerSDP"
    then show "fst (decode_peer_sdp j) = None"
      using j decode_conforming_fst[OF tables_accept(3)[of kind]] by (auto simp: decode_peer_sdp_def server_schemas_def kind_defs)
  next
    assume "kind = KindPeerICE"
    then show "fst (decode_peer_ice j) = None"
      using j decode_conforming_fst[OF tables_accept(4)[of kind]] by (auto simp: decode_peer_ice_def server_schemas_def kind_defs)
  next
    assume "kind = KindPeerGone"
    then show "fst (decode_peer_gone j) = None"
      using j decode_conforming_fst[OF tables_accept(8)[of kind]] by (auto simp: decode_peer_gone_def server_schemas_def kind_defs)
  next
    assume "kind = KindErr"
    then show "fst (decode_err j) = None"
      using j decode_conforming_fst[OF tables_accept(9)[of kind]] by (auto simp: decode_err_def server_schemas_def kind_defs)
  qed
qed

section \<open>Properties\<close>

lemma encode_client_conforms:
  "conforms client_schemas (encode_hello \<lparr>hello_kind = KindHello, hello_token = a\<rparr>)"
  "conforms client_schemas (encode_session_req \<lparr>sreq_kind = KindSessionReq, sreq_peer = a\<rparr>)"
  "conforms client_schemas (encode_sdp \<lparr>sdp_kind = KindSDP, sdp_session = a, sdp_role = b, sdp_sdp = c\<rparr>)"
  "conforms client_schemas (encode_ice \<lparr>icem_kind = KindICE, icem_session = a, icem_cand = x\<rparr>)"
  "conforms client_schemas (encode_bye \<lparr>bye_kind = KindBye, bye_session = a, bye_reason = b\<rparr>)"
  by (auto simp: encode_hello_def encode_session_req_def encode_sdp_def encode_ice_def encode_bye_def omitempty_def
      client_schemas_def intro!: conformsI)

text \<open>
  C15: the server speaks its protocol: in every state it can reach, every data frame it has
  written, every message in a queue and every message a goroutine still owes conforms to the
  schema of one of the seven server kinds, so the envelope and the struct of that kind decode
  without an error on the other side.
\<close>

theorem server_output_is_well_typed:
  assumes "srv_reach lib secret ice s" and "srv_conns s c = Some k"
    and "DataFrame j \<in> set (c_wire k) \<or> (\<exists>m. j = encode_out m \<and> (m \<in> set (p_send (c_peer k)) \<or> m \<in> snd ` set (c_todo k)))"
  shows "conforms server_schemas j \<and> decodes j"
proof -
  note D = honest_wire[OF assms(1,2)]
  have "\<exists>m. j = encode_out m \<and> typed_out m" using assms(3) D good_out_typed by fastforce
  then show ?thesis using conforming_decodes by (auto simp: typed_out_def)
qed

theorem server_output_is_well_typed_witness:
  "conforms server_schemas (encode_out (run_ack ''b'' True)) \<and> decodes (encode_out (run_ack ''b'' True))"
  by (rule server_output_is_well_typed[OF run_reaches_final run_final_conns(1)]) (auto simp: run_conn_simps)

text \<open>
  C14: a well-typed client message is never refused as malformed: reading a message that
  conforms to the schema of a client kind is either dispatched without an error, or leaves the
  hub alone and is answered by one \<open>dispatch\<close> error about the hub's state (unknown target,
  unknown session, no member) or about a second hello; never by a decoding error, \<open>bad_json\<close> or
  an unknown kind.
\<close>

theorem well_typed_messages_are_dispatched:
  assumes "conforms client_schemas j"
  shows "\<exists>kind \<in> set client_kinds. unmarshal_envelope j = Inr \<lparr>env_kind = kind\<rparr> \<and>
    (\<exists>hub' sends. read_round uuid self pid hub (Inr j) = Some (hub', sends) \<and>
       (dispatch uuid self pid hub kind j = (hub', sends, None) \<or>
        hub' = hub \<and> (\<exists>e \<in> state_errors. sends = [(self, err_reply ''dispatch'' e)])))"
proof -
  obtain kind fs ms where j: "(kind, fs) \<in> set client_schemas" "j = JObj ((''kind'', JStr kind) # ms)" "members_typed ms fs"
    using conformsE[OF assms] .
  have env: "unmarshal_envelope j = Inr \<lparr>env_kind = kind\<rparr>"
    unfolding j(2) by (rule typed_envelope[OF schemas_plain(1)[OF j(1)] j(3)])
  have k: "kind \<in> set client_kinds" using j(1) by (auto simp: client_schemas_def client_kinds_def)
  obtain hub1 sends e where d: "dispatch uuid self pid hub kind j = (hub1, sends, e)" by (metis prod_cases3)
  have "\<exists>hub' sends. read_round uuid self pid hub (Inr j) = Some (hub', sends) \<and>
       (dispatch uuid self pid hub kind j = (hub', sends, None) \<or>
        hub' = hub \<and> (\<exists>e \<in> state_errors. sends = [(self, err_reply ''dispatch'' e)]))"
  proof (cases e)
    case None
    then show ?thesis using d by (simp add: read_round_kind[OF env])
  next
    case (Some x)
    have "x \<in> state_errors" by (rule typed_dispatch[OF j(1,3) d[unfolded j(2) Some]])
    moreover have "hub1 = hub \<and> sends = []"
      using d Some by (auto simp: dispatch_defs split: if_splits sum.splits prod.splits)
    ultimately show ?thesis using d Some by (auto simp: read_round_kind[OF env])
  qed
  with env k show ?thesis by blast
qed

theorem well_typed_messages_are_dispatched_witness:
  "\<exists>hub' sends. read_round ''u'' 1 ''a'' demo_hub
     (Inr (encode_bye \<lparr>bye_kind = KindBye, bye_session = ''s_1'', bye_reason = ''''\<rparr>)) = Some (hub', sends)"
  using well_typed_messages_are_dispatched[OF encode_client_conforms(5), of "''s_1''" "''''" "''u''" "1 :: nat" "''a''" demo_hub]
  by blast

end
