(* ===== verification/Refinement.thy ===== *)
theory Refinement
  imports Settle
begin

text \<open>
  The whole signaling server refines the abstract rendezvous of theory Hub: seen through
  \<open>abs_hub\<close>, each step of a goroutine is one act of one authenticated peer on its own behalf
  (joining, leaving, linking itself to somebody, unlinking) or no act at all.  So a run of the
  server is a run of the rendezvous, and what is invariant there is invariant here.
\<close>

section \<open>The acts of a rendezvous\<close>

inductive rv_act :: "peer_id \<Rightarrow> rendezvous \<Rightarrow> rendezvous \<Rightarrow> bool" for pid where
  ActJoin: "rv_join pid r = Some r' \<Longrightarrow> rv_act pid r r'"
| ActLeave: "pid \<in> rv_online r \<Longrightarrow> rv_act pid r (rv_leave pid r)"
| ActLink: "pid \<in> rv_online r \<Longrightarrow> rv_link sid pid other r = Some r' \<Longrightarrow> rv_act pid r r'"
| ActUnlink: "pid \<in> rv_online r \<Longrightarrow> rv_act pid r (rv_unlink sid r)"

abbreviation rv_acts :: "rendezvous \<Rightarrow> rendezvous \<Rightarrow> bool" where
  "rv_acts \<equiv> rtranclp (\<lambda>r r'. \<exists>pid. rv_act pid r r')"

definition rv_empty :: rendezvous where
  "rv_empty = \<lparr>rv_online = {}, rv_links = {}\<rparr>"

text \<open>Links join peers that are online, and a session id names one link.\<close>

definition rv_ok :: "rendezvous \<Rightarrow> bool" where
  "rv_ok r \<longleftrightarrow>
     (\<forall>sid a b. (sid, a, b) \<in> rv_links r \<longrightarrow> a \<in> rv_online r \<and> b \<in> rv_online r) \<and>
     (\<forall>sid x y. (sid, x) \<in> rv_links r \<longrightarrow> (sid, y) \<in> rv_links r \<longrightarrow> x = y)"

lemma rv_ok_empty: "rv_ok rv_empty"
  by (simp add: rv_ok_def rv_empty_def)

lemma rv_ok_act: "rv_act pid r r' \<Longrightarrow> rv_ok r \<Longrightarrow> rv_ok r'"
proof (induction rule: rv_act.induct)
  case (ActJoin r r')
  then show ?case by (auto simp: rv_ok_def rv_join_def split: if_splits)
next
  case (ActLeave r)
  then show ?case unfolding rv_ok_def rv_leave_def by fastforce
next
  case (ActLink r sid other r')
  then have "other \<in> rv_online r" and "r' = r\<lparr>rv_links := insert (sid, pid, other) {l \<in> rv_links r. fst l \<noteq> sid}\<rparr>"
    by (auto simp: rv_link_def split: if_splits)
  with ActLink show ?case unfolding rv_ok_def by auto
next
  case (ActUnlink r sid)
  then show ?case unfolding rv_ok_def rv_unlink_def by auto
qed

lemma rv_ok_acts: "rv_acts r r' \<Longrightarrow> rv_ok r \<Longrightarrow> rv_ok r'"
  by (induction rule: rtranclp_induct) (auto intro: rv_ok_act)

text \<open>Whoever is online got there by joining, and can be made to leave.\<close>

lemma rv_join_leave: "rv_ok r \<Longrightarrow> rv_join pid r = Some r' \<Longrightarrow> rv_leave pid r' = r"
  by (cases r) (auto simp: rv_join_def rv_leave_def rv_ok_def split: if_splits)

section \<open>The simulation\<close>

abbreviation abs_srv :: "server \<Rightarrow> rendezvous" where
  "abs_srv s \<equiv> abs_hub (srv_hub s)"

lemma abs_init: "abs_srv (init_server ice) = rv_empty"
  by (auto simp: abs_hub_def init_server_def new_hub_def rv_empty_def hub_members_def Let_def split: option.splits)

lemma abs_online: "pid \<in> rv_online (abs_hub h) \<longleftrightarrow> hub_peers h pid \<noteq> None"
  by (auto simp: abs_hub_def)

lemma abs_dispatch:
  assumes "dispatch uuid self pid hub kind raw = (hub', sends, e)" and "hub_peers hub pid \<noteq> None"
  shows "abs_hub hub' = abs_hub hub \<or> rv_act pid (abs_hub hub) (abs_hub hub')"
  using dispatch_hub_cases[OF assms(1)]
proof (elim disjE exE)
  fix t sid p
  assume o: "open_session uuid pid t hub = Inr (sid, p, hub')"
  have "rv_link (''s_'' @ uuid) pid t (abs_hub hub) = Some (abs_hub hub')"
    using abs_open[of uuid pid t hub] o by (simp add: abs_result_def)
  then show ?thesis using assms(2) by (blast intro: ActLink abs_online[THEN iffD2])
next
  fix sid r
  assume "hub' = fst (close_session sid pid r hub)"
  then show ?thesis using assms(2) ActUnlink[of pid "abs_hub hub" sid] by (simp add: abs_close abs_online)
qed simp

lemma abs_read_round:
  assumes "read_round uuid self pid hub msg = Some (hub', sends)" and "hub_peers hub pid \<noteq> None"
  shows "abs_hub hub' = abs_hub hub \<or> rv_act pid (abs_hub hub) (abs_hub hub')"
proof -
  from assms(1) consider "hub' = hub"
    | kind raw sends' e where "dispatch uuid self pid hub kind raw = (hub', sends', e)"
    by (auto simp: read_round_def split: sum.splits prod.splits option.splits)
  then show ?thesis
  proof cases
    case 2
    then show ?thesis using assms(2) by (rule abs_dispatch)
  qed simp
qed

lemma abs_register_act: "register pid c h = Inr h' \<Longrightarrow> rv_act pid (abs_hub h) (abs_hub h')"
  using abs_register[of pid c h] by (intro ActJoin) (simp add: abs_result_def)

lemma abs_unregister_act:
  "enumerates order (hub_sessions h) \<Longrightarrow> unregister order pid h = (h', sends) \<Longrightarrow> hub_peers h pid \<noteq> None \<Longrightarrow>
     rv_act pid (abs_hub h) (abs_hub h')"
  using abs_unregister[of order h pid] ActLeave[of pid "abs_hub h"] by (simp add: abs_online)

text \<open>A step does nothing to the rendezvous, or it is an act of the peer of some connection.\<close>

lemma srv_step_act:
  assumes "srv_step lib secret s t" and "srv_inv lib secret s"
  shows "abs_srv t = abs_srv s \<or>
    (\<exists>c k. srv_conns t c = Some k \<and> rv_act (p_id (c_peer k)) (abs_srv s) (abs_srv t))"
  using assms
proof (induction rule: srv_step.induct)
  case (Connect s c now msg p h ok)
  have "rv_act (p_id p) (abs_srv s) (abs_hub h)"
    by (rule abs_register_act[OF serve_hello_Registered(2)[OF Connect.hyps(2)]])
  then show ?case by (intro disjI2 exI[of _ c]) (simp add: greeting_conn_def)
next
  case (Read s c k uuid msg h sends)
  have "hub_peers (srv_hub s) (p_id (c_peer k)) \<noteq> None"
    using srv_inv_registered[OF Read.prems Read.hyps(1)] Read.hyps(2) by (simp add: live_def)
  from abs_read_round[OF Read.hyps(5) this] show ?case
    by (auto intro!: exI[of _ c])
next
  case (Unregister s c k order h sends)
  have "hub_peers (srv_hub s) (p_id (c_peer k)) \<noteq> None"
    using srv_inv_registered[OF Unregister.prems Unregister.hyps(1)] Unregister.hyps(2) by (simp add: live_def)
  from abs_unregister_act[OF Unregister.hyps(7,8) this] show ?case
    by (intro disjI2 exI[of _ c]) simp
qed simp_all

lemma srv_reach_acts: "srv_reach lib secret ice s \<Longrightarrow> rv_acts rv_empty (abs_srv s)"
proof (induction rule: srv_reach.induct)
  case (reach_step s t)
  have "abs_srv t = abs_srv s \<or> (\<exists>pid. rv_act pid (abs_srv s) (abs_srv t))"
    using srv_step_act[OF reach_step.hyps(2) srv_reach_inv[OF reach_step.hyps(1)]] by blast
  with reach_step.IH show ?case by (auto intro: rtranclp.rtrancl_into_rtrancl)
qed (simp add: abs_init)

text \<open>The settling steps only ever let a peer leave.\<close>

lemma srv_settle_act:
  assumes "srv_settle s t"
  shows "abs_srv t = abs_srv s \<or> (\<exists>pid. abs_srv t = rv_leave pid (abs_srv s))"
  using assms
proof (induction rule: srv_settle.induct)
  case (SetUnregister s c k order h sends)
  then show ?case using abs_unregister[of order "srv_hub s" "p_id (c_peer k)"] by auto
qed simp_all

section \<open>Properties\<close>

text \<open>
  C1: the server refines the rendezvous: every reachable state is, abstractly, the outcome of a
  run of joins, leaves, links and unlinks in which links always join two peers that are online;
  and each step of the server either leaves the abstract state alone or is one act of the peer
  of a connection, under the name in claims that the verifier accepted.
\<close>

theorem server_refines_rendezvous:
  assumes "srv_reach lib secret ice s"
  shows "rv_acts rv_empty (abs_srv s) \<and> rv_ok (abs_srv s) \<and>
    (\<forall>t. srv_step lib secret s t \<longrightarrow> abs_srv t = abs_srv s \<or>
       (\<exists>c k now raw cl. srv_conns t c = Some k \<and> verify lib secret now raw = Inr cl \<and>
          cl_subject cl = p_id (c_peer k) \<and> rv_act (cl_subject cl) (abs_srv s) (abs_srv t)))"
proof (intro conjI allI impI)
  show acts: "rv_acts rv_empty (abs_srv s)" by (rule srv_reach_acts[OF assms])
  show "rv_ok (abs_srv s)" by (rule rv_ok_acts[OF acts rv_ok_empty])
  fix t
  assume step: "srv_step lib secret s t"
  have inv: "srv_inv lib secret t" by (rule srv_reach_inv[OF reach_step[OF assms step]])
  show "abs_srv t = abs_srv s \<or>
       (\<exists>c k now raw cl. srv_conns t c = Some k \<and> verify lib secret now raw = Inr cl \<and>
          cl_subject cl = p_id (c_peer k) \<and> rv_act (cl_subject cl) (abs_srv s) (abs_srv t))"
    using srv_step_act[OF step srv_reach_inv[OF assms]]
  proof (elim disjE exE conjE)
    fix c k
    assume k: "srv_conns t c = Some k" "rv_act (p_id (c_peer k)) (abs_srv s) (abs_srv t)"
    obtain now raw cl where "verify lib secret now raw = Inr cl" "p_id (c_peer k) = cl_subject cl"
      using srv_inv_conn[OF inv k(1)] by (auto simp: conn_ok_def)
    with k show ?thesis by metis
  qed simp
qed

theorem server_refines_rendezvous_witness:
  "rv_acts rv_empty (abs_srv run_final) \<and> rv_ok (abs_srv run_final) \<and> (''s_1'', ''a'', ''b'') \<in> rv_links (abs_srv run_final)"
  using server_refines_rendezvous[OF run_reaches_final]
  by (simp add: run_final_conns abs_hub_def hub_members_def run_hub_def run_links_def run_session_def)

end
