(* ===== verification/System.thy ===== *)
theory System
  imports Typing Refinement Relay
begin

text \<open>
  The relay and the signaling server together.  A connection of the server is the relay's: the
  data frames written on it are, in their order, the messages the relay's loop gets, and what the
  relay writes are, in its order, the messages the server's read loop gets there.  The other
  connections, the network, the WebRTC library and the autopilot do what they like.
\<close>

section \<open>The composed system\<close>

record world =
  w_server :: server
  w_relay :: relay
  w_seen :: nat
  w_read :: nat

text \<open>\<open>w_seen\<close> frames have been delivered to the relay, \<open>w_read\<close> of its messages to the server.\<close>

definition frames :: "conn \<Rightarrow> json list" where
  "frames k = concat (map frame_data (c_wire k))"

inductive sys_step :: "jwt_lib \<Rightarrow> string \<Rightarrow> relay_config \<Rightarrow> nat \<Rightarrow> world \<Rightarrow> world \<Rightarrow> bool"
  for lib secret cfg c where
  SysSettle: "srv_settle (w_server w) s \<Longrightarrow> sys_step lib secret cfg c w (w\<lparr>w_server := s\<rparr>)"
| SysInput: "srv_input lib secret d inp (w_server w) s \<Longrightarrow> d \<noteq> c \<or> inp = PingInput \<Longrightarrow>
     sys_step lib secret cfg c w (w\<lparr>w_server := s\<rparr>)"
| SysUplink: "w_read w < length (r_sent (w_relay w)) \<Longrightarrow>
     srv_input lib secret c (MessageInput (r_sent (w_relay w) ! w_read w)) (w_server w) s \<Longrightarrow>
     sys_step lib secret cfg c w (w\<lparr>w_server := s, w_read := Suc (w_read w)\<rparr>)"
| SysDownlink: "srv_conns (w_server w) c = Some k \<Longrightarrow> w_seen w < length (frames k) \<Longrightarrow>
     relay_step cfg (WsMessage px (frames k ! w_seen w)) (w_relay w) = Some r \<Longrightarrow>
     sys_step lib secret cfg c w (w\<lparr>w_relay := r, w_seen := Suc (w_seen w)\<rparr>)"
| SysRelay: "relay_step cfg ev (w_relay w) = Some r \<Longrightarrow> \<forall>px j. ev \<noteq> WsMessage px j \<Longrightarrow> ev \<noteq> WsStart \<Longrightarrow>
     sys_step lib secret cfg c w (w\<lparr>w_relay := r\<rparr>)"

text \<open>
  The system starts with a server in any state it can reach in which nothing has been written on
  the relay's connection yet, and a relay that has just started and sent its hello.
\<close>

inductive sys_reach :: "jwt_lib \<Rightarrow> string \<Rightarrow> ice_server list option \<Rightarrow> relay_config \<Rightarrow> nat \<Rightarrow> world \<Rightarrow> bool"
  for lib secret ice cfg c where
  sys_start: "srv_reach lib secret ice s \<Longrightarrow> srv_conns s c = Some k \<Longrightarrow> c_wire k = [] \<Longrightarrow>
     sys_reach lib secret ice cfg c
       \<lparr>w_server = s, w_relay = start_relay cfg u, w_seen = 0, w_read = 0\<rparr>"
| sys_next: "sys_reach lib secret ice cfg c w \<Longrightarrow> sys_step lib secret cfg c w w' \<Longrightarrow>
     sys_reach lib secret ice cfg c w'"

section \<open>The parts of a reachable world\<close>

lemma sys_server:
  "sys_step lib secret cfg c w w' \<Longrightarrow> w_server w' = w_server w \<or> srv_step lib secret (w_server w) (w_server w')"
  by (induction rule: sys_step.induct) (auto intro: settle_is_step input_is_step)

lemma sys_reach_server: "sys_reach lib secret ice cfg c w \<Longrightarrow> srv_reach lib secret ice (w_server w)"
proof (induction rule: sys_reach.induct)
  case (sys_next w w')
  then show ?case using sys_server[OF sys_next.hyps(2)] by (auto intro: reach_step)
qed simp

lemma sys_reach_relay: "sys_reach lib secret ice cfg c w \<Longrightarrow> relay_inv (w_relay w)"
proof (induction rule: sys_reach.induct)
  case (sys_next w w')
  from sys_next.hyps(2) sys_next.IH show ?case
    by (induction rule: sys_step.induct) (auto intro: relay_inv_step)
qed (simp add: relay_inv_start)

text \<open>The relay's connection is still there, and what was delivered is still what was written.\<close>

lemma frames_grow: "moves_to k k' \<Longrightarrow> \<exists>more. frames k' = frames k @ more"
  by (auto simp: moves_to_def frames_def prefix_def)

definition delivered :: "nat \<Rightarrow> world \<Rightarrow> json set" where
  "delivered c w = (case srv_conns (w_server w) c of None \<Rightarrow> {} | Some k \<Rightarrow> set (take (w_seen w) (frames k)))"

definition linked :: "nat \<Rightarrow> world \<Rightarrow> bool" where
  "linked c w \<longleftrightarrow> (\<exists>k. srv_conns (w_server w) c = Some k \<and> w_seen w \<le> length (frames k))"

lemma linked_step:
  assumes "sys_step lib secret cfg c w w'" and "linked c w"
  shows "linked c w' \<and> delivered c w \<subseteq> delivered c w'"
proof -
  obtain k where k: "srv_conns (w_server w) c = Some k" "w_seen w \<le> length (frames k)"
    using assms(2) by (auto simp: linked_def)
  obtain k' where k': "srv_conns (w_server w') c = Some k'" "moves_to k k'"
    using sys_server[OF assms(1)] srv_step_moves[OF _ k(1), of lib secret "w_server w'"] k(1) moves_to_refl
    by auto
  obtain more where m: "frames k' = frames k @ more" using frames_grow[OF k'(2)] by blast
  have "w_seen w' = w_seen w \<or> w_server w' = w_server w \<and> w_seen w < length (frames k) \<and> w_seen w' = Suc (w_seen w)"
    using assms(1) k(1) by (induction rule: sys_step.induct) auto
  then have "w_seen w \<le> w_seen w' \<and> w_seen w' \<le> length (frames k')"
    using m k(2) by auto
  then show ?thesis
    using k k' m set_take_subset_set_take[of "w_seen w" "w_seen w'" "frames k'"] by (auto simp: linked_def delivered_def)
qed

lemma sys_reach_linked: "sys_reach lib secret ice cfg c w \<Longrightarrow> linked c w"
  by (induction rule: sys_reach.induct) (auto simp: linked_def[of c "\<lparr>w_server = _, w_relay = _, w_seen = _, w_read = _\<rparr>"] dest: linked_step)

section \<open>Which calls the relay takes, and what it applies to them\<close>

text \<open>
  A predicate on the sessions and ICE lists of all the peer connections the relay ever made, and
  one on what it did to them.  What it does by itself is not restricted.
\<close>

definition calls_ok ::
    "(string \<Rightarrow> ice_server list \<Rightarrow> bool) \<Rightarrow> (pc_action \<Rightarrow> bool) \<Rightarrow> relay \<Rightarrow> bool" where
  "calls_ok Q A r \<longleftrightarrow>
     (\<forall>i p. r_pcs r i = Some p \<longrightarrow> Q (pc_session p) (pc_ice p) \<and> (\<forall>a \<in> set (pc_log p). A a))"

fun remote_action :: "(string \<Rightarrow> bool) \<Rightarrow> (json \<Rightarrow> bool) \<Rightarrow> pc_action \<Rightarrow> bool" where
  "remote_action S C (RemoteSdp kind d) \<longleftrightarrow> kind = ''offer'' \<and> S d"
| "remote_action S C (RemoteCandidate j) \<longleftrightarrow> C j"
| "remote_action S C (TrackAdded v) \<longleftrightarrow> True"
| "remote_action S C (LocalSdp kind d) \<longleftrightarrow> True"

lemma calls_ok_ops [simp]:
  "calls_ok Q A (installTelemetryHandler dc d r) = calls_ok Q A r" "calls_ok Q A (call_sink s p r) = calls_ok Q A r"
  "calls_ok Q A (drop_camera r) = calls_ok Q A r" "calls_ok Q A (r\<lparr>r_pc := x\<rparr>) = calls_ok Q A r"
  "calls_ok Q A (r\<lparr>r_session := y\<rparr>) = calls_ok Q A r" "calls_ok Q A (r\<lparr>r_ended := z\<rparr>) = calls_ok Q A r"
  "calls_ok Q A (r\<lparr>r_camera := v\<rparr>) = calls_ok Q A r" "calls_ok Q A (r\<lparr>r_held := h\<rparr>) = calls_ok Q A r"
  "calls_ok Q A (r\<lparr>r_next := n\<rparr>) = calls_ok Q A r" "calls_ok Q A (r\<lparr>r_sent := js\<rparr>) = calls_ok Q A r"
  "calls_ok Q A (r\<lparr>r_pending := q\<rparr>) = calls_ok Q A r" "calls_ok Q A (r\<lparr>r_udp_sent := us\<rparr>) = calls_ok Q A r"
  "calls_ok Q A (r\<lparr>r_events := es\<rparr>) = calls_ok Q A r" "calls_ok Q A (r\<lparr>r_bridge := b\<rparr>) = calls_ok Q A r"
  "calls_ok Q A (r\<lparr>r_buf := bf\<rparr>) = calls_ok Q A r" "calls_ok Q A (r\<lparr>r_channels := cs\<rparr>) = calls_ok Q A r"
  by (simp_all add: calls_ok_def)

lemma calls_ok_pc:
  "calls_ok Q A r \<Longrightarrow> A a \<Longrightarrow> calls_ok Q A (pc_do a i r)" "calls_ok Q A r \<Longrightarrow> calls_ok Q A (close_pc i r)"
  by (auto simp: calls_ok_def pc_do_def close_pc_def split: option.splits)

lemma calls_ok_new:
  "newPeerConn px s ice r = (res, r') \<Longrightarrow> calls_ok Q A r \<Longrightarrow> Q s (webrtc_ice_servers ice) \<Longrightarrow> calls_ok Q A r'"
  using newPeerConn_cases[of px s ice r res r'] by (auto simp: calls_ok_def split: if_splits)

lemma calls_ok_ack:
  assumes "calls_ok Q A r" and "\<not> ack_initiator m \<Longrightarrow> Q (ack_session m) (webrtc_ice_servers (ack_ice_servers m))"
  shows "calls_ok Q A (on_session_ack cfg px m r)"
proof (cases "ack_initiator m")
  case False
  let ?r1 = "case r_pc r of None \<Rightarrow> r
     | Some i \<Rightarrow> installTelemetryHandler None (rc_debug cfg) ((close_pc i r)\<lparr>r_pc := None\<rparr>)"
  let ?r2 = "(drop_camera ?r1)\<lparr>r_session := ack_session m\<rparr>"
  obtain res r3 where n: "newPeerConn px (ack_session m) (ack_ice_servers m) ?r2 = (res, r3)" by fastforce
  have "calls_ok Q A ?r1" using assms(1) by (simp add: calls_ok_pc split: option.splits)
  then have "calls_ok Q A r3" using calls_ok_new[OF n] assms(2)[OF False] by simp
  then show ?thesis using False n by (simp add: on_session_ack_def Let_def split: sum.splits)
qed (simp add: on_session_ack_def assms(1))

lemma calls_ok_camera: "calls_ok Q (remote_action S C) r \<Longrightarrow> calls_ok Q (remote_action S C) (add_camera cfg px i r)"
  by (simp add: add_camera_def Let_def calls_ok_pc split: prod.splits sum.splits option.splits)

text \<open>A round is fine when what it decodes from its message is.\<close>

lemma calls_ok_round:
  assumes "calls_ok Q (remote_action S C) r"
    and "\<And>m. unmarshal_envelope raw = Inr \<lparr>env_kind = KindSessionAck\<rparr> \<Longrightarrow> m = snd (decode_session_ack raw) \<Longrightarrow>
           \<not> ack_initiator m \<Longrightarrow> Q (ack_session m) (webrtc_ice_servers (ack_ice_servers m))"
    and "\<And>m. unmarshal_envelope raw = Inr \<lparr>env_kind = KindPeerSDP\<rparr> \<Longrightarrow> m = snd (decode_peer_sdp raw) \<Longrightarrow>
           sdp_role m = ''offer'' \<Longrightarrow> S (sdp_sdp m)"
    and "\<And>m. unmarshal_envelope raw = Inr \<lparr>env_kind = KindPeerICE\<rparr> \<Longrightarrow> m = snd (decode_peer_ice raw) \<Longrightarrow> C (icem_cand m)"
  shows "calls_ok Q (remote_action S C) (ws_round cfg px raw r)"
proof (cases "unmarshal_envelope raw")
  case (Inr env)
  then have env: "unmarshal_envelope raw = Inr \<lparr>env_kind = env_kind env\<rparr>" by (cases env) simp
  let ?ok = "calls_ok Q (remote_action S C)"
  have "?ok (on_peer_sdp cfg px m r)" if "sdp_role m = ''offer'' \<Longrightarrow> S (sdp_sdp m)" for m
    using assms(1) that
    by (simp add: on_peer_sdp_def Let_def calls_ok_pc calls_ok_camera split: sum.splits option.splits)
  then have "?ok (on_peer_sdp cfg px (snd (decode_peer_sdp raw)) r)" if "env_kind env = KindPeerSDP"
    using assms(3) env that by simp
  moreover have "?ok (on_peer_ice px m r)" if "C (icem_cand m)" for m
    using assms(1) that by (simp add: on_peer_ice_def calls_ok_pc split: option.splits)
  then have "?ok (on_peer_ice px (snd (decode_peer_ice raw)) r)" if "env_kind env = KindPeerICE"
    using assms(4) env that by simp
  moreover have "?ok (on_peer_gone cfg r)"
    using assms(1) by (simp add: on_peer_gone_def Let_def calls_ok_pc split: option.splits)
  moreover have "?ok (on_session_ack cfg px (snd (decode_session_ack raw)) r)" if "env_kind env = KindSessionAck"
    using assms(1,2) env that by (intro calls_ok_ack) auto
  ultimately show ?thesis using assms(1) Inr by (simp add: ws_round_def)
qed (simp add: ws_round_def assms(1))

lemma calls_ok_event:
  assumes "relay_step cfg ev r = Some r'" and "calls_ok Q A r" and "\<forall>px j. ev \<noteq> WsMessage px j"
  shows "calls_ok Q A r'"
proof -
  from assms(1) have "relay_event_step cfg ev r = Some r'" by (simp add: relay_step_def split: if_splits)
  with assms(2,3) show ?thesis
    by (cases ev) (auto simp: ws_end_def ws_start_def on_ice_candidate_def on_connection_state_def channel_open_eq
        channel_close_eq on_data_channel_def channel_message_eq wireCommand_message_def Let_def calls_ok_pc
        split: if_splits option.splits prod.splits)
qed

section \<open>What is delivered is what the server meant\<close>

lemma frames_wire: "j \<in> set (frames k) \<Longrightarrow> DataFrame j \<in> set (c_wire k)"
proof -
  assume "j \<in> set (frames k)"
  then obtain f where f: "f \<in> set (c_wire k)" "j \<in> set (frame_data f)" by (auto simp: frames_def)
  from f(2) have "f = DataFrame j" by (cases f) simp_all
  with f(1) show ?thesis by simp
qed

text \<open>The kind of a message that is what it says it is decides its constructor.\<close>

fun out_kind :: "out_msg \<Rightarrow> string" where
  "out_kind (HelloOK m) = KindHelloOK"
| "out_kind (SessionAck m) = KindSessionAck"
| "out_kind (PeerSDP m) = KindPeerSDP"
| "out_kind (PeerICE m) = KindPeerICE"
| "out_kind (PeerGone m) = KindPeerGone"
| "out_kind (StringMap kvs) = KindPong"
| "out_kind (ErrReply m) = KindErr"

lemma envelope_of_good: "good_out ok xs m \<Longrightarrow> unmarshal_envelope (encode_out m) = Inr \<lparr>env_kind = out_kind m\<rparr>"
  using unmarshal_envelope_kind[of "[]" KindPong]
  by (cases m) (simp_all add: envelope_of_server envelope_of_client)

lemma good_kinds:
  assumes "good_out ok xs m" and "unmarshal_envelope (encode_out m) = Inr \<lparr>env_kind = k\<rparr>"
  shows "k = KindSessionAck \<Longrightarrow> \<exists>a. m = SessionAck a" and "k = KindPeerSDP \<Longrightarrow> \<exists>d. m = PeerSDP d"
    and "k = KindPeerICE \<Longrightarrow> \<exists>i. m = PeerICE i"
  using assms envelope_of_good[OF assms(1)] by (cases m; simp add: kind_defs)+

text \<open>
  The relay was told of a call: a delivered \<open>session.ack\<close> that names the session, lists the ICE
  servers, does not make the relay the initiator, and names a caller whose token was verified.
\<close>

definition told ::
    "jwt_lib \<Rightarrow> string \<Rightarrow> ice_server list option \<Rightarrow> nat \<Rightarrow> world \<Rightarrow> string \<Rightarrow> ice_server list \<Rightarrow> bool" where
  "told lib secret ice c w sid xs \<longleftrightarrow>
     (\<exists>a. encode_out (SessionAck a) \<in> delivered c w \<and> ack_session a = sid \<and> ack_ice_servers a = Some xs \<and>
          \<not> ack_initiator a \<and> vouched lib secret (ack_peer a) \<and> xs = ice_list ice)"

lemma told_mono: "delivered c w \<subseteq> delivered c w' \<Longrightarrow> told lib secret ice c w sid xs \<Longrightarrow> told lib secret ice c w' sid xs"
  unfolding told_def by blast

text \<open>It was given an offer, or a candidate, by a delivered \<open>peer.sdp\<close> or \<open>peer.ice\<close>.\<close>

definition offered :: "nat \<Rightarrow> world \<Rightarrow> string \<Rightarrow> bool" where
  "offered c w d \<longleftrightarrow> (\<exists>m. encode_out (PeerSDP m) \<in> delivered c w \<and> sdp_role m = ''offer'' \<and> sdp_sdp m = d)"

definition trickled :: "nat \<Rightarrow> world \<Rightarrow> json \<Rightarrow> bool" where
  "trickled c w j \<longleftrightarrow> (\<exists>m. encode_out (PeerICE m) \<in> delivered c w \<and> icem_cand m = j)"

abbreviation heard_calls :: "jwt_lib \<Rightarrow> string \<Rightarrow> ice_server list option \<Rightarrow> nat \<Rightarrow> world \<Rightarrow> relay \<Rightarrow> bool" where
  "heard_calls lib secret ice c w \<equiv> calls_ok (told lib secret ice c w) (remote_action (offered c w) (trickled c w))"

lemma calls_ok_mono:
  assumes "calls_ok Q A r" and "\<And>s xs. Q s xs \<Longrightarrow> Q' s xs" and "\<And>a. A a \<Longrightarrow> A' a"
  shows "calls_ok Q' A' r"
  using assms unfolding calls_ok_def by blast

lemma heard_calls_mono:
  assumes "delivered c w \<subseteq> delivered c w'" and "heard_calls lib secret ice c w r"
  shows "heard_calls lib secret ice c w' r"
  using assms(2)
proof (rule calls_ok_mono)
  fix a
  assume "remote_action (offered c w) (trickled c w) a"
  then show "remote_action (offered c w') (trickled c w') a"
    using assms(1) by (cases a) (auto simp: offered_def trickled_def)
qed (rule told_mono[OF assms(1)])

text \<open>What the next frame of the connection is.\<close>

lemma downlink_good:
  assumes "srv_reach lib secret ice (w_server w)" and k: "srv_conns (w_server w) c = Some k"
    and seen: "w_seen w < length (frames k)"
    and w': "w_server w' = w_server w" "w_seen w' = Suc (w_seen w)"
  obtains x where "frames k ! w_seen w = encode_out x" "good_out (vouched lib secret) (ice_list ice) x"
    "encode_out x \<in> delivered c w'"
proof -
  have "DataFrame (frames k ! w_seen w) \<in> set (c_wire k)" using seen by (intro frames_wire nth_mem)
  then obtain x where "frames k ! w_seen w = encode_out x" "good_out (vouched lib secret) (ice_list ice) x"
    using honest_wire(1)[OF assms(1) k] by blast
  moreover have "frames k ! w_seen w \<in> delivered c w'"
    using seen k w' by (auto simp: delivered_def take_Suc_conv_app_nth)
  ultimately show ?thesis using that by simp
qed

lemma heard_calls_round:
  assumes reach: "srv_reach lib secret ice (w_server w)" and k: "srv_conns (w_server w) c = Some k"
    and seen: "w_seen w < length (frames k)"
    and w': "w_server w' = w_server w" "w_seen w' = Suc (w_seen w)"
    and old: "heard_calls lib secret ice c w' r"
  shows "heard_calls lib secret ice c w' (ws_round cfg px (frames k ! w_seen w) r)"
proof -
  obtain x where x: "frames k ! w_seen w = encode_out x" "good_out (vouched lib secret) (ice_list ice) x"
    "encode_out x \<in> delivered c w'"
    using downlink_good[OF assms(1-5)] by metis
  show ?thesis
  proof (rule calls_ok_round[OF old], unfold x(1))
    fix m
    assume env: "unmarshal_envelope (encode_out x) = Inr \<lparr>env_kind = KindSessionAck\<rparr>"
      and m: "m = snd (decode_session_ack (encode_out x))" "\<not> ack_initiator m"
    have "x = SessionAck m" using good_kinds(1)[OF x(2) env] m(1) by (auto simp: server_roundtrips)
    then show "told lib secret ice c w' (ack_session m) (webrtc_ice_servers (ack_ice_servers m))"
      using x m(2) unfolding told_def by (intro exI[of _ m]) simp
  next
    fix m
    assume env: "unmarshal_envelope (encode_out x) = Inr \<lparr>env_kind = KindPeerSDP\<rparr>"
      and m: "m = snd (decode_peer_sdp (encode_out x))" "sdp_role m = ''offer''"
    have "x = PeerSDP m" using good_kinds(2)[OF x(2) env] m(1) by (auto simp: server_roundtrips)
    then show "offered c w' (sdp_sdp m)" using x(3) m(2) unfolding offered_def by blast
  next
    fix m
    assume env: "unmarshal_envelope (encode_out x) = Inr \<lparr>env_kind = KindPeerICE\<rparr>"
      and m: "m = snd (decode_peer_ice (encode_out x))"
    have "x = PeerICE m" using good_kinds(3)[OF x(2) env] m(1) by (auto simp: server_roundtrips)
    then show "trickled c w' (icem_cand m)" using x(3) unfolding trickled_def by blast
  qed
qed

lemma sys_heard: "sys_reach lib secret ice cfg c w \<Longrightarrow> heard_calls lib secret ice c w (w_relay w)"
proof (induction rule: sys_reach.induct)
  case (sys_start s k u)
  have "r_pcs (start_relay cfg u) = Map.empty"
    by (simp add: start_relay_def) (simp add: new_relay_def)
  then show ?case by (simp add: calls_ok_def)
next
  case (sys_next w w')
  have mono: "delivered c w \<subseteq> delivered c w'"
    using linked_step[OF sys_next.hyps(2) sys_reach_linked[OF sys_next.hyps(1)]] by blast
  have old: "heard_calls lib secret ice c w' (w_relay w)"
    by (rule heard_calls_mono[OF mono sys_next.IH])
  from sys_next.hyps(2) show ?case
  proof cases
    case (SysDownlink k px r)
    have "heard_calls lib secret ice c w' (ws_round cfg px (frames k ! w_seen w) (w_relay w))"
      by (rule heard_calls_round[OF sys_reach_server[OF sys_next.hyps(1)] SysDownlink(2,3) _ _ old])
        (simp_all add: SysDownlink(1))
    then show ?thesis
      using SysDownlink(1,4) by (simp add: relay_step_def split: if_splits)
  next
    case (SysRelay ev r)
    then show ?thesis using calls_ok_event[OF SysRelay(2) old] by simp
  qed (use old in simp_all)
qed

lemma sys_sent:
  assumes "sys_reach lib secret ice cfg c w" and "j \<in> set (r_sent (w_relay w))"
  shows "\<exists>i p. r_pcs (w_relay w) i = Some p \<and> relay_msg (pc_session p) j"
proof -
  have "sent_ok (w_relay w)"
    using sys_reach_relay[OF assms(1)] by (simp add: relay_inv_def loop_inv_def idle_inv_def split: if_splits)
  with assms(2) obtain s where "s \<in> known (w_relay w)" "relay_msg s j" by (auto simp: sent_ok_def)
  then show ?thesis unfolding known_iff by blast
qed

lemma relay_msg_conforms: "relay_msg s j \<Longrightarrow> conforms client_schemas j"
  by (auto simp: relay_msg_def encode_client_conforms)

section \<open>A call that comes through\<close>

text \<open>
  The run of the two clients goes on with a relay on \<open>b\<close>'s connection: its goroutine starts, the
  \<open>session.ack\<close> is written, the relay takes the call.
\<close>

definition call_pc :: peer_conn where
  "call_pc = \<lparr>pc_session = ''s_1'', pc_ice = [], pc_open = True, pc_log = []\<rparr>"

lemma demo_takes_call:
  "\<exists>r. relay_step (demo_config False '''') (WsMessage fine_pion (encode_out (run_ack ''a'' False))) (demo_start '''') = Some r \<and>
     r_pcs r 0 = Some call_pc \<and> r_pc r = Some 0 \<and> r_ended r = None \<and> \<not> r_crashed r"
  by (simp add: relay_step_def ws_round_def run_ack_def session_ack_def envelope_of_server server_roundtrips
      on_session_ack_eq newPeerConn_def fine_pion_def call_pc_def ack_base_next ack_base_pcs)

definition called_conn :: conn where
  "called_conn = (run_conn ''b'' Running [run_ok ''b''] [])\<lparr>c_wire := [DataFrame (encode_out (run_ack ''a'' False))]\<rparr>"

definition answered :: server where
  "answered = two run_links (run_conn ''a'' Running [run_ok ''a'', run_ack ''b'' True] []) called_conn"

lemma demo_answers: "\<exists>s. srv_settle run_final s \<and> srv_settle s answered"
proof -
  let ?mid = "two run_links (run_conn ''a'' Running [run_ok ''a'', run_ack ''b'' True] [])
     (run_conn ''b'' Running [run_ack ''a'' False, run_ok ''b''] [])"
  have "srv_settle run_final ?mid"
    using SetStart[of run_final 3] by (simp add: run_final_def two_simps run_conn_simps)
  moreover have "write_round WriteOk (run_peer ''b'' [run_ack ''a'' False, run_ok ''b''])
      = Some (run_peer ''b'' [run_ok ''b''], [DataFrame (encode_out (run_ack ''a'' False))], True)"
    by (simp add: run_peer_def recv_msg_def)
  then have "srv_settle ?mid answered"
    using SetWrite[OF two_simps(2), of "run_conn ''b'' Running [run_ack ''a'' False, run_ok ''b''] []" WriteOk]
    by (simp only: two_simps run_conn_simps answered_def called_conn_def) (simp add: run_conn_def)
  ultimately show ?thesis by blast
qed

lemma demo_world:
  "\<exists>r. sys_reach run_jwt ''key'' None (demo_config False '''') 3
      \<lparr>w_server = answered, w_relay = r, w_seen = 1, w_read = 0\<rparr> \<and>
     r_pcs r 0 = Some call_pc \<and> r_pc r = Some 0 \<and> r_ended r = None \<and> \<not> r_crashed r"
proof -
  let ?w = "\<lambda>s r n. \<lparr>w_server = s, w_relay = r, w_seen = n, w_read = 0\<rparr>"
  let ?reach = "sys_reach run_jwt ''key'' None (demo_config False '''') 3"
  have "?reach (?w run_final (demo_start '''') 0)"
    by (rule sys_start[OF run_reaches_final run_final_conns(2)]) (simp add: run_conn_def)
  moreover obtain s where "srv_settle run_final s" "srv_settle s answered" using demo_answers by blast
  ultimately have "?reach (?w answered (demo_start '''') 0)"
    using sys_next[OF sys_next[OF _ SysSettle] SysSettle] by fastforce
  moreover obtain r where r: "relay_step (demo_config False '''')
      (WsMessage fine_pion (encode_out (run_ack ''a'' False))) (demo_start '''') = Some r"
      "r_pcs r 0 = Some call_pc \<and> r_pc r = Some 0 \<and> r_ended r = None \<and> \<not> r_crashed r"
    using demo_takes_call by blast
  have "sys_step run_jwt ''key'' (demo_config False '''') 3 (?w answered (demo_start '''') 0) (?w answered r 1)"
    using SysDownlink[of "?w answered (demo_start '''') 0" 3 called_conn _ fine_pion r] r(1)
    by (simp add: answered_def two_simps called_conn_def frames_def)
  ultimately show ?thesis using sys_next r(2) by blast
qed

section \<open>Properties\<close>

text \<open>
  C6: in the composed system the relay serves authentic callers only: every peer connection it
  ever makes is for a session that a delivered \<open>session.ack\<close> named, as the callee, for a caller
  whose token the server verified, with exactly the ICE servers the service was configured with;
  every message it writes is well-typed and about such a session; and every message delivered to
  it decodes without an error.
\<close>

theorem relay_serves_authentic_callers:
  assumes "sys_reach lib secret ice cfg c w"
  shows "(\<forall>i p. r_pcs (w_relay w) i = Some p \<longrightarrow>
        told lib secret ice c w (pc_session p) (pc_ice p) \<and> pc_ice p = ice_list ice) \<and>
    (\<forall>j \<in> set (r_sent (w_relay w)). conforms client_schemas j \<and>
        (\<exists>sid xs. relay_msg sid j \<and> told lib secret ice c w sid xs)) \<and>
    (\<forall>j \<in> delivered c w. conforms server_schemas j \<and> decodes j)"
proof (intro conjI allI impI ballI)
  note T = sys_heard[OF assms, unfolded calls_ok_def]
  fix i p
  assume "r_pcs (w_relay w) i = Some p"
  with T show "told lib secret ice c w (pc_session p) (pc_ice p)" by blast
  then show "pc_ice p = ice_list ice" by (auto simp: told_def)
next
  fix j
  assume "j \<in> set (r_sent (w_relay w))"
  from sys_sent[OF assms this] obtain i p where ip: "r_pcs (w_relay w) i = Some p" "relay_msg (pc_session p) j"
    by blast
  then show "conforms client_schemas j" by (intro relay_msg_conforms)
  show "\<exists>sid xs. relay_msg sid j \<and> told lib secret ice c w sid xs"
    using ip sys_heard[OF assms, unfolded calls_ok_def] by blast
next
  fix j
  assume "j \<in> delivered c w"
  then obtain k where k: "srv_conns (w_server w) c = Some k" "j \<in> set (frames k)"
    by (auto simp: delivered_def dest: in_set_takeD split: option.splits)
  obtain m where "j = encode_out m" "good_out (vouched lib secret) (ice_list ice) m"
    using honest_wire(1)[OF sys_reach_server[OF assms] k(1) frames_wire[OF k(2)]] by blast
  then show "conforms server_schemas j" using good_out_typed by (auto simp: typed_out_def)
  then show "decodes j" by (rule conforming_decodes)
qed

theorem relay_serves_authentic_callers_witness:
  "\<exists>r. r_pcs r 0 = Some call_pc \<and>
     told run_jwt ''key'' None 3 \<lparr>w_server = answered, w_relay = r, w_seen = 1, w_read = 0\<rparr> ''s_1'' []"
proof -
  obtain r where r: "sys_reach run_jwt ''key'' None (demo_config False '''') 3
      \<lparr>w_server = answered, w_relay = r, w_seen = 1, w_read = 0\<rparr>" "r_pcs r 0 = Some call_pc"
    using demo_world by blast
  have "told run_jwt ''key'' None 3 \<lparr>w_server = answered, w_relay = r, w_seen = 1, w_read = 0\<rparr>
      (pc_session call_pc) (pc_ice call_pc)"
    using relay_serves_authentic_callers[OF r(1)] r(2) by fastforce
  then show ?thesis using r(2) by (intro exI[of _ r]) (simp add: call_pc_def)
qed

end
