(* ===== verification/Integrity.thy ===== *)
theory Integrity
  imports Settle Mail
begin

text \<open>
  Where the messages of the signaling server come from.  A trace is the history of a run: the
  state before each step, and what was heard in it from outside, if anything.  Every message that
  is owed, queued or written has a cause in the trace: an input of an authenticated connection
  that asked for it, through the tables the hub had at that moment, or the end of such a
  connection.
\<close>

section \<open>Traces\<close>

datatype happening = Heard nat input | Internal

type_synonym trace = "(server \<times> happening) list"

inductive srv_trace :: "jwt_lib \<Rightarrow> string \<Rightarrow> ice_server list option \<Rightarrow> trace \<Rightarrow> server \<Rightarrow> bool"
  for lib secret ice where
  trace_init: "srv_trace lib secret ice [] (init_server ice)"
| trace_input: "srv_trace lib secret ice h s \<Longrightarrow> srv_input lib secret c inp s t \<Longrightarrow>
     srv_trace lib secret ice (h @ [(s, Heard c inp)]) t"
| trace_settle: "srv_trace lib secret ice h s \<Longrightarrow> srv_settle s t \<Longrightarrow>
     srv_trace lib secret ice (h @ [(s, Internal)]) t"

lemma srv_trace_reach: "srv_trace lib secret ice h s \<Longrightarrow> srv_reach lib secret ice s"
  by (induction rule: srv_trace.induct) (auto intro: reach_init reach_step settle_is_step input_is_step)

lemma srv_trace_exists: "srv_reach lib secret ice s \<Longrightarrow> \<exists>h. srv_trace lib secret ice h s"
proof (induction rule: srv_reach.induct)
  case reach_init
  show ?case by (rule exI, rule trace_init)
next
  case (reach_step s t)
  then obtain h where "srv_trace lib secret ice h s" by blast
  with reach_step.hyps(2) show ?case
    unfolding step_split by (metis trace_input trace_settle)
qed

lemma srv_trace_states: "srv_trace lib secret ice h s \<Longrightarrow> (s', o') \<in> set h \<Longrightarrow> srv_reach lib secret ice s'"
  by (induction rule: srv_trace.induct) (auto dest: srv_trace_reach)

section \<open>Causes\<close>

text \<open>
  In state \<open>s\<close> the connection \<open>d\<close>, in service under the name \<open>n\<close>, sent \<open>raw\<close>, a message of the
  given kind; \<open>ended\<close>: it was about to unregister.
\<close>

definition said :: "trace \<Rightarrow> server \<Rightarrow> nat \<Rightarrow> peer_id \<Rightarrow> string \<Rightarrow> json \<Rightarrow> bool" where
  "said h s d n kind raw \<longleftrightarrow>
     (s, Heard d (MessageInput raw)) \<in> set h \<and>
     (\<exists>k. srv_conns s d = Some k \<and> c_phase k = Running \<and> p_id (c_peer k) = n) \<and>
     unmarshal_envelope raw = Inr \<lparr>env_kind = kind\<rparr>"

definition ended :: "trace \<Rightarrow> server \<Rightarrow> nat \<Rightarrow> peer_id \<Rightarrow> bool" where
  "ended h s d n \<longleftrightarrow>
     s \<in> fst ` set h \<and>
     (\<exists>k. srv_conns s d = Some k \<and> c_phase k = Running \<and> c_cancelled k \<and> p_id (c_peer k) = n)"

fun caused :: "trace \<Rightarrow> nat \<Rightarrow> out_msg \<Rightarrow> bool" where
  "caused h c (HelloOK m) \<longleftrightarrow> (\<exists>s msg. (s, Heard c (HelloInput msg)) \<in> set h)"
| "caused h c (SessionAck a) \<longleftrightarrow>
     (\<exists>s d n raw q. said h s d n KindSessionReq raw \<and> checked (decode_session_req raw) = Inr q \<and>
        (if ack_initiator a then d = c \<and> ack_peer a = sreq_peer q
         else ack_peer a = n \<and> hub_peers (srv_hub s) (sreq_peer q) = Some c))"
| "caused h c (PeerSDP m) \<longleftrightarrow>
     (\<exists>s d n raw x. said h s d n KindSDP raw \<and> checked (decode_sdp raw) = Inr x \<and>
        other_peer (sdp_session x) n (srv_hub s) = Inr c \<and> m = x\<lparr>sdp_kind := KindPeerSDP\<rparr>)"
| "caused h c (PeerICE m) \<longleftrightarrow>
     (\<exists>s d n raw x. said h s d n KindICE raw \<and> checked (decode_ice raw) = Inr x \<and>
        other_peer (icem_session x) n (srv_hub s) = Inr c \<and> m = x\<lparr>icem_kind := KindPeerICE\<rparr>)"
| "caused h c (PeerGone g) \<longleftrightarrow>
     (\<exists>s d n. other_peer (gone_session g) n (srv_hub s) = Inr c \<and>
        ((\<exists>raw b. said h s d n KindBye raw \<and> checked (decode_bye raw) = Inr b \<and>
            bye_session b = gone_session g \<and> bye_reason b = gone_reason g) \<or>
         ended h s d n \<and> gone_reason g = ''peer_disconnected''))"
| "caused h c (StringMap kvs) \<longleftrightarrow> kvs = [(''kind'', KindPong)] \<and> (\<exists>s n raw. said h s c n KindPing raw)"
| "caused h c (ErrReply e) \<longleftrightarrow> (\<exists>s inp. (s, Heard c inp) \<in> set h)"

lemma caused_plain: "caused h c m \<Longrightarrow> plain_out m"
  by (auto simp: plain_out_def)

lemma said_more: "said h s d n kind raw \<Longrightarrow> set h \<subseteq> set h' \<Longrightarrow> said h' s d n kind raw"
  by (auto simp: said_def)

lemma ended_more: "ended h s d n \<Longrightarrow> set h \<subseteq> set h' \<Longrightarrow> ended h' s d n"
  by (auto simp: ended_def)

lemma caused_more: "caused h c m \<Longrightarrow> set h \<subseteq> set h' \<Longrightarrow> caused h' c m"
  by (cases m; simp only: caused.simps; blast intro: said_more ended_more)

section \<open>What the read loop and unregistering send has a cause\<close>

lemma other_peer_counterpart:
  "hub_sessions h sid = Some r \<Longrightarrow> touches n r \<Longrightarrow> hub_peers h (counterpart n r) = Some q \<Longrightarrow>
     other_peer sid n h = Inr q"
  by (auto simp: other_peer_def touches_def counterpart_def split: if_splits)

lemma caused_replies:
  "(s, Heard c inp) \<in> set h \<Longrightarrow> caused h c (err_reply code e)"
  "said h s c n KindPing raw \<Longrightarrow> caused h c pong_msg"
  "said h s c n KindSessionReq raw \<Longrightarrow> checked (decode_session_req raw) = Inr r \<Longrightarrow>
     caused h c (session_ack sid (sreq_peer r) xs True)"
  "said h s c n KindSessionReq raw \<Longrightarrow> checked (decode_session_req raw) = Inr r \<Longrightarrow>
     hub_peers (srv_hub s) (sreq_peer r) = Some p \<Longrightarrow> caused h p (session_ack sid n xs False)"
  by (simp_all only: err_reply_def pong_msg_def session_ack_def caused.simps session_ack_msg.simps if_True if_False)
    blast+

lemma caused_gone:
  assumes "hub_sessions (srv_hub s) sid = Some r" and "touches n r" and "hub_peers (srv_hub s) (counterpart n r) = Some q"
  shows "said h s d n KindBye raw \<Longrightarrow> checked (decode_bye raw) = Inr b \<Longrightarrow> bye_session b = sid \<Longrightarrow>
      caused h q (gone_msg sid (bye_reason b))"
    and "ended h s d n \<Longrightarrow> caused h q (gone_msg sid ''peer_disconnected'')"
  using other_peer_counterpart[OF assms] unfolding gone_msg_def caused.simps peer_gone_msg.simps by blast+

lemma dispatch_caused:
  assumes d: "dispatch uuid c n (srv_hub s) kind raw = (hub', sends, e)" and s: "said h s c n kind raw"
    and m: "(q, m) \<in> set sends"
  shows "caused h q m"
proof -
  consider "kind = KindSessionReq" | "kind = KindSDP" | "kind = KindICE" | "kind = KindBye"
    | "kind \<noteq> KindSessionReq" "kind \<noteq> KindSDP" "kind \<noteq> KindICE" "kind \<noteq> KindBye" by blast
  then show ?thesis
  proof cases
    case 1
    obtain r sid p where r: "checked (decode_session_req raw) = Inr r"
      "open_session uuid n (sreq_peer r) (srv_hub s) = Inr (sid, p, hub')"
      "sends = [(c, session_ack sid (sreq_peer r) (IceServers hub') True), (p, session_ack sid n (IceServers hub') False)]"
      using d m 1 by (auto simp: dispatch_session_req_def split: sum.splits)
    have "hub_peers (srv_hub s) (sreq_peer r) = Some p"
      using r(2) by (auto simp: open_session_def Let_def split: option.splits)
    with s m 1 r(1,3) show ?thesis by (auto intro: caused_replies)
  next
    case 2
    with d m obtain x where "checked (decode_sdp raw) = Inr x" "other_peer (sdp_session x) n (srv_hub s) = Inr q"
      "m = PeerSDP (x\<lparr>sdp_kind := KindPeerSDP\<rparr>)" by (auto simp: dispatch_sdp_def split: sum.splits)
    with s 2 show ?thesis by (simp only: caused.simps) blast
  next
    case 3
    with d m obtain x where "checked (decode_ice raw) = Inr x" "other_peer (icem_session x) n (srv_hub s) = Inr q"
      "m = PeerICE (x\<lparr>icem_kind := KindPeerICE\<rparr>)" by (auto simp: dispatch_ice_def split: sum.splits)
    with s 3 show ?thesis by (simp only: caused.simps) blast
  next
    case 4
    with d m obtain b where b: "checked (decode_bye raw) = Inr b"
      "(q, m) \<in> set (snd (close_session (bye_session b) n (bye_reason b) (srv_hub s)))"
      by (auto simp: dispatch_bye_def split_beta split: sum.splits)
    with s 4 show ?thesis
      using close_session_sends[OF b(2)] caused_gone(1) by blast
  next
    case 5
    with d m s show ?thesis by (auto simp: dispatch_def intro: caused_replies split: if_splits)
  qed
qed

lemma read_round_caused:
  assumes "read_round uuid c (p_id (c_peer k)) (srv_hub s) (Inr raw) = Some (hub', sends)"
    and "srv_conns s c = Some k" and "c_phase k = Running" and "(s, Heard c (MessageInput raw)) \<in> set h"
    and m: "(q, m) \<in> set sends"
  shows "caused h q m"
proof (cases "unmarshal_envelope raw")
  case (Inl e)
  with assms show ?thesis by (auto simp: read_round_def intro: caused_replies)
next
  case (Inr env)
  obtain hub1 sends1 e where d: "dispatch uuid c (p_id (c_peer k)) (srv_hub s) (env_kind env) raw = (hub1, sends1, e)"
    by (metis prod_cases3)
  have "said h s c (p_id (c_peer k)) (env_kind env) raw"
    using assms(2,3,4) Inr by (auto simp: said_def)
  from dispatch_caused[OF d this] assms(1,4) m d Inr show ?thesis
    by (cases e) (auto simp: read_round_def intro: caused_replies)
qed

lemma unregister_caused:
  assumes "unregister order (p_id (c_peer k)) (srv_hub s) = (hub', sends)" and "enumerates order (hub_sessions (srv_hub s))"
    and "srv_conns s d = Some k" and "c_phase k = Running" and "c_cancelled k" and "s \<in> fst ` set h"
    and m: "(q, m) \<in> set sends"
  shows "caused h q m"
proof -
  have "(q, m) \<in> set (snd (unregister order (p_id (c_peer k)) (srv_hub s)))" using assms(1) m by simp
  then obtain sid r where "m = gone_msg sid ''peer_disconnected''" "hub_sessions (srv_hub s) sid = Some r"
    "touches (p_id (c_peer k)) r" "hub_peers (srv_hub s) (counterpart (p_id (c_peer k)) r) = Some q"
    unfolding set_unregister_notices[OF assms(2)] by blast
  moreover have "ended h s d (p_id (c_peer k))" using assms(3-6) by (auto simp: ended_def)
  ultimately show ?thesis using caused_gone(2) by simp
qed

section \<open>All mail has a cause\<close>

abbreviation all_caused :: "trace \<Rightarrow> server \<Rightarrow> bool" where
  "all_caused h \<equiv> all_mail (caused h)"

lemma all_caused_more: "all_caused h s \<Longrightarrow> set h \<subseteq> set h' \<Longrightarrow> all_caused h' s"
  using all_mail_mono caused_more by metis

lemma all_caused_input:
  assumes "srv_input lib secret c inp s t" and "all_caused h s" and h: "(s, Heard c inp) \<in> set h"
  shows "all_caused h t"
  using assms(1)
proof cases
  case (InConnect now msg p hub ok)
  note r = serve_hello_Registered[OF InConnect(4)]
  have "mail_conn (caused h) c (greeting_conn c p ok)"
    using acceptHello_Inr[OF r(1)] h InConnect(1) by (auto simp: r(3))
  with assms(2) show ?thesis unfolding InConnect(2) by (intro all_mail_put) simp_all
next
  case (InRefuse now msg p err)
  note r = serve_hello_Duplicate[OF InRefuse(4)]
  have "mail_conn (caused h) c (refused_conn p err)"
    using acceptHello_Inr[OF r(1)] caused_replies(1)[OF h] unfolding r(3) by (intro mail_refused) simp_all
  with assms(2) show ?thesis unfolding InRefuse(2) by (intro all_mail_put)
next
  case (InRead k uuid raw hub sends)
  have "\<forall>(q, m) \<in> set sends. caused h q m"
    using read_round_caused[OF InRead(7) InRead(3,4)] h InRead(1) by blast
  with assms(2) InRead(3) show ?thesis
    unfolding InRead(2) by (intro all_mail_put mail_conn_todo) (simp_all add: all_mail_conn)
next
  case (InPing k p' fs go)
  with assms(2) show ?thesis
    unfolding InPing(2) using all_mail_conn by (intro all_mail_put mail_conn_write[OF _ InPing(6)]) blast
qed

lemma all_caused_settle:
  assumes "srv_settle s t" and "all_caused h s" and "s \<in> fst ` set h"
  shows "all_caused h t"
  using assms
proof (induction rule: srv_settle.induct)
  case (SetSend s c k q m rest)
  then show ?case by (intro all_mail_send_one)
next
  case (SetUnregister s c k order hub sends)
  have "\<forall>(q, m) \<in> set sends. caused h q m"
    using unregister_caused[OF SetUnregister.hyps(8,7,1,2,3) SetUnregister.prems(2)] by blast
  with SetUnregister show ?case by (intro all_mail_put) (simp_all add: mail_conn_todo all_mail_conn)
next
  case (SetWrite s c k ev p' fs go)
  then show ?case by (intro all_mail_put mail_conn_write) (auto simp: all_mail_conn)
qed (auto intro!: all_mail_put simp: all_mail_conn)

lemma trace_all_caused: "srv_trace lib secret ice h s \<Longrightarrow> all_caused h s"
proof (induction rule: srv_trace.induct)
  case (trace_input h s c inp t)
  then show ?case by (intro all_caused_input[OF trace_input.hyps(2)] all_caused_more[OF trace_input.IH]) auto
next
  case (trace_settle h s t)
  then show ?case by (intro all_caused_settle[OF trace_settle.hyps(2)] all_caused_more[OF trace_settle.IH]) auto
qed simp

lemma said_vouched:
  assumes "srv_trace lib secret ice h s"
  shows "said h s' d n kind raw \<Longrightarrow> vouched lib secret n" and "ended h s' d n \<Longrightarrow> vouched lib secret n"
proof -
  have "vouched lib secret (p_id (c_peer kd))"
    if "(s', w) \<in> set h" "srv_conns s' d = Some kd" for w kd
    using srv_inv_conn[OF srv_reach_inv[OF srv_trace_states[OF assms that(1)]] that(2)]
    unfolding conn_ok_def vouched_def by metis
  then show "said h s' d n kind raw \<Longrightarrow> vouched lib secret n" and "ended h s' d n \<Longrightarrow> vouched lib secret n"
    by (auto simp: said_def ended_def)
qed

section \<open>Properties\<close>

text \<open>
  C2: the server makes nothing up and nobody speaks without a verified name: in any run, every
  message owed to, queued for or written to a connection has a cause in what was heard before:
  a \<open>peer.sdp\<close> or \<open>peer.ice\<close> is, but for its kind, a message some connection sent while the hub
  routed that session from it to the receiver; a \<open>session.ack\<close> answers a request of its
  receiver, or of the peer it names for its receiver; a \<open>peer.gone\<close> is a member's \<open>bye\<close> or its
  end; and whoever spoke or ended did so under a name the verifier accepted.
\<close>

theorem every_message_has_a_cause:
  assumes "srv_trace lib secret ice h s" and "srv_conns s c = Some k"
  shows "(\<forall>j. DataFrame j \<in> set (c_wire k) \<longrightarrow> (\<exists>m. j = encode_out m \<and> caused h c m)) \<and>
    (\<forall>m \<in> set (p_send (c_peer k)). caused h c m) \<and> (\<forall>(q, m) \<in> set (c_todo k). caused h q m) \<and>
    (\<forall>s' d n kind raw. said h s' d n kind raw \<longrightarrow> vouched lib secret n) \<and>
    (\<forall>s' d n. ended h s' d n \<longrightarrow> vouched lib secret n)"
  using mail_connD[OF all_mail_conn[OF trace_all_caused[OF assms(1)] assms(2)]] said_vouched[OF assms(1)] by blast

theorem every_message_has_a_cause_witness:
  "\<exists>h s d raw. srv_trace run_jwt ''key'' None h run_final \<and> said h s d ''a'' KindSessionReq raw \<and>
     vouched run_jwt ''key'' ''a''"
proof -
  obtain h where h: "srv_trace run_jwt ''key'' None h run_final" using srv_trace_exists[OF run_reaches_final] by blast
  note C = every_message_has_a_cause[OF h run_final_conns(2)]
  then have "caused h 3 (run_ack ''a'' False)" by (simp add: run_conn_simps)
  then obtain s d raw where "said h s d ''a'' KindSessionReq raw" by (auto simp: run_ack_def session_ack_def)
  with C h show ?thesis by blast
qed

end
