(* ===== verification/Delivery.thy ===== *)
theory Delivery
  imports Integrity
begin

text \<open>
  Relaying loses nothing and keeps the order of each sender.  What one connection had relayed to
  another, according to the trace, appears in that order in what the other was sent, has queued and
  is still owed, for as long as the other's peer has not been closed.
\<close>

section \<open>What a connection had relayed\<close>

text \<open>The sends of one message, when it is an \<open>sdp\<close> or an \<open>ice\<close>.\<close>

definition relayed :: "server \<Rightarrow> nat \<Rightarrow> json \<Rightarrow> (nat \<times> out_msg) list" where
  "relayed s d raw =
     (case (srv_conns s d, unmarshal_envelope raw) of
        (Some k, Inr env) \<Rightarrow>
          if env_kind env = KindSDP then fst (snd (dispatch_sdp (p_id (c_peer k)) (srv_hub s) raw))
          else if env_kind env = KindICE then fst (snd (dispatch_ice (p_id (c_peer k)) (srv_hub s) raw))
          else []
      | _ \<Rightarrow> [])"

definition sends_to :: "nat \<Rightarrow> (nat \<times> out_msg) list \<Rightarrow> json list" where
  "sends_to c sends = map (\<lambda>(q, m). encode_out m) (filter (\<lambda>(q, m). q = c) sends)"

fun relays :: "trace \<Rightarrow> nat \<Rightarrow> nat \<Rightarrow> json list" where
  "relays [] d c = []"
| "relays ((s, Heard e (MessageInput raw)) # h) d c =
     (if e = d then sends_to c (relayed s d raw) else []) @ relays h d c"
| "relays (_ # h) d c = relays h d c"

lemma sends_to_simps [simp]:
  "sends_to c [] = []" "sends_to c ((q, m) # xs) = (if q = c then [encode_out m] else []) @ sends_to c xs"
  "sends_to c (xs @ ys) = sends_to c xs @ sends_to c ys"
  by (simp_all add: sends_to_def)

lemma relays_append: "relays (h @ h') d c = relays h d c @ relays h' d c"
  by (induction h d c rule: relays.induct) simp_all

lemma relays_last [simp]:
  "relays (h @ [(s, Internal)]) d c = relays h d c" "relays (h @ [(s, Heard e PingInput)]) d c = relays h d c"
  "relays (h @ [(s, Heard e (HelloInput msg))]) d c = relays h d c"
  "relays (h @ [(s, Heard e (MessageInput raw))]) d c
     = relays h d c @ (if e = d then sends_to c (relayed s d raw) else [])"
  by (simp_all add: relays_append)

text \<open>What is relayed goes to connections that exist, and is what the round of the read loop sends.\<close>

lemma relayed_known:
  assumes "(q, m) \<in> set (relayed s d raw)" and "srv_inv lib secret s"
  shows "srv_conns s q \<noteq> None"
proof -
  obtain sid n where "other_peer sid n (srv_hub s) = Inr q"
    using assms(1) by (auto simp: relayed_def dispatch_sdp_def dispatch_ice_def split: option.splits sum.splits if_splits)
  then obtain n' where "hub_peers (srv_hub s) n' = Some q"
    by (auto simp: other_peer_def Let_def split: option.splits if_splits)
  then have "owner s q = Some n'" by (simp add: srv_inv_owner[OF assms(2)])
  then show ?thesis by (auto simp: owner_def split: option.splits)
qed

lemma relayed_sent:
  assumes "read_round uuid d (p_id (c_peer k)) (srv_hub s) (Inr raw) = Some (h, sends)" and "srv_conns s d = Some k"
  shows "subseq (sends_to c (relayed s d raw)) (sends_to c sends)"
proof (cases "unmarshal_envelope raw")
  case (Inr env)
  then have env: "unmarshal_envelope raw = Inr \<lparr>env_kind = env_kind env\<rparr>" by (cases env) simp
  have ne: "KindICE \<noteq> KindSDP" by (simp add: kind_defs)
  consider "env_kind env = KindSDP" | "env_kind env = KindICE" | "env_kind env \<noteq> KindSDP" "env_kind env \<noteq> KindICE"
    by blast
  then show ?thesis
  proof cases
    case 1
    then show ?thesis using assms env ne
      by (auto simp: read_round_kind relayed_def dispatch_sdp_def split: sum.splits)
  next
    case 2
    then show ?thesis using assms env ne
      by (auto simp: read_round_kind relayed_def dispatch_ice_def split: sum.splits)
  next
    case 3
    then show ?thesis using assms(2) env by (simp add: relayed_def)
  qed
qed (simp add: relayed_def split: option.splits)

section \<open>Where it is\<close>

text \<open>What a connection still owes another, and the whole way of what was relayed between them.\<close>

definition still_owed :: "server \<Rightarrow> nat \<Rightarrow> nat \<Rightarrow> json list" where
  "still_owed s d c = (case srv_conns s d of None \<Rightarrow> [] | Some k \<Rightarrow> sends_to c (c_todo k))"

definition on_the_way :: "server \<Rightarrow> nat \<Rightarrow> nat \<Rightarrow> json list" where
  "on_the_way s d c = (case srv_conns s c of None \<Rightarrow> [] | Some k \<Rightarrow> outstream k) @ still_owed s d c"

definition shut :: "server \<Rightarrow> nat \<Rightarrow> bool" where
  "shut s c \<longleftrightarrow> (\<exists>k. srv_conns s c = Some k \<and> p_closed (c_peer k))"

lemma still_owed_put: "still_owed (put_conn e k s) d c = (if d = e then sends_to c (c_todo k) else still_owed s d c)"
  by (simp add: still_owed_def)

lemma still_owed_send_to [simp]: "still_owed (send_to q m s) d c = still_owed s d c"
  by (simp add: still_owed_def send_to_conns split: option.splits)

lemma still_owed_put_hub [simp]: "still_owed (put_hub h s) d c = still_owed s d c"
  by (simp add: still_owed_def)

text \<open>Replacing a connection, with a longer stream and more to send.\<close>

lemma on_the_way_put:
  assumes "srv_conns s e = Some k" and "subseq (outstream k) (outstream k')"
    and "subseq (sends_to c (c_todo k)) (sends_to c (c_todo k'))"
  shows "subseq (on_the_way s d c) (on_the_way (put_conn e k' s) d c)"
  using assms by (auto simp: on_the_way_def still_owed_put still_owed_def intro!: list_emb_append_mono)

lemma on_the_way_new:
  "srv_conns s e = None \<Longrightarrow> c \<noteq> e \<Longrightarrow> subseq (on_the_way s d c) (on_the_way (put_conn e k s) d c)"
  by (auto simp: on_the_way_def still_owed_put) (simp add: still_owed_def subseq_rev_drop_many)

lemma on_the_way_put_hub [simp]: "on_the_way (put_hub h s) d c = on_the_way s d c"
  by (simp add: on_the_way_def)

lemma shut_put: "srv_conns s e = Some k \<Longrightarrow> p_closed (c_peer k) \<longrightarrow> p_closed (c_peer k') \<Longrightarrow> shut s c \<Longrightarrow> shut (put_conn e k' s) c"
  by (auto simp: shut_def)

lemma outstream_fields [simp]:
  "outstream (k\<lparr>c_todo := td\<rparr>) = outstream k" "outstream (k\<lparr>c_phase := ph\<rparr>) = outstream k"
  "outstream (k\<lparr>c_reading := r\<rparr>) = outstream k" "outstream (k\<lparr>c_writing := r\<rparr>) = outstream k"
  "outstream (k\<lparr>c_cancelled := r\<rparr>) = outstream k"
  by (simp_all add: outstream_def)

lemma outstream_send:
  "p_closed (send_msg m (c_peer k)) \<or> outstream (k\<lparr>c_peer := send_msg m (c_peer k)\<rparr>) = outstream k @ [encode_out m]"
  by (auto simp: send_msg_def close_peer_def outstream_def)

lemma outstream_write:
  assumes "write_round ev (c_peer k) = Some (p', fs, go)"
  shows "p_closed p' \<or> outstream (k\<lparr>c_peer := p', c_wire := c_wire k @ fs, c_writing := go\<rparr>) = outstream k"
  using assms by (cases ev) (auto simp: outstream_def recv_msg_def close_peer_def split: list.splits if_splits)

text \<open>A step that is not a read takes nothing off the way, unless it closes the receiver.\<close>

lemma send_on_the_way:
  assumes k: "srv_conns s e = Some k" and todo: "c_todo k = (q, m) # rest" and Some: "srv_conns s c = Some kc"
  shows "shut (send_to q m (put_conn e (k\<lparr>c_todo := rest\<rparr>) s)) c \<or>
    subseq (on_the_way s d c) (on_the_way (send_to q m (put_conn e (k\<lparr>c_todo := rest\<rparr>) s)) d c)"
proof -
  let ?s = "put_conn e (k\<lparr>c_todo := rest\<rparr>) s" and ?k = "if c = e then k\<lparr>c_todo := rest\<rparr> else kc"
  have c: "srv_conns ?s c = Some ?k" "outstream ?k = outstream kc" using Some k by auto
  have o: "still_owed ?s d c = (if d = e then sends_to c rest else still_owed s d c)"
    by (simp add: still_owed_put)
  have o': "still_owed s e c = (if q = c then [encode_out m] else []) @ sends_to c rest"
    using k todo by (simp add: still_owed_def)
  show ?thesis
  proof (cases "q = c")
    case True
    show ?thesis
      using outstream_send[of m ?k] c Some o o' True
      by (auto simp: on_the_way_def shut_def send_to_conns intro: list_emb_append_mono)
  next
    case False
    then show ?thesis using c Some o o' by (auto simp: on_the_way_def send_to_conns)
  qed
qed

lemma settle_on_the_way:
  assumes "srv_settle s t" and "srv_conns s c = Some kc"
  shows "shut t c \<or> subseq (on_the_way s d c) (on_the_way t d c)"
  using assms
proof (induction rule: srv_settle.induct)
  case (SetSend s e k q m rest)
  then show ?case by (intro send_on_the_way)
next
  case (SetWrite s e k ev p' fs go)
  have "subseq (on_the_way s d c) (on_the_way (put_conn e (k\<lparr>c_peer := p', c_wire := c_wire k @ fs, c_writing := go\<rparr>) s) d c)"
    if "\<not> p_closed p'"
    using outstream_write[OF SetWrite.hyps(6)] that by (intro on_the_way_put[OF SetWrite.hyps(1)]) simp_all
  moreover have ?case if "p_closed p'" "c \<noteq> e"
    using that SetWrite.prems by (simp add: on_the_way_def still_owed_put) (simp add: still_owed_def SetWrite.hyps(1))
  ultimately show ?case by (cases "c = e") (auto simp: shut_def)
next
  case (SetUnregister s e k order hub sends)
  then have "subseq (on_the_way (put_hub hub s) d c) (on_the_way (put_conn e (k\<lparr>c_phase := Leaving, c_todo := sends\<rparr>) (put_hub hub s)) d c)"
    by (intro on_the_way_put[where k = k]) simp_all
  then show ?case by simp
qed (rule disjI2, rule on_the_way_put, assumption, simp_all)+

lemma shut_step:
  assumes "srv_step lib secret s t" and "shut s c"
  shows "shut t c"
  using assms srv_step_moves[OF assms(1)] unfolding shut_def moves_to_def by metis

text \<open>An input adds what it has relayed at the end of what its sender owes.\<close>

lemma input_on_the_way:
  assumes "srv_input lib secret e inp s t" and "srv_conns s c = Some kc"
    and xs: "subseq xs (on_the_way s d c)"
  shows "shut t c \<or> subseq (xs @ (case inp of MessageInput raw \<Rightarrow> if e = d then sends_to c (relayed s d raw) else [] | _ \<Rightarrow> []))
    (on_the_way t d c)"
  using assms(1)
proof cases
  case (InConnect now msg p h ok)
  have "c \<noteq> e" using InConnect(3) assms(2) by auto
  then have "subseq (on_the_way s d c) (on_the_way t d c)"
    using on_the_way_new[of "put_hub h s" e c d] InConnect(3) by (simp add: InConnect(2))
  with xs InConnect(1) show ?thesis by (auto intro: subseq_order.trans)
next
  case (InRefuse now msg p err)
  have "c \<noteq> e" using InRefuse(3) assms(2) by auto
  then have "subseq (on_the_way s d c) (on_the_way t d c)"
    using on_the_way_new[of "s" e c d] InRefuse(3) by (simp add: InRefuse(2))
  with xs InRefuse(1) show ?thesis by (auto intro: subseq_order.trans)
next
  case (InRead k uuid raw h sends)
  have same: "on_the_way t d c = (case srv_conns s c of None \<Rightarrow> [] | Some k \<Rightarrow> outstream k) @ still_owed t d c"
    using InRead(3) by (auto simp: InRead(2) on_the_way_def)
  show ?thesis
  proof (cases "d = e")
    case True
    have "still_owed s e c = []" "still_owed t e c = sends_to c sends"
      using InRead(3,6) by (simp_all add: InRead(2) still_owed_put) (simp add: still_owed_def)
    moreover have "subseq (sends_to c (relayed s e raw)) (sends_to c sends)"
      by (rule relayed_sent[OF InRead(7,3)])
    ultimately show ?thesis
      using xs True same by (auto simp: InRead(1) on_the_way_def intro!: list_emb_append_mono)
  next
    case False
    then have "still_owed t d c = still_owed s d c" by (simp add: InRead(2) still_owed_put)
    then show ?thesis using xs False same by (simp add: InRead(1) on_the_way_def)
  qed
next
  case (InPing k p' fs go)
  have "outstream (k\<lparr>c_peer := p', c_wire := c_wire k @ fs, c_writing := go\<rparr>) = outstream k"
    using InPing(6) by (auto simp: outstream_def)
  then have "subseq (on_the_way s d c) (on_the_way t d c)"
    unfolding InPing(2) by (intro on_the_way_put[OF InPing(3)]) simp_all
  with xs InPing(1) show ?thesis by (auto intro: subseq_order.trans)
qed

section \<open>In every run\<close>

definition in_order :: "trace \<Rightarrow> server \<Rightarrow> bool" where
  "in_order h s \<longleftrightarrow>
     (\<forall>d c. (srv_conns s c = None \<longrightarrow> relays h d c = []) \<and>
            (shut s c \<or> subseq (relays h d c) (on_the_way s d c)))"

lemma no_relay_unknown:
  assumes "srv_inv lib secret s" and "srv_conns s c = None"
  shows "sends_to c (relayed s d raw) = []"
  using relayed_known[OF _ assms(1), of c _ d raw] assms(2) by (auto simp: sends_to_def filter_empty_conv)

lemma in_order_input:
  assumes "srv_input lib secret e inp s t" and "in_order h s" and "srv_inv lib secret s"
  shows "in_order (h @ [(s, Heard e inp)]) t"
  unfolding in_order_def
proof (intro allI)
  fix d c
  let ?new = "case inp of MessageInput raw \<Rightarrow> if e = d then sends_to c (relayed s d raw) else [] | _ \<Rightarrow> []"
  have r: "relays (h @ [(s, Heard e inp)]) d c = relays h d c @ ?new" by (cases inp) simp_all
  have old: "srv_conns s c = None \<Longrightarrow> relays h d c = []" "shut s c \<or> subseq (relays h d c) (on_the_way s d c)"
    using assms(2) by (auto simp: in_order_def)
  have new: "?new = []" if "srv_conns s c = None"
    using no_relay_unknown[OF assms(3) that] by (simp split: input.splits)
  show "(srv_conns t c = None \<longrightarrow> relays (h @ [(s, Heard e inp)]) d c = []) \<and>
      (shut t c \<or> subseq (relays (h @ [(s, Heard e inp)]) d c) (on_the_way t d c))"
  proof (cases "srv_conns s c")
    case None
    then show ?thesis using old(1) new r by simp
  next
    case (Some kc)
    then have "srv_conns t c \<noteq> None" using srv_step_moves[OF input_is_step[OF assms(1)] Some] by auto
    then show ?thesis
      using input_on_the_way[OF assms(1) Some] shut_step[OF input_is_step[OF assms(1)]] old(2) r by auto
  qed
qed

lemma in_order_settle:
  assumes "srv_settle s t" and "in_order h s"
  shows "in_order (h @ [(s, Internal)]) t"
  unfolding in_order_def
proof (intro allI)
  fix d c
  have old: "srv_conns s c = None \<Longrightarrow> relays h d c = []" "shut s c \<or> subseq (relays h d c) (on_the_way s d c)"
    using assms(2) by (auto simp: in_order_def)
  note step = settle_is_step[OF assms(1)]
  show "(srv_conns t c = None \<longrightarrow> relays (h @ [(s, Internal)]) d c = []) \<and>
      (shut t c \<or> subseq (relays (h @ [(s, Internal)]) d c) (on_the_way t d c))"
  proof (cases "srv_conns s c")
    case None
    then show ?thesis using old(1) by simp
  next
    case (Some kc)
    then have "srv_conns t c \<noteq> None" using srv_step_moves[OF step Some] by auto
    then show ?thesis
      using settle_on_the_way[OF assms(1) Some, of d] shut_step[OF step] old(2)
      by (auto intro: subseq_order.trans)
  qed
qed

lemma trace_in_order: "srv_trace lib secret ice h s \<Longrightarrow> in_order h s"
proof (induction rule: srv_trace.induct)
  case trace_init
  show ?case by (simp add: in_order_def)
next
  case (trace_input h s c inp t)
  then show ?case by (intro in_order_input) (auto intro: srv_reach_inv srv_trace_reach)
next
  case (trace_settle h s t)
  then show ?case by (intro in_order_settle)
qed

section \<open>An offer on its way\<close>

text \<open>The run of the two clients goes on: \<open>a\<close> sends its offer to \<open>b\<close>.\<close>

definition run_offer :: sdp_msg where
  "run_offer = \<lparr>sdp_kind = KindSDP, sdp_session = ''s_1'', sdp_role = ''offer'', sdp_sdp = ''o''\<rparr>"

definition run_peer_offer :: out_msg where
  "run_peer_offer = PeerSDP (run_offer\<lparr>sdp_kind := KindPeerSDP\<rparr>)"

definition run_a :: conn where
  "run_a = run_conn ''a'' Running [run_ok ''a'', run_ack ''b'' True] []"

lemma run_a_offers:
  "srv_input run_jwt ''key'' 2 (MessageInput (encode_sdp run_offer)) (two run_links run_a kb)
     (two run_links (run_a\<lparr>c_todo := [(3, run_peer_offer)]\<rparr>) kb)"
proof -
  have "read_round ''2'' 2 ''a'' (run_hub run_names run_links) (Inr (encode_sdp run_offer))
      = Some (run_hub run_names run_links, [(3, run_peer_offer)])"
    by (simp add: read_round_kind[OF envelope_of_client(3)] dispatch_sdp_encoded run_offer_def run_peer_offer_def
        other_peer_def run_hub_def run_names_def run_links_def run_session_def)
  then show ?thesis
    using InRead[OF two_simps(1), of run_a "''2''" run_links kb "encode_sdp run_offer" "run_hub run_names run_links"
        "[(3, run_peer_offer)]"]
    by (simp add: two_simps run_a_def run_conn_simps)
qed

definition run_offering :: server where
  "run_offering = two run_links (run_a\<lparr>c_todo := [(3, run_peer_offer)]\<rparr>)
     (run_conn ''b'' Greeting [run_ack ''a'' False, run_ok ''b''] [])"

lemma run_trace_offering:
  "\<exists>h. srv_trace run_jwt ''key'' None (h @ [(run_final, Heard 2 (MessageInput (encode_sdp run_offer)))]) run_offering"
proof -
  obtain h where "srv_trace run_jwt ''key'' None h run_final" using srv_trace_exists[OF run_reaches_final] by blast
  moreover have "srv_input run_jwt ''key'' 2 (MessageInput (encode_sdp run_offer)) run_final run_offering"
    unfolding run_final_def run_offering_def run_a_def[symmetric] by (rule run_a_offers)
  ultimately show ?thesis by (blast intro: trace_input)
qed

lemma run_offer_relays: "relayed run_final 2 (encode_sdp run_offer) = [(3, run_peer_offer)]"
  by (simp add: relayed_def run_final_conns run_conn_simps envelope_of_client dispatch_sdp_encoded run_offer_def
      run_peer_offer_def other_peer_def run_hub_def run_names_def run_links_def run_session_def)

section \<open>Properties\<close>

text \<open>
  C3: relaying loses nothing and keeps the order: as long as the receiving peer has not been
  closed, the descriptions and candidates one connection had relayed to another appear in the order
  they were sent in what the receiver was written, has queued and is still owed; so once its sender
  owes nothing and its queue is written, all of them are on the wire, in order.
\<close>

theorem relaying_is_complete_and_ordered:
  assumes "srv_trace lib secret ice h s" and "srv_conns s c = Some k" and "\<not> p_closed (c_peer k)"
  shows "subseq (relays h d c)
      (concat (map frame_data (c_wire k)) @ map encode_out (p_send (c_peer k)) @ still_owed s d c) \<and>
    (p_send (c_peer k) = [] \<and> still_owed s d c = [] \<longrightarrow> subseq (relays h d c) (concat (map frame_data (c_wire k))))"
proof -
  have "\<not> shut s c" using assms(2,3) by (simp add: shut_def)
  then have "subseq (relays h d c) (on_the_way s d c)"
    using trace_in_order[OF assms(1)] unfolding in_order_def by blast
  then show ?thesis using assms(2) by (auto simp: on_the_way_def outstream_def)
qed

theorem relaying_is_complete_and_ordered_witness:
  "\<exists>h. srv_trace run_jwt ''key'' None h run_offering \<and> encode_out run_peer_offer \<in> set (relays h 2 3) \<and>
     subseq (relays h 2 3) (map encode_out [run_ack ''a'' False, run_ok ''b'', run_peer_offer])"
proof -
  obtain h where h: "srv_trace run_jwt ''key'' None (h @ [(run_final, Heard 2 (MessageInput (encode_sdp run_offer)))]) run_offering"
    using run_trace_offering by blast
  have k: "srv_conns run_offering 3 = Some (run_conn ''b'' Greeting [run_ack ''a'' False, run_ok ''b''] [])"
    by (simp add: run_offering_def two_simps)
  have "still_owed run_offering 2 3 = [encode_out run_peer_offer]"
    by (simp add: still_owed_def run_offering_def two_simps)
  with relaying_is_complete_and_ordered[OF h k, of 2] h show ?thesis
    by (intro exI[of _ "h @ [(run_final, Heard 2 (MessageInput (encode_sdp run_offer)))]"])
      (simp add: run_conn_simps run_offer_relays, simp add: run_conn_def)
qed

end
