(* ===== verification/Endtoend.thy ===== *)
theory Endtoend
  imports System Delivery
begin

text \<open>
  From the sender to the relay.  Whatever the relay applies to a peer connection, the offer and the
  candidates, and every call it takes goes back to what an authenticated connection of the server
  sent, while the hub routed it to the relay.
\<close>

section \<open>What was delivered was caused\<close>

lemma delivered_caused:
  assumes "srv_trace lib secret ice h (w_server w)" and "j \<in> delivered c w"
  shows "\<exists>m. j = encode_out m \<and> caused h c m"
proof -
  obtain k where k: "srv_conns (w_server w) c = Some k" "j \<in> set (frames k)"
    using assms(2) by (auto simp: delivered_def dest: in_set_takeD split: option.splits)
  then show ?thesis using mail_connD(1)[OF all_mail_conn[OF trace_all_caused[OF assms(1)] k(1)]] frames_wire by blast
qed

section \<open>A call that is answered\<close>

text \<open>
  The run goes on: \<open>a\<close> sends its offer, the server relays it and writes what it has queued for
  \<open>b\<close>, and the relay takes the \<open>hello.ok\<close> and the offer.
\<close>

definition run_b :: "out_msg list \<Rightarrow> out_msg list \<Rightarrow> conn" where
  "run_b q sent = (run_conn ''b'' Running q [])\<lparr>c_wire := map (\<lambda>m. DataFrame (encode_out m)) sent\<rparr>"

lemma run_b_write: "srv_settle (two run_links run_a (run_b (m # q) sent)) (two run_links run_a (run_b q (sent @ [m])))"
proof -
  have "write_round WriteOk (run_peer ''b'' (m # q)) = Some (run_peer ''b'' q, [DataFrame (encode_out m)], True)"
    by (simp add: run_peer_def recv_msg_def)
  then show ?thesis
    using SetWrite[OF two_simps(2), of "run_b (m # q) sent" WriteOk _ _ _ run_links run_a]
    by (simp add: two_simps run_b_def run_conn_def)
qed

lemma run_offer_relayed:
  "srv_settle (two run_links (run_a\<lparr>c_todo := [(3, run_peer_offer)]\<rparr>) (run_b q sent))
     (two run_links run_a (run_b (q @ [run_peer_offer]) sent))" if "length q < 32"
  using SetSend[OF two_simps(1), of "run_a\<lparr>c_todo := [(3, run_peer_offer)]\<rparr>" 3 run_peer_offer "[]" run_links "run_b q sent"] that
  by (simp add: two_simps run_a_def run_b_def run_conn_simps) (simp add: run_conn_def run_peer_def send_msg_def sendQueueSize_def)

definition offered_server :: server where
  "offered_server = two run_links run_a (run_b [] [run_ack ''a'' False, run_ok ''b'', run_peer_offer])"

lemma offered_reached:
  assumes "sys_reach run_jwt ''key'' None cfg 3 \<lparr>w_server = answered, w_relay = r, w_seen = n, w_read = 0\<rparr>"
  shows "sys_reach run_jwt ''key'' None cfg 3 \<lparr>w_server = offered_server, w_relay = r, w_seen = n, w_read = 0\<rparr>"
proof -
  let ?reach = "\<lambda>s. sys_reach run_jwt ''key'' None cfg 3 \<lparr>w_server = s, w_relay = r, w_seen = n, w_read = 0\<rparr>"
  have settle: "?reach s \<Longrightarrow> srv_settle s t \<Longrightarrow> ?reach t" for s t
    using sys_next[OF _ SysSettle] by fastforce
  have input: "?reach s \<Longrightarrow> srv_input run_jwt ''key'' 2 inp s t \<Longrightarrow> ?reach t" for s t inp
    using sys_next[OF _ SysInput[where d = 2 and inp = inp]] by fastforce
  have "answered = two run_links run_a (run_b [run_ok ''b''] [run_ack ''a'' False])"
    by (simp add: answered_def run_a_def called_conn_def run_b_def)
  with assms have "?reach (two run_links (run_a\<lparr>c_todo := [(3, run_peer_offer)]\<rparr>) (run_b [run_ok ''b''] [run_ack ''a'' False]))"
    using input run_a_offers by metis
  then have "?reach (two run_links run_a (run_b [run_ok ''b'', run_peer_offer] [run_ack ''a'' False]))"
    using settle run_offer_relayed[of "[run_ok ''b'']"] by simp
  then have "?reach (two run_links run_a (run_b [run_peer_offer] [run_ack ''a'' False, run_ok ''b'']))"
    using settle run_b_write[of "run_ok ''b''"] by fastforce
  then show ?thesis
    unfolding offered_server_def using settle run_b_write[of run_peer_offer] by fastforce
qed

text \<open>The relay gets what was written, in its order, and applies the offer.\<close>

lemma run_downlink:
  assumes "sys_reach run_jwt ''key'' None cfg 3 \<lparr>w_server = offered_server, w_relay = r, w_seen = n, w_read = 0\<rparr>"
    and "n < 3" and "relay_step cfg (WsMessage px ([encode_out (run_ack ''a'' False), encode_out (run_ok ''b''),
          encode_out run_peer_offer] ! n)) r = Some r'"
  shows "sys_reach run_jwt ''key'' None cfg 3 \<lparr>w_server = offered_server, w_relay = r', w_seen = Suc n, w_read = 0\<rparr>"
proof -
  have f: "frames (run_b [] [run_ack ''a'' False, run_ok ''b'', run_peer_offer])
      = [encode_out (run_ack ''a'' False), encode_out (run_ok ''b''), encode_out run_peer_offer]"
    by (simp add: frames_def run_b_def)
  have "sys_step run_jwt ''key'' cfg 3 \<lparr>w_server = offered_server, w_relay = r, w_seen = n, w_read = 0\<rparr>
      \<lparr>w_server = offered_server, w_relay = r', w_seen = Suc n, w_read = 0\<rparr>"
    using SysDownlink[of "\<lparr>w_server = offered_server, w_relay = r, w_seen = n, w_read = 0\<rparr>" 3
        "run_b [] [run_ack ''a'' False, run_ok ''b'', run_peer_offer]" cfg px r'] assms(2,3)
    by (simp add: f offered_server_def two_simps)
  with assms(1) show ?thesis by (rule sys_next)
qed

definition answered_pc :: peer_conn where
  "answered_pc = call_pc\<lparr>pc_log := [RemoteSdp ''offer'' ''o'', LocalSdp ''answer'' ''v=0'']\<rparr>"

lemma answered_world:
  "\<exists>r. sys_reach run_jwt ''key'' None (demo_config False '''') 3
      \<lparr>w_server = offered_server, w_relay = r, w_seen = 3, w_read = 0\<rparr> \<and> r_pcs r 0 = Some answered_pc"
proof -
  let ?cfg = "demo_config False ''''"
  obtain r where r: "sys_reach run_jwt ''key'' None ?cfg 3 \<lparr>w_server = answered, w_relay = r, w_seen = 1, w_read = 0\<rparr>"
    "r_pcs r 0 = Some call_pc" "r_pc r = Some 0" "r_ended r = None" "\<not> r_crashed r"
    using demo_world by blast
  have "relay_step ?cfg (WsMessage fine_pion (encode_out (run_ok ''b''))) r = Some r"
    using r(4,5) by (simp add: relay_step_def ws_round_def run_ok_def envelope_of_server)
  with run_downlink[OF offered_reached[OF r(1)], of fine_pion r]
  have two: "sys_reach run_jwt ''key'' None ?cfg 3 \<lparr>w_server = offered_server, w_relay = r, w_seen = 2, w_read = 0\<rparr>"
    by (simp add: numeral_2_eq_2)
  have ev: "WsMessage fine_pion (encode_out run_peer_offer) = offer_event ''s_1''"
    by (simp add: run_peer_offer_def run_offer_def offer_event_def)
  obtain r' where r': "relay_step ?cfg (offer_event ''s_1'') r = Some r'" "r_pcs r' 0 = Some answered_pc"
    using offer_step[OF r(5,4,3), of ?cfg "''s_1''"] r(2)
    by (simp add: Let_def add_camera_def pc_do_def answered_pc_def call_pc_def)
  with run_downlink[OF two, of fine_pion r'] ev
  have "sys_reach run_jwt ''key'' None ?cfg 3 \<lparr>w_server = offered_server, w_relay = r', w_seen = 3, w_read = 0\<rparr>"
    by (simp add: numeral_3_eq_3 numeral_2_eq_2)
  with r'(2) show ?thesis by blast
qed

section \<open>Properties\<close>

text \<open>
  C4: what the relay acts on is authentic: in any run of the composed system, each of its calls
  was requested from it by a connection with a verified name; every remote description it ever
  applied to a peer connection is an offer, and every candidate it added is a candidate, that a
  connection with a verified name sent while the hub had it in a session with the relay.
\<close>

theorem relay_acts_on_authentic_input:
  assumes "sys_reach lib secret ice cfg c w" and "srv_trace lib secret ice h (w_server w)"
    and "r_pcs (w_relay w) i = Some p"
  shows "(\<exists>s d n raw q. said h s d n KindSessionReq raw \<and> vouched lib secret n \<and>
        checked (decode_session_req raw) = Inr q \<and> hub_peers (srv_hub s) (sreq_peer q) = Some c) \<and>
    (\<forall>kind sdp. RemoteSdp kind sdp \<in> set (pc_log p) \<longrightarrow> kind = ''offer'' \<and>
        (\<exists>s d n raw x. said h s d n KindSDP raw \<and> vouched lib secret n \<and> checked (decode_sdp raw) = Inr x \<and>
           sdp_role x = ''offer'' \<and> sdp_sdp x = sdp \<and> other_peer (sdp_session x) n (srv_hub s) = Inr c)) \<and>
    (\<forall>j. RemoteCandidate j \<in> set (pc_log p) \<longrightarrow>
        (\<exists>s d n raw x. said h s d n KindICE raw \<and> vouched lib secret n \<and> checked (decode_ice raw) = Inr x \<and>
           icem_cand x = j \<and> other_peer (icem_session x) n (srv_hub s) = Inr c))"
proof (intro conjI allI impI)
  have P: "told lib secret ice c w (pc_session p) (pc_ice p)"
    "\<And>a. a \<in> set (pc_log p) \<Longrightarrow> remote_action (offered c w) (trickled c w) a"
    using sys_heard[OF assms(1)] assms(3) by (auto simp: calls_ok_def)
  have V: "said h s d n kind raw \<Longrightarrow> vouched lib secret n" for s d n kind raw
    by (rule said_vouched[OF assms(2)])
  obtain a where a: "encode_out (SessionAck a) \<in> delivered c w" "\<not> ack_initiator a"
    using P(1) by (auto simp: told_def)
  have "caused h c (SessionAck a)"
    using delivered_caused[OF assms(2) a(1)] encoded_inject(1)[OF caused_plain] by metis
  then show "\<exists>s d n raw q. said h s d n KindSessionReq raw \<and> vouched lib secret n \<and>
        checked (decode_session_req raw) = Inr q \<and> hub_peers (srv_hub s) (sreq_peer q) = Some c"
    using a(2) V by (simp only: caused.simps) (metis (full_types))
  fix kind sdp
  assume r: "RemoteSdp kind sdp \<in> set (pc_log p)"
  show "kind = ''offer''" using P(2)[OF r] by simp
  obtain m where m: "encode_out (PeerSDP m) \<in> delivered c w" "sdp_role m = ''offer''" "sdp_sdp m = sdp"
    using P(2)[OF r] by (auto simp: offered_def)
  have "caused h c (PeerSDP m)"
    using delivered_caused[OF assms(2) m(1)] encoded_inject(2)[OF caused_plain] by metis
  then show "\<exists>s d n raw x. said h s d n KindSDP raw \<and> vouched lib secret n \<and> checked (decode_sdp raw) = Inr x \<and>
           sdp_role x = ''offer'' \<and> sdp_sdp x = sdp \<and> other_peer (sdp_session x) n (srv_hub s) = Inr c"
    using m(2,3) V by (simp only: caused.simps) fastforce
next
  have V: "said h s d n kind raw \<Longrightarrow> vouched lib secret n" for s d n kind raw
    by (rule said_vouched[OF assms(2)])
  fix j
  assume r: "RemoteCandidate j \<in> set (pc_log p)"
  have "remote_action (offered c w) (trickled c w) (RemoteCandidate j)"
    using sys_heard[OF assms(1)] assms(3) r unfolding calls_ok_def by blast
  then obtain m where m: "encode_out (PeerICE m) \<in> delivered c w" "icem_cand m = j" by (auto simp: trickled_def)
  have "caused h c (PeerICE m)"
    using delivered_caused[OF assms(2) m(1)] encoded_inject(3)[OF caused_plain] by metis
  then show "\<exists>s d n raw x. said h s d n KindICE raw \<and> vouched lib secret n \<and> checked (decode_ice raw) = Inr x \<and>
           icem_cand x = j \<and> other_peer (icem_session x) n (srv_hub s) = Inr c"
    using m(2) V by (simp only: caused.simps) fastforce
qed

theorem relay_acts_on_authentic_input_witness:
  "\<exists>h s d n raw x. srv_trace run_jwt ''key'' None h offered_server \<and> said h s d n KindSDP raw \<and> vouched run_jwt ''key'' n \<and>
     checked (decode_sdp raw) = Inr x \<and> sdp_sdp x = ''o'' \<and> other_peer (sdp_session x) n (srv_hub s) = Inr 3"
proof -
  obtain r where r: "sys_reach run_jwt ''key'' None (demo_config False '''') 3
      \<lparr>w_server = offered_server, w_relay = r, w_seen = 3, w_read = 0\<rparr>" "r_pcs r 0 = Some answered_pc"
    using answered_world by blast
  obtain h where h: "srv_trace run_jwt ''key'' None h offered_server"
    using srv_trace_exists[OF sys_reach_server[OF r(1)]] by auto
  have "RemoteSdp ''offer'' ''o'' \<in> set (pc_log answered_pc)" by (simp add: answered_pc_def)
  then show ?thesis
    using relay_acts_on_authentic_input[OF r(1), of h 0 answered_pc] h r(2) by simp blast
qed

end
