(* ===== verification/Spec2Isabelle.thy ===== *)
theory Spec2Isabelle
  imports Services Testpeer Endtoend
begin

text \<open>
  A verification development for pocketpilot-cloud, the cloud services of PocketPilot: an auth
  service that mints tokens, a signaling service that pairs peers over WebSockets and relays SDP
  and ICE between them, the drone-side relay that carries MAVLink between a local UDP socket and
  WebRTC data channels, and a stub client.  This root theory holds the properties that span
  components; every other theory models one part of the code and proves what makes it correct.

  THE PROGRAM AND ITS THEORIES

  Prelude: Go errors and their texts, decimal and hexadecimal formatting, \<open>%q\<close>, ASCII folding,
  \<open>strings.TrimSpace\<close>, and the collections of hints.  Wire_Json: the part of
  \<open>encoding/json\<close> the code relies on, on JSON values.  Interfaces: the locales through which
  components rely on one another, each interpreted on the code's model in the providing theory
  (session_router in Hub, bounded_queue in Peer, account_store in Auth, packet_source in
  Mavbridge).  Mail adds mail_discipline, the contract of whatever the server sends.

  Messages models \<open>internal/signal/messages.go\<close>: one record per struct with its encoder and
  decoder.  Hub models \<open>internal/signal/hub.go\<close>: one definition per method, each the region
  it runs under the lock, with the sends made afterwards returned as a list; it carries the
  hub's invariant and the refinement of the abstract rendezvous (who is online, who is linked).
  Peer models \<open>internal/signal/peer.go\<close>: the send queue, the dispatcher, one round of the read
  and of the write loop.  Server models \<open>internal/signal/ws.go\<close> and \<open>Peer.run\<close>: the whole
  signaling server as a transition system (\<open>srv_step\<close>), whose steps are the atomic actions of
  the goroutines, with invariants of its reachable states.  Six theories build on it: Settle
  divides its steps into inputs and what the goroutines do by themselves (\<open>srv_input\<close>,
  \<open>srv_settle\<close>); Mail and Typing say what every message it sends is; Refinement relates its
  states to the abstract rendezvous; Integrity and Delivery relate its messages to the history
  of a run (\<open>srv_trace\<close>).

  Http and Token model the HTTP values the handlers use and \<open>internal/token\<close>; Auth models
  \<open>internal/auth\<close>.  The JWT library and bcrypt are parameters with contracts
  (\<open>jwt_contract\<close>, \<open>bcrypt_contract\<close>), each shown satisfiable by a concrete instance.

  Mavframe models \<open>internal/mavframe/parse.go\<close> on machine words; Mavbridge models
  \<open>internal/mavbridge/udp.go\<close>, the receive loop interleaved with the operations of other
  goroutines; Backoff models \<open>login\<close>, \<open>sessionCycle\<close> and \<open>runWithBackoff\<close> of
  \<open>cmd/relay/main.go\<close>; Video models \<open>cmd/relay/video.go\<close> with the operating system's
  resources explicit; Relay models \<open>runWSLoop\<close>, \<open>newPeerConn\<close> with its callbacks and the
  telemetry and command wiring of \<open>cmd/relay/main.go\<close> as a machine over events; Testpeer models
  \<open>cmd/testpeer/main.go\<close>; Services models the entry points \<open>cmd/auth/main.go\<close>,
  \<open>cmd/signal/main.go\<close> and \<open>main\<close> of the relay: flags, wiring, routes, exit codes and the
  life of a serving process.  System and Endtoend compose the relay with the signaling server:
  \<open>sys_step\<close> moves what the server wrote on the relay's connection to the relay, and what the
  relay wrote to the server.

  HOW STATE AND CONCURRENCY ARE REPRESENTED

  A struct is a record, a Go map a partial function, a nil slice \<open>None\<close> where the code can
  tell it from an empty one.  A pointer to a peer, a peer connection, a data channel or a packet
  callback is a number.  What a mutex protects is one step; what happens outside a lock is a
  separate step, so other goroutines may come in between.  Nondeterminism (the scheduler, Go's
  map order, network failures, the outcomes of library calls) is an argument of the definition
  or of the event, and the properties hold for all of it.  Timeouts are events that may happen
  at any time.  An error is a value of \<open>go_error\<close>; a nil dereference or an index out of range
  is an outcome of its own.

  WHAT THE LEMMAS SHOW

  Wire: every message survives encoding and decoding.  Hub: its operations refine the abstract
  rendezvous; sessions always join two connected peers; unregistering tells every counterpart
  once.  Peer and Server: the queue is lossless and ordered until its owner is closed and never
  exceeds its capacity; a client reaches only peers it shares a session with; at most one
  connection per name; every registered name was signed under the server's secret; connections
  only move forward and can always end; without input the server comes to rest (a measure that
  every settling step lowers, lexicographically: phases left, then work left).  What it sends is
  well-typed, tells only verified names, has a cause in what was heard before, and arrives
  complete and in the order of its sender as long as the receiver is not closed; a well-typed
  message is always dispatched.  Token and Auth: issued tokens verify until their
  expiry and nothing else verifies; failed logins are indistinguishable.  Relay side: frames
  parse exactly, datagrams are delivered once and in order, commands and telemetry pass
  unchanged, no connection or camera leaks, delays follow their closed form.  Across components:
  logging in opens \<open>/v1/me\<close> and leads to a registration, an offer and its answer make the round
  trip, and whatever the relay acts on was sent by a connection with a verified name while the hub
  routed it to the relay.  Several properties state where the code does less than it means to:
  sessions closed by strangers, panics on tokens without expiry and on empty datagrams, stale
  events hitting a new session, the stub client's leaked connection, a \<open>hello.ok\<close> that comes
  second, a failure to listen that ends in status zero.

  BOUNDS

  No fuel is used: loops over data are structural recursion, and loops that run for ever are
  lists of events or step relations, so the properties are about all finite runs.  Machine
  arithmetic is kept where it can wrap: the logger's counter is a 64 bit word, message ids are
  32 bit words, and the doubling of the reconnect delay is written with its 64 bit wrap-around
  (the closed form needs a maximum below 2 to the 62 nanoseconds, about 146 years).

  NOT MODELLED

  The text of JSON and of HTTP, WebSocket framing and its read limit, SDP, ICE and RTP contents,
  TLS, logging other than the debug logger and ffmpeg's lines, and the codec and interceptor
  tables handed to the WebRTC library.  The chi middleware is a parameter that recovers from
  panics; draining connections at shutdown is an event of the HTTP server.  The lengths of the
  timeouts and of the ping interval have no counterpart, since time is not measured: what they
  trigger may happen at any moment.  For the clients, a \<open>peer.ice\<close>
  message without a \<open>cand\<close> member is identified with one whose \<open>cand\<close> is \<open>null\<close>; the
  server never sends the former.  \<open>go_quote\<close> covers text whose characters beyond ASCII are
  printable.
\<close>

section \<open>Across the components\<close>

lemma seeded:
  assumes "SeedDev bc salt1 salt2 NewMemoryStore = (users, None)"
  obtains h1 h2 where
    "users = [''pilot1'' \<mapsto> \<lparr>u_id = ''pilot1'', u_username = ''pilot1'', u_password_hash = h1, u_role = RoleUser\<rparr>,
              ''drone-42'' \<mapsto> \<lparr>u_id = ''drone-42'', u_username = ''drone-42'', u_password_hash = h2, u_role = RoleDrone\<rparr>]"
    and "bc_generate bc salt1 ''pilot1-dev'' = Inr h1" and "bc_generate bc salt2 ''drone-42-dev'' = Inr h2"
  using assms
  by (auto simp: SeedDev_def add_user_def NewMemoryStore_def Let_def split: sum.splits option.splits if_splits)

definition dev_accounts :: "(string \<times> string \<times> string) list" where
  "dev_accounts = [(''pilot1'', ''pilot1-dev'', RoleUser), (''drone-42'', ''drone-42-dev'', RoleDrone)]"

lemma seeded_authenticates:
  assumes "bcrypt_contract bc" and "SeedDev bc salt1 salt2 NewMemoryStore = (users, None)"
    and "(user, pass, role) \<in> set dev_accounts"
  shows "\<exists>u. authenticate bc user pass users = Inr u \<and> u_id u = user \<and> u_role u = role"
proof -
  obtain h1 h2 where u: "users = [''pilot1'' \<mapsto> \<lparr>u_id = ''pilot1'', u_username = ''pilot1'', u_password_hash = h1, u_role = RoleUser\<rparr>,
              ''drone-42'' \<mapsto> \<lparr>u_id = ''drone-42'', u_username = ''drone-42'', u_password_hash = h2, u_role = RoleDrone\<rparr>]"
    and h: "bc_generate bc salt1 ''pilot1-dev'' = Inr h1" "bc_generate bc salt2 ''drone-42-dev'' = Inr h2"
    using seeded[OF assms(2)] by blast
  from h assms(1) have "bc_compare bc h1 ''pilot1-dev''" "bc_compare bc h2 ''drone-42-dev''"
    by (auto simp: bcrypt_contract_def)
  then show ?thesis using assms(3) by (auto simp: dev_accounts_def authenticate_def u)
qed

text \<open>
  C13: the services fit together: when the auth and the signaling service start with the same
  secret, a client that logs in with a seeded development account gets a token, and the
  signaling service that reads a hello with this token before it expires registers a connection
  under the account's name and role in its fresh hub, which hands out the configured TURN server.
\<close>

theorem login_leads_to_registration:
  assumes "jwt_contract lib" and "bcrypt_contract bc"
    and "auth_main bc salt1 salt2 acfg env = Inr svc"
    and "signal_main scfg env' = Inr sig"
    and "resolve_secret (sc_jwt_secret scfg) env' = resolve_secret (ac_jwt_secret acfg) env"
    and "(user, pass, role) \<in> set dev_accounts"
    and "issue lib (as_issuer svc) now user role = Inr (tok, exp)" and "tok \<noteq> ''''"
    and "later < exp div second * second"
  shows "login (auth_client bc lib svc render now base) base user pass = Inr tok \<and>
    (\<exists>h. serve_hello lib (ss_secret sig) later (Inr (encode_hello \<lparr>hello_kind = KindHello, hello_token = tok\<rparr>)) c
            (srv_hub (ss_server sig))
          = Registered (newPeer user role) h (HelloOK \<lparr>hok_kind = KindHelloOK, hok_self = user\<rparr>) \<and>
         hub_peers h = [user \<mapsto> c] \<and>
         IceServers h = Some (if sc_turn_uri scfg = '''' then []
                              else [\<lparr>ice_urls = Some [sc_turn_uri scfg], ice_username = sc_turn_user scfg, ice_credential = sc_turn_pass scfg\<rparr>]))"
proof
  let ?s = "resolve_secret (ac_jwt_secret acfg) env"
  from assms(3) have svc: "SeedDev bc salt1 salt2 NewMemoryStore = (as_users svc, None)"
    "as_issuer svc = NewIssuer ?s (ac_access_ttl acfg)"
    by (auto simp: auth_main_def NewHTTPHandler_def Let_def split: if_splits prod.splits option.splits)
  from assms(4,5) have sig: "ss_secret sig = ?s" "ss_server sig = init_server (turn_servers (sc_turn_uri scfg) (sc_turn_user scfg) (sc_turn_pass scfg))"
    by (auto simp: signal_main_def ss_server_def init_server_def NewWSHandler_def NewVerifier_def Let_def split: if_splits)
  obtain u where "authenticate bc user pass (as_users svc) = Inr u" "u_id u = user" "u_role u = role"
    using seeded_authenticates[OF assms(2) svc(1) assms(6)] by blast
  then show "login (auth_client bc lib svc render now base) base user pass = Inr tok"
    using assms(7,8) by (simp add: login_at_auth)
  have "verify lib ?s later tok = Inr (issued_claims lib (as_issuer svc) now user role)"
    using verify_issued[OF assms(1,7), of later] assms(9) svc(2) by (simp add: NewIssuer_def)
  then have hello: "acceptHello lib (ss_secret sig) later (hello_frame tok) = Inr (newPeer user role)"
    using acceptHello_frame sig(1) by (simp add: issued_claims_def)
  show "\<exists>h. serve_hello lib (ss_secret sig) later (Inr (encode_hello \<lparr>hello_kind = KindHello, hello_token = tok\<rparr>)) c
            (srv_hub (ss_server sig))
          = Registered (newPeer user role) h (HelloOK \<lparr>hok_kind = KindHelloOK, hok_self = user\<rparr>) \<and>
         hub_peers h = [user \<mapsto> c] \<and>
         IceServers h = Some (if sc_turn_uri scfg = '''' then []
                              else [\<lparr>ice_urls = Some [sc_turn_uri scfg], ice_username = sc_turn_user scfg, ice_credential = sc_turn_pass scfg\<rparr>])"
    using hello
    by (simp add: serve_hello_def hello_frame_def sig(2) init_server_def new_hub_def register_def newPeer_def
        turn_servers_def IceServers_def Let_def)
qed

definition e2e_jwt :: jwt_lib where
  "e2e_jwt = table_jwt [(''tok'', SigningMethodHS256,
     \<lparr>cl_role = RoleDrone, cl_subject = ''drone-42'', cl_issued_at = Some 0, cl_expires_at = Some 3600, cl_issuer = Issuer\<rparr>, ''key'')]"

lemma e2e_jwt_contract: "jwt_contract e2e_jwt"
  unfolding e2e_jwt_def by (rule table_jwt_contract) simp

definition demo_auth :: auth_service where
  "demo_auth = projr (auth_main demo_bcrypt ''s'' ''s'' (default_auth_config\<lparr>ac_jwt_secret := ''key''\<rparr>) '''')"

lemma demo_auth_main:
  "auth_main demo_bcrypt ''s'' ''s'' (default_auth_config\<lparr>ac_jwt_secret := ''key''\<rparr>) '''' = Inr demo_auth"
  "as_issuer demo_auth = NewIssuer ''key'' (3600 * second)"
  by (simp_all add: demo_auth_def auth_main_def default_auth_config_def NewHTTPHandler_def resolve_secret_def
      SeedDev_def add_user_def demo_bcrypt_def NewMemoryStore_def Let_def)

lemma demo_issue_drone: "issue e2e_jwt (as_issuer demo_auth) 0 ''drone-42'' RoleDrone = Inr (''tok'', 3600 * second)"
  by (simp add: demo_auth_main(2) issue_Inr issued_claims_def e2e_jwt_def table_jwt_def NewIssuer_def second_def)

theorem login_leads_to_registration_witness:
  "\<exists>svc sig. auth_main demo_bcrypt ''s'' ''s'' (default_auth_config\<lparr>ac_jwt_secret := ''key''\<rparr>) '''' = Inr svc \<and>
     signal_main (default_signal_config\<lparr>sc_turn_uri := ''turn:h''\<rparr>) ''key'' = Inr sig \<and>
     login (auth_client demo_bcrypt e2e_jwt svc (\<lambda>j. '''') 0 ''http://a'') ''http://a'' ''drone-42'' ''drone-42-dev'' = Inr ''tok''"
proof -
  obtain sg where sg: "signal_main (default_signal_config\<lparr>sc_turn_uri := ''turn:h''\<rparr>) ''key'' = Inr sg"
    by (auto simp: signal_main_def default_signal_config_def resolve_secret_def Let_def)
  from login_leads_to_registration[OF e2e_jwt_contract demo_bcrypt_contract demo_auth_main(1) sg _ _ demo_issue_drone,
      of "''drone-42-dev''" 0]
  show ?thesis using demo_auth_main(1) sg
    by (simp add: default_auth_config_def default_signal_config_def resolve_secret_def dev_accounts_def second_def)
qed

text \<open>
  C16: a login opens \<open>/v1/me\<close>: a seeded account that posts its password to the auth service
  gets 200 with a token, its expiry in Unix seconds, its name and role; and \<open>GET /v1/me\<close> with
  this token reports the same name, role and expiry before that second, and answers 401
  \<open>invalid_token\<close> from then on.  The middleware around the routes changes nothing of it.
\<close>

theorem login_opens_me:
  assumes "jwt_contract lib" and "bcrypt_contract bc" and "recovers mw"
    and "auth_main bc salt1 salt2 acfg env = Inr svc" and "(user, pass, role) \<in> set dev_accounts"
    and "issue lib (as_issuer svc) now user role = Inr (tok, exp)" and "trimmed tok" and "tok \<noteq> ''''"
    and "req_authorization r = ''Bearer '' @ tok"
  shows "auth_serve mw bc lib svc now ''POST'' ''/v1/auth/login'' (json_request (login_body user pass))
      = Handled (Response 200 ''application/json''
          (encode_login_response \<lparr>lo_access_token = tok, lo_expires_at = unix_seconds exp, lo_subject = user, lo_role = role\<rparr>)) \<and>
    (later < unix_seconds exp * second \<longrightarrow>
       auth_serve mw bc lib svc later ''GET'' ''/v1/me'' r
         = Handled (Response 200 ''application/json''
             (JObj [(''exp'', JNum (dec_int (unix_seconds exp))), (''role'', JStr role), (''sub'', JStr user)]))) \<and>
    (unix_seconds exp * second \<le> later \<longrightarrow>
       (\<exists>e. auth_serve mw bc lib svc later ''GET'' ''/v1/me'' r = Handled (writeErr 401 ''invalid_token'' e)))"
proof -
  let ?s = "resolve_secret (ac_jwt_secret acfg) env"
  from assms(4) have svc: "SeedDev bc salt1 salt2 NewMemoryStore = (as_users svc, None)"
    "m_secret (as_issuer svc) = v_secret (as_verifier svc)"
    by (auto simp: auth_main_def NewHTTPHandler_def NewIssuer_def NewVerifier_def Let_def
        split: if_splits prod.splits option.splits)
  obtain u where u: "authenticate bc user pass (as_users svc) = Inr u" "u_id u = user" "u_role u = role"
    using seeded_authenticates[OF assms(2) svc(1) assms(5)] by blast
  have pass: "mw (Response st ty body) = Response st ty body" for st ty body
    using assms(3) by (simp add: recovers_def)
  have b: "bearer r = tok" using bearer_of_token[OF assms(7-9)] .
  have v: "verify lib (v_secret (as_verifier svc)) later tok = Inr c \<longleftrightarrow>
      c = issued_claims lib (as_issuer svc) now user role \<and> later < unix_seconds exp * second" for c
    using verify_issued[OF assms(1,6), of later c] svc(2) by (simp add: unix_seconds_def)
  have e: "cl_expires_at (issued_claims lib (as_issuer svc) now user role) = Some (unix_seconds exp)"
    using issued_expiry[OF assms(1,6)] by (simp add: unix_seconds_def)
  have "auth_serve mw bc lib svc now ''POST'' ''/v1/auth/login'' (json_request (login_body user pass))
      = Handled (Response 200 ''application/json''
          (encode_login_response \<lparr>lo_access_token = tok, lo_expires_at = unix_seconds exp, lo_subject = user, lo_role = role\<rparr>))"
    using u assms(6) by (simp add: auth_serve_def auth_route_def Login_body json_request_def pass)
  moreover have "auth_serve mw bc lib svc later ''GET'' ''/v1/me'' r
      = Handled (Response 200 ''application/json''
             (JObj [(''exp'', JNum (dec_int (unix_seconds exp))), (''role'', JStr role), (''sub'', JStr user)]))"
    if "later < unix_seconds exp * second"
    using v[of "issued_claims lib (as_issuer svc) now user role"] that b assms(8) e
    by (simp add: auth_serve_def auth_route_def RequireToken_def Me_def ClaimsFrom_def Let_def StatusOK_def pass
        issued_claims_def)
  moreover have "\<exists>e. auth_serve mw bc lib svc later ''GET'' ''/v1/me'' r = Handled (writeErr 401 ''invalid_token'' e)"
    if "unix_seconds exp * second \<le> later"
  proof -
    have "verify lib (v_secret (as_verifier svc)) later tok \<noteq> Inr c" for c
      using v that by simp
    then obtain x where "verify lib (v_secret (as_verifier svc)) later tok = Inl x"
      by (cases "verify lib (v_secret (as_verifier svc)) later tok") blast+
    then show ?thesis
      using b assms(8) by (auto simp: auth_serve_def auth_route_def RequireToken_def Let_def StatusUnauthorized_def
          writeErr_def pass)
  qed
  ultimately show ?thesis by blast
qed

definition demo_middleware :: "http_outcome \<Rightarrow> http_outcome" where
  "demo_middleware out = (case out of NilPanic \<Rightarrow> Response 500 '''' JNull | _ \<Rightarrow> out)"

theorem login_opens_me_witness:
  "\<exists>svc. auth_main demo_bcrypt ''s'' ''s'' (default_auth_config\<lparr>ac_jwt_secret := ''key''\<rparr>) '''' = Inr svc \<and>
     auth_serve demo_middleware demo_bcrypt e2e_jwt svc 7 ''GET'' ''/v1/me''
         \<lparr>req_authorization = ''Bearer tok'', req_claims = None, req_body = Inl (LibError ''EOF'')\<rparr>
       = Handled (Response 200 ''application/json''
           (JObj [(''exp'', JNum ''3600''), (''role'', JStr RoleDrone), (''sub'', JStr ''drone-42'')]))"
proof -
  let ?r = "\<lparr>req_authorization = ''Bearer tok'', req_claims = None, req_body = Inl (LibError ''EOF'')\<rparr> :: claims http_request"
  have m: "recovers demo_middleware" by (simp add: recovers_def demo_middleware_def StatusInternalServerError_def)
  have t: "trimmed ''tok''" by (rule trimmed_ascii) (simp_all add: ascii_visible_def)
  have d: "(''drone-42'', ''drone-42-dev'', RoleDrone) \<in> set dev_accounts" by (simp add: dev_accounts_def)
  have x: "dec_int 3600 = ''3600''" by code_simp
  from login_opens_me[OF e2e_jwt_contract demo_bcrypt_contract m demo_auth_main(1) d demo_issue_drone t, of ?r 7]
  show ?thesis using demo_auth_main(1) by (auto simp: unix_seconds_def second_def x)
qed

text \<open>
  C12: an offer and its answer make the round trip: in a session between two registered peers,
  the pilot's offer is relayed to the drone's connection, the relay that holds a connection for
  this session answers it, the answer is relayed back to the pilot's connection, and the pilot
  applies exactly this answer to its own connection; the hub is not changed by any of it.
\<close>

theorem offer_and_answer_make_the_round_trip:
  assumes "other_peer s a hub = Inr q" and "other_peer s b hub = Inr p"
    and "r_ended r = None" and "\<not> r_crashed r" and "r_pc r = Some k" and "r_session r = s"
    and "px_set_remote px = None" and "px_answer px = Inr ans" and "px_set_local px = None" and "px_write px = None"
    and "t_pc t = Some i" and "te_set_remote env = None"
  shows "\<exists>m1 r' j2 m2.
    read_round u p a hub (Inr (encode_sdp \<lparr>sdp_kind = KindSDP, sdp_session = s, sdp_role = ''offer'', sdp_sdp = offer\<rparr>))
      = Some (hub, [(q, m1)]) \<and>
    relay_step cfg (WsMessage px (encode_out m1)) r = Some r' \<and> r_sent r' = r_sent r @ [j2] \<and>
    read_round u q b hub (Inr j2) = Some (hub, [(p, m2)]) \<and>
    t_round rolePilot target env (encode_out m2) t
      = on_pc i (\<lambda>x. x\<lparr>tp_remote := tp_remote x @ [(''answer'', ans)]\<rparr>) t"
proof -
  let ?sdp = "\<lambda>kind role d. \<lparr>sdp_kind = kind, sdp_session = s, sdp_role = role, sdp_sdp = d\<rparr>"
  have there: "read_round u p a hub (Inr (encode_sdp (?sdp KindSDP ''offer'' offer)))
      = Some (hub, [(q, PeerSDP (?sdp KindPeerSDP ''offer'' offer))])"
    using assms(1) by (simp add: read_round_kind[OF envelope_of_client(3)] dispatch_sdp_encoded)
  have home: "read_round u q b hub (Inr (encode_sdp (?sdp KindSDP ''answer'' ans)))
      = Some (hub, [(p, PeerSDP (?sdp KindPeerSDP ''answer'' ans))])"
    using assms(2) by (simp add: read_round_kind[OF envelope_of_client(3)] dispatch_sdp_encoded)
  obtain r' where r': "relay_step cfg (WsMessage px (encode_out (PeerSDP (?sdp KindPeerSDP ''offer'' offer)))) r = Some r'"
    "r_sent r' = r_sent r @ [encode_sdp (?sdp KindSDP ''answer'' ans)]"
    using assms(3-10)
    by (simp add: relay_step_def ws_round_def envelope_peer_sdp server_roundtrips on_peer_sdp_def Let_def)
  have "t_round rolePilot target env (encode_out (PeerSDP (?sdp KindPeerSDP ''answer'' ans))) t
      = on_pc i (\<lambda>x. x\<lparr>tp_remote := tp_remote x @ [(''answer'', ans)]\<rparr>) t"
    using assms(11,12)
    by (simp add: t_round_def envelope_peer_sdp server_roundtrips t_peer_sdp_def Let_def)
  then show ?thesis
    using there home r'
    by (intro exI[of _ "PeerSDP (?sdp KindPeerSDP ''offer'' offer)"] exI[of _ r']
        exI[of _ "encode_sdp (?sdp KindSDP ''answer'' ans)"] exI[of _ "PeerSDP (?sdp KindPeerSDP ''answer'' ans)"]) simp
qed

theorem offer_and_answer_make_the_round_trip_witness:
  "\<exists>r m1 r' j2 m2. relay_run (demo_config False '''') [ack_event ''s_1''] (demo_start '''') = Some r \<and>
    read_round ''u'' 2 ''a'' (run_hub run_names run_links)
      (Inr (encode_sdp \<lparr>sdp_kind = KindSDP, sdp_session = ''s_1'', sdp_role = ''offer'', sdp_sdp = ''o''\<rparr>))
      = Some (run_hub run_names run_links, [(3, m1)]) \<and>
    relay_step (demo_config False '''') (WsMessage fine_pion (encode_out m1)) r = Some r' \<and> r_sent r' = r_sent r @ [j2] \<and>
    read_round ''u'' 3 ''b'' (run_hub run_names run_links) (Inr j2) = Some (run_hub run_names run_links, [(2, m2)])"
proof -
  obtain r where run: "relay_run (demo_config False '''') [ack_event ''s_1''] (demo_start '''') = Some r"
    and r: "r_ended r = None" "\<not> r_crashed r" "r_pc r = Some 0" "r_session r = ''s_1''"
    using ready_ack[OF ready_start, of "demo_config False ''''" "''s_1''" "''''"] by (auto simp: ready_def)
  have hub: "other_peer ''s_1'' ''a'' (run_hub run_names run_links) = Inr 3"
    "other_peer ''s_1'' ''b'' (run_hub run_names run_links) = Inr 2"
    by (simp_all add: other_peer_def run_hub_def run_links_def run_session_def run_names_def)
  have t: "t_pc (new_testpeer\<lparr>t_pc := Some 0\<rparr>) = Some 0" "te_set_remote (fine_env ''x'') = None"
    by (simp_all add: fine_env_def)
  have px: "px_set_remote fine_pion = None" "px_answer fine_pion = Inr ''v=0''" "px_set_local fine_pion = None"
    "px_write fine_pion = None"
    by (simp_all add: fine_pion_def)
  from offer_and_answer_make_the_round_trip[OF hub r px t] run show ?thesis by blast
qed

end
